(* ===== verification/Prelude.thy ===== *)
theory Prelude
  imports Main "HOL-Library.Word"
begin

text \<open>
  Shared vocabulary of the development.

  Bytes and machine integers are words of their C++ width; \<open>std::vector<uint8_t>\<close> and
  \<open>std::span<uint8_t>\<close> are byte lists, \<open>std::string\<close> is \<open>string\<close>.  A function that may throw
  returns \<open>failure + 'a\<close>: \<open>Inl\<close> is the exception (with its message), \<open>Inr\<close> the value.  A read
  through a raw pointer outside the underlying buffer has no defined result in C++; it is the
  separate failure \<open>Undefined_Behaviour\<close>, which no \<open>catch\<close> handler intercepts.  A loop whose
  termination depends on a library is run with fuel and reports \<open>Out_Of_Fuel\<close>.
\<close>

section \<open>Types\<close>

type_synonym byte = "8 word"
type_synonym bytes = "8 word list"
type_synonym u16 = "16 word"
type_synonym u32 = "32 word"
type_synonym u64 = "64 word"

datatype failure =
    Runtime_Error string
  | Logic_Error string
  | Json_Error string
  | Out_Of_Range string
  | Bad_Alloc
  | Unknown_Exception
  | Undefined_Behaviour string
  | Out_Of_Fuel

type_synonym 'a result = "failure + 'a"

named_theorems result_simps \<open>rewrite rules for the exception monad\<close>
named_theorems byte_simps \<open>rewrite rules for byte and word codecs\<close>

section \<open>Sequencing, guards and handlers\<close>

text \<open>\<open>andthen\<close> is C++ statement sequencing: the first exception leaves the function.\<close>

definition andthen :: "'a result \<Rightarrow> ('a \<Rightarrow> 'b result) \<Rightarrow> 'b result" where
  "andthen m f = (case m of Inl e \<Rightarrow> Inl e | Inr x \<Rightarrow> f x)"

text \<open>\<open>if (c) throw e;\<close> followed by the rest of the function.\<close>

definition throw_if :: "bool \<Rightarrow> failure \<Rightarrow> 'b result \<Rightarrow> 'b result" where
  "throw_if c e k = (if c then Inl e else k)"

text \<open>The message of an exception, as \<open>std::exception::what()\<close> gives it.\<close>

fun what_of :: "failure \<Rightarrow> string" where
  "what_of (Runtime_Error s) = s"
| "what_of (Logic_Error s) = s"
| "what_of (Json_Error s) = s"
| "what_of (Out_Of_Range s) = s"
| "what_of Bad_Alloc = ''std::bad_alloc''"
| "what_of Unknown_Exception = ''''"
| "what_of (Undefined_Behaviour s) = s"
| "what_of Out_Of_Fuel = ''''"

fun catchable :: "failure \<Rightarrow> bool" where
  "catchable (Undefined_Behaviour s) = False"
| "catchable Out_Of_Fuel = False"
| "catchable e = True"

fun is_std_exception :: "failure \<Rightarrow> bool" where
  "is_std_exception Unknown_Exception = False"
| "is_std_exception e = catchable e"

text \<open>
  \<open>try { m } catch (const std::exception& ex) { throw h(ex.what()); } catch (...) { throw d; }\<close>
\<close>

definition rethrow_as :: "(string \<Rightarrow> failure) \<Rightarrow> failure \<Rightarrow> 'a result \<Rightarrow> 'a result" where
  "rethrow_as h d m = (case m of Inr x \<Rightarrow> Inr x
     | Inl e \<Rightarrow> (if is_std_exception e then Inl (h (what_of e))
               else if catchable e then Inl d else Inl e))"

definition is_ok :: "'a result \<Rightarrow> bool" where
  "is_ok m = (case m of Inl _ \<Rightarrow> False | Inr _ \<Rightarrow> True)"

definition throws :: "'a result \<Rightarrow> bool" where
  "throws m = (case m of Inl e \<Rightarrow> catchable e | Inr _ \<Rightarrow> False)"

definition undefined_behaviour :: "'a result \<Rightarrow> bool" where
  "undefined_behaviour m = (case m of Inl (Undefined_Behaviour _) \<Rightarrow> True | _ \<Rightarrow> False)"

lemma andthen_simps [simp, result_simps]:
  "andthen (Inl e) f = Inl e"
  "andthen (Inr x) f = f x"
  by (simp_all add: andthen_def)

lemma andthen_Inr [result_simps]:
  "andthen m f = Inr y \<longleftrightarrow> (\<exists>x. m = Inr x \<and> f x = Inr y)"
  by (cases m) auto

lemma andthen_Inl [result_simps]:
  "andthen m f = Inl e \<longleftrightarrow> m = Inl e \<or> (\<exists>x. m = Inr x \<and> f x = Inl e)"
  by (cases m) auto

lemma andthen_assoc: "andthen (andthen m f) g = andthen m (\<lambda>x. andthen (f x) g)"
  by (cases m) auto

lemma andthen_cong [fundef_cong]:
  "m = m' \<Longrightarrow> (\<And>x. m' = Inr x \<Longrightarrow> f x = f' x) \<Longrightarrow> andthen m f = andthen m' f'"
  by (cases m') auto

lemma throw_if_simps [simp, result_simps]:
  "throw_if True e k = Inl e"
  "throw_if False e k = k"
  by (simp_all add: throw_if_def)

lemma throw_if_Inr [result_simps]: "throw_if c e k = Inr y \<longleftrightarrow> \<not> c \<and> k = Inr y"
  by (simp add: throw_if_def)

lemma throw_if_Inl [result_simps]:
  "throw_if c e k = Inl d \<longleftrightarrow> (c \<and> e = d) \<or> (\<not> c \<and> k = Inl d)"
  by (auto simp: throw_if_def)

lemma throw_if_cong [fundef_cong]:
  "c = c' \<Longrightarrow> e = e' \<Longrightarrow> (\<not> c' \<Longrightarrow> k = k') \<Longrightarrow> throw_if c e k = throw_if c' e' k'"
  by (simp add: throw_if_def)

lemma rethrow_as_simps [simp, result_simps]:
  "rethrow_as h d (Inr x) = Inr x"
  by (simp add: rethrow_as_def)

lemma rethrow_as_Inr [result_simps]: "rethrow_as h d m = Inr y \<longleftrightarrow> m = Inr y"
  by (cases m) (auto simp: rethrow_as_def)

lemma is_ok_simps [simp]:
  "is_ok (Inr x)" "\<not> is_ok (Inl e)"
  by (simp_all add: is_ok_def)

lemma is_ok_iff: "is_ok m \<longleftrightarrow> (\<exists>x. m = Inr x)"
  by (cases m) auto

lemma throws_simps [simp]:
  "throws (Inl e) = catchable e" "\<not> throws (Inr x)"
  by (simp_all add: throws_def)

lemma undefined_behaviour_simps [simp]:
  "undefined_behaviour (Inl (Undefined_Behaviour s))"
  "\<not> undefined_behaviour (Inr x)"
  by (simp_all add: undefined_behaviour_def)

lemma undefined_behaviour_catchable [simp]:
  "catchable e \<Longrightarrow> \<not> undefined_behaviour (Inl e)"
  by (cases e) (simp_all add: undefined_behaviour_def)

text \<open>No undefined behaviour: the closure rules the memory-safety proofs use.\<close>

lemma andthen_safe:
  "\<not> undefined_behaviour m \<Longrightarrow> (\<And>x. m = Inr x \<Longrightarrow> \<not> undefined_behaviour (f x)) \<Longrightarrow>
   \<not> undefined_behaviour (andthen m f)"
  by (cases m) (auto simp: undefined_behaviour_def)

lemma throw_if_safe:
  "catchable e \<Longrightarrow> (\<not> c \<Longrightarrow> \<not> undefined_behaviour k) \<Longrightarrow> \<not> undefined_behaviour (throw_if c e k)"
  by (simp add: throw_if_def)

lemma rethrow_as_safe:
  "\<not> undefined_behaviour m \<Longrightarrow> (\<And>s. catchable (h s)) \<Longrightarrow> catchable d \<Longrightarrow>
   \<not> undefined_behaviour (rethrow_as h d m)"
  by (cases m) (auto simp: rethrow_as_def)

lemma andthen_undefined:
  "undefined_behaviour (andthen m f) \<longleftrightarrow>
     undefined_behaviour m \<or> (\<exists>x. m = Inr x \<and> undefined_behaviour (f x))"
  by (cases m) (auto simp: undefined_behaviour_def)

text \<open>A value or a C++ exception: neither undefined behaviour nor a lack of fuel.\<close>

definition clean :: "'a result \<Rightarrow> bool" where
  "clean m = (case m of Inl e \<Rightarrow> catchable e | Inr _ \<Rightarrow> True)"

lemma clean_simps [simp]: "clean (Inr x)" "clean (Inl e) = catchable e"
  by (simp_all add: clean_def)

lemma clean_andthen: "clean m \<Longrightarrow> (\<And>x. m = Inr x \<Longrightarrow> clean (f x)) \<Longrightarrow> clean (andthen m f)"
  by (cases m) simp_all

lemma clean_throw_if: "catchable e \<Longrightarrow> (\<not> c \<Longrightarrow> clean k) \<Longrightarrow> clean (throw_if c e k)"
  by (simp add: throw_if_def)

lemma clean_rethrow_as: "clean m \<Longrightarrow> (\<And>s. catchable (h s)) \<Longrightarrow> catchable d \<Longrightarrow> clean (rethrow_as h d m)"
  by (cases m) (simp_all add: rethrow_as_def)

lemma clean_safe: "clean m \<Longrightarrow> \<not> undefined_behaviour m"
  by (cases m) simp_all

lemma rethrow_as_runtime:
  "clean m \<Longrightarrow> rethrow_as Runtime_Error (Runtime_Error d) m = Inl e \<Longrightarrow> \<exists>s. e = Runtime_Error s"
  by (cases m) (auto simp: rethrow_as_def split: if_splits)

lemmas clean_intros = clean_andthen clean_throw_if clean_rethrow_as

section \<open>Running a fallible body over a list\<close>

text \<open>A range-based \<open>for\<close> loop with an accumulator; the first exception leaves the loop.\<close>

fun for_each :: "'a list \<Rightarrow> ('a \<Rightarrow> 's \<Rightarrow> 's result) \<Rightarrow> 's \<Rightarrow> 's result" where
  "for_each [] body s = Inr s"
| "for_each (x # xs) body s = andthen (body x s) (for_each xs body)"

lemma for_each_append:
  "for_each (xs @ ys) body s = andthen (for_each xs body s) (for_each ys body)"
proof (induction xs arbitrary: s)
  case Nil
  then show ?case by simp
next
  case (Cons x xs)
  then show ?case by (cases "body x s") simp_all
qed

lemma for_each_invariant:
  assumes "\<And>x s s'. x \<in> set xs \<Longrightarrow> P s \<Longrightarrow> body x s = Inr s' \<Longrightarrow> P s'"
    and "P s" and "for_each xs body s = Inr s'"
  shows "P s'"
  using assms
proof (induction xs arbitrary: s)
  case Nil
  then show ?case by simp
next
  case (Cons x xs)
  from Cons.prems(3) obtain t where t: "body x s = Inr t" "for_each xs body t = Inr s'"
    by (auto simp: andthen_Inr)
  have "P t" using Cons.prems(1)[OF _ Cons.prems(2) t(1)] by simp
  then show ?case using Cons.IH[OF _ _ t(2)] Cons.prems(1) by auto
qed

lemma clean_for_each:
  "(\<And>x s. x \<in> set xs \<Longrightarrow> clean (body x s)) \<Longrightarrow> clean (for_each xs body s)"
  by (induction xs arbitrary: s) (auto intro!: clean_andthen)

section \<open>Bytes and characters\<close>

definition byte_of_char :: "char \<Rightarrow> byte" where
  "byte_of_char c = of_nat (of_char c)"

definition char_of_byte :: "byte \<Rightarrow> char" where
  "char_of_byte b = char_of (unat b)"

text \<open>\<open>(uint8_t*)s.data()\<close> and \<open>std::string(v.begin(), v.end())\<close>.\<close>

definition bytes_of :: "string \<Rightarrow> bytes" where
  "bytes_of s = map byte_of_char s"

definition string_of :: "bytes \<Rightarrow> string" where
  "string_of v = map char_of_byte v"

lemma unat_byte_less [simp]: "unat (b :: byte) < 256"
  using unsigned_less[of b] by simp

lemma byte_of_char_char_of_byte [simp]: "byte_of_char (char_of_byte b) = b"
proof -
  have "unat b < 256" by simp
  then show ?thesis by (simp add: byte_of_char_def char_of_byte_def)
qed

lemma of_char_less_256: "(of_char c :: nat) < 256"
  by simp

lemma char_of_byte_byte_of_char [simp]: "char_of_byte (byte_of_char c) = c"
proof -
  have "unat (of_nat (of_char c) :: byte) = (of_char c :: nat)"
    by (simp add: unat_of_nat of_char_less_256)
  then show ?thesis by (simp add: byte_of_char_def char_of_byte_def)
qed

lemma string_of_bytes_of [simp]: "string_of (bytes_of s) = s"
  by (induction s) (simp_all add: string_of_def bytes_of_def)

lemma bytes_of_string_of [simp]: "bytes_of (string_of v) = v"
  by (induction v) (simp_all add: string_of_def bytes_of_def)

lemma length_bytes_of [simp]: "length (bytes_of s) = length s"
  by (simp add: bytes_of_def)

lemma length_string_of [simp]: "length (string_of v) = length v"
  by (simp add: string_of_def)

lemma string_of_inject [simp]: "string_of v = string_of w \<longleftrightarrow> v = w"
  by (metis bytes_of_string_of)

lemma bytes_of_inject [simp]: "bytes_of s = bytes_of t \<longleftrightarrow> s = t"
  by (metis string_of_bytes_of)

section \<open>Raw memory reads\<close>

text \<open>
  A pointer into a buffer is an offset from the buffer's start; a span is such an offset and a
  length.  \<open>peek\<close> reads \<open>n\<close> bytes through a pointer with no check, as a cast of
  \<open>evidence.data()\<close> to a struct pointer does; outside the buffer the result is undefined.
\<close>

definition peek :: "bytes \<Rightarrow> nat \<Rightarrow> nat \<Rightarrow> bytes result" where
  "peek data off n =
     (if off + n \<le> length data then Inr (take n (drop off data))
      else Inl (Undefined_Behaviour ''read out of bounds''))"

text \<open>The target is little-endian (x86-64).\<close>

fun le_nat :: "bytes \<Rightarrow> nat" where
  "le_nat [] = 0"
| "le_nat (b # bs) = unat b + 256 * le_nat bs"

fun le_bytes :: "nat \<Rightarrow> nat \<Rightarrow> bytes" where
  "le_bytes 0 v = []"
| "le_bytes (Suc n) v = of_nat (v mod 256) # le_bytes n (v div 256)"

definition peek_le :: "bytes \<Rightarrow> nat \<Rightarrow> nat \<Rightarrow> nat result" where
  "peek_le data off n = andthen (peek data off n) (\<lambda>bs. Inr (le_nat bs))"

lemma peek_in_bounds [simp]:
  "off + n \<le> length data \<Longrightarrow> peek data off n = Inr (take n (drop off data))"
  by (simp add: peek_def)

lemma peek_Inr: "peek data off n = Inr v \<longleftrightarrow> off + n \<le> length data \<and> v = take n (drop off data)"
  by (auto simp: peek_def)

lemma peek_undefined: "undefined_behaviour (peek data off n) \<longleftrightarrow> length data < off + n"
  by (auto simp: peek_def)

lemma peek_le_in_bounds [simp]:
  "off + n \<le> length data \<Longrightarrow> peek_le data off n = Inr (le_nat (take n (drop off data)))"
  by (simp add: peek_le_def)

lemma peek_le_Inr:
  "peek_le data off n = Inr v \<longleftrightarrow>
     off + n \<le> length data \<and> v = le_nat (take n (drop off data))"
  by (auto simp: peek_le_def peek_def)

lemma peek_le_undefined: "undefined_behaviour (peek_le data off n) \<longleftrightarrow> length data < off + n"
  by (auto simp: peek_le_def peek_def)

lemma length_le_bytes [simp]: "length (le_bytes n v) = n"
  by (induction n arbitrary: v) auto

lemma le_nat_bound: "le_nat bs < 256 ^ length bs"
proof (induction bs)
  case Nil
  then show ?case by simp
next
  case (Cons b bs)
  have "le_nat (b # bs) < 256 * (le_nat bs + 1)" by simp
  also have "\<dots> \<le> 256 * 256 ^ length bs"
    using Cons.IH by (intro mult_le_mono2) simp
  finally show ?case by simp
qed

lemma unat_of_nat_byte [simp]: "unat (of_nat (v mod 256) :: byte) = v mod 256"
  by (simp add: unat_of_nat)

lemma le_nat_le_bytes: "v < 256 ^ n \<Longrightarrow> le_nat (le_bytes n v) = v"
proof (induction n arbitrary: v)
  case 0
  then show ?case by simp
next
  case (Suc n)
  then have "v div 256 < 256 ^ n" by (simp add: less_mult_imp_div_less mult.commute)
  with Suc.IH show ?case by simp
qed

lemma le_bytes_le_nat: "le_bytes (length bs) (le_nat bs) = bs"
proof (induction bs)
  case Nil
  then show ?case by simp
next
  case (Cons b bs)
  have "unat b < 256" by simp
  then have "(unat b + 256 * le_nat bs) mod 256 = unat b"
    and "(unat b + 256 * le_nat bs) div 256 = le_nat bs" by simp_all
  with Cons show ?case by simp
qed

end
