(* ===== verification/Util.thy ===== *)
theory Util
  imports Prelude
begin

text \<open>
  \<open>include/ravl/util.h\<close>, first part: string search and replacement, indentation, conversions
  between strings and byte vectors, the pointer checks and the time point parser.
\<close>

unbundle bit_operations_syntax

section \<open>Searching in a \<open>std::string\<close>\<close>

definition occurs_at :: "string \<Rightarrow> string \<Rightarrow> nat \<Rightarrow> bool" where
  "occurs_at s w i \<longleftrightarrow> i + length w \<le> length s \<and> take (length w) (drop i s) = w"

text \<open>\<open>s.find(w, pos)\<close>; \<open>None\<close> is \<open>npos\<close>.\<close>

function str_find :: "string \<Rightarrow> string \<Rightarrow> nat \<Rightarrow> nat option" where
  "str_find s w pos =
     (if length s < pos + length w then None
      else if occurs_at s w pos then Some pos
      else str_find s w (Suc pos))"
  by pat_completeness auto
termination
  by (relation "measure (\<lambda>(s, w, pos). Suc (length s) - pos)") auto

declare str_find.simps [simp del]

text \<open>\<open>s.rfind(w)\<close>.\<close>

fun str_rfind_from :: "string \<Rightarrow> string \<Rightarrow> nat \<Rightarrow> nat option" where
  "str_rfind_from s w 0 = (if occurs_at s w 0 then Some 0 else None)"
| "str_rfind_from s w (Suc n) = (if occurs_at s w (Suc n) then Some (Suc n) else str_rfind_from s w n)"

definition str_rfind :: "string \<Rightarrow> string \<Rightarrow> nat option" where
  "str_rfind s w = (if length s < length w then None else str_rfind_from s w (length s - length w))"

lemma str_find_Some:
  "str_find s w pos = Some i \<Longrightarrow> pos \<le> i \<and> occurs_at s w i \<and> (\<forall>j. pos \<le> j \<and> j < i \<longrightarrow> \<not> occurs_at s w j)"
proof (induction s w pos rule: str_find.induct)
  case (1 s w pos)
  show ?case
  proof (cases "length s < pos + length w \<or> occurs_at s w pos")
    case True
    with "1.prems" show ?thesis by (auto simp: str_find.simps[of s w pos] split: if_splits)
  next
    case False
    with "1.prems" have "str_find s w (Suc pos) = Some i"
      by (simp add: str_find.simps[of s w pos])
    with "1.IH" False have *: "Suc pos \<le> i \<and> occurs_at s w i \<and>
        (\<forall>j. Suc pos \<le> j \<and> j < i \<longrightarrow> \<not> occurs_at s w j)" by auto
    with False show ?thesis by (metis Suc_leD le_neq_implies_less Suc_leI)
  qed
qed

lemma str_find_None: "str_find s w pos = None \<Longrightarrow> pos \<le> j \<Longrightarrow> \<not> occurs_at s w j"
proof (induction s w pos rule: str_find.induct)
  case (1 s w pos)
  show ?case
  proof (cases "length s < pos + length w")
    case True
    with "1.prems" show ?thesis by (auto simp: occurs_at_def)
  next
    case False
    with "1.prems" have n: "\<not> occurs_at s w pos" and "str_find s w (Suc pos) = None"
      by (auto simp: str_find.simps[of s w pos] split: if_splits)
    with "1.IH" False have "Suc pos \<le> j \<Longrightarrow> \<not> occurs_at s w j" by auto
    with n "1.prems" show ?thesis by (metis le_neq_implies_less Suc_leI)
  qed
qed

lemma str_find_eq:
  "pos \<le> i \<Longrightarrow> occurs_at s w i \<Longrightarrow> (\<And>j. pos \<le> j \<Longrightarrow> j < i \<Longrightarrow> \<not> occurs_at s w j) \<Longrightarrow>
   str_find s w pos = Some i"
proof (cases "str_find s w pos")
  case None
  assume "pos \<le> i" "occurs_at s w i"
  with None show ?thesis using str_find_None by blast
next
  case (Some k)
  assume i: "pos \<le> i" "occurs_at s w i" and least: "\<And>j. pos \<le> j \<Longrightarrow> j < i \<Longrightarrow> \<not> occurs_at s w j"
  have "\<not> k < i" and "\<not> i < k" using str_find_Some[OF Some] i least by blast+
  with Some show ?thesis by simp
qed

lemma occurs_at_Cons_Suc: "occurs_at (c # s) w (Suc i) \<longleftrightarrow> occurs_at s w i"
  by (simp add: occurs_at_def)

lemma occurs_at_append: "occurs_at (p @ s) w (length p + i) \<longleftrightarrow> occurs_at s w i"
  by (simp add: occurs_at_def)

lemma str_find_append:
  "str_find (p @ s) w (length p + k) = map_option (\<lambda>i. length p + i) (str_find s w k)"
proof (induction s w k rule: str_find.induct)
  case (1 s w k)
  then show ?case
    by (simp add: str_find.simps[of "p @ s" w "length p + k"] str_find.simps[of s w k]
        occurs_at_append)
qed

lemma str_find_Cons:
  "w \<noteq> [] \<Longrightarrow> str_find (c # s) w 0 =
     (if occurs_at (c # s) w 0 then Some 0 else map_option Suc (str_find s w 0))"
  using str_find_append[of "[c]" s w 0]
  by (auto simp: str_find.simps[of "c # s" w 0] str_find.simps[of s w 0] occurs_at_def split: if_splits)

lemma str_rfind_from_Some:
  "str_rfind_from s w n = Some i \<Longrightarrow>
     i \<le> n \<and> occurs_at s w i \<and> (\<forall>j. i < j \<and> j \<le> n \<longrightarrow> \<not> occurs_at s w j)"
  by (induction n) (auto split: if_splits simp: le_Suc_eq)

lemma str_rfind_Some:
  "str_rfind s w = Some i \<Longrightarrow> occurs_at s w i \<and> (\<forall>j > i. \<not> occurs_at s w j)"
proof -
  assume *: "str_rfind s w = Some i"
  then have "str_rfind_from s w (length s - length w) = Some i" and "length w \<le> length s"
    by (auto simp: str_rfind_def split: if_splits)
  from str_rfind_from_Some[OF this(1)] this(2) show ?thesis
    by (auto simp: occurs_at_def)
qed

section \<open>\<open>replace_all\<close> and \<open>indentate\<close>\<close>

text \<open>
  The loop runs until \<open>find\<close> fails; with an empty pattern it never does, so not returning is the
  value \<open>None\<close>.
\<close>

partial_function (option) replace_loop ::
  "string \<Rightarrow> string \<Rightarrow> string \<Rightarrow> nat \<Rightarrow> nat \<Rightarrow> (nat \<times> string) option" where
  "replace_loop inout what with pos count =
     (case str_find inout what pos of
        None \<Rightarrow> Some (count, inout)
      | Some p \<Rightarrow> replace_loop (take p inout @ with @ drop (p + length what) inout)
                   what with (p + length with) (Suc count))"

definition replace_all :: "string \<Rightarrow> string \<Rightarrow> string \<Rightarrow> (nat \<times> string) option" where
  "replace_all inout what with = replace_loop inout what with 0 0"

text \<open>The specification: leftmost, non-overlapping replacement, by recursion on the text.\<close>

function replace_spec :: "string \<Rightarrow> string \<Rightarrow> string \<Rightarrow> nat \<times> string" where
  "replace_spec what with s =
     (if what = [] \<or> s = [] then (0, s)
      else if occurs_at s what 0 then
        (let (n, r) = replace_spec what with (drop (length what) s) in (Suc n, with @ r))
      else (let (n, r) = replace_spec what with (tl s) in (n, hd s # r)))"
  by pat_completeness auto
termination
  by (relation "measure (\<lambda>(what, with, s). length s)") (auto simp: occurs_at_def)

declare replace_spec.simps [simp del]

lemma replace_spec_find:
  assumes "what \<noteq> []"
  shows "replace_spec what w s =
    (case str_find s what 0 of None \<Rightarrow> (0, s)
     | Some p \<Rightarrow> (let (n, r) = replace_spec what w (drop (p + length what) s)
                 in (Suc n, take p s @ w @ r)))"
proof (induction s)
  case Nil
  with assms show ?case
    by (simp add: replace_spec.simps[of what w "[]"] str_find.simps[of "[]" what 0])
next
  case (Cons c s)
  show ?case
  proof (cases "occurs_at (c # s) what 0")
    case True
    with assms show ?thesis
      by (simp add: replace_spec.simps[of what w "c # s"] str_find_Cons)
  next
    case False
    with assms Cons show ?thesis
      by (simp add: replace_spec.simps[of what w "c # s"] str_find_Cons split: option.split)
        (auto simp: split_beta)
  qed
qed

lemma replace_loop_spec:
  assumes "what \<noteq> []"
  shows "replace_loop (p @ s) what w (length p) k =
           Some (k + fst (replace_spec what w s), p @ snd (replace_spec what w s))"
proof (induction "length s" arbitrary: s p k rule: less_induct)
  case less
  show ?case
  proof (cases "str_find s what 0")
    case None
    with assms str_find_append[of p s what 0] show ?thesis
      by (simp add: replace_loop.simps[of "p @ s"] replace_spec_find[of what w s])
  next
    case (Some i)
    have i: "i + length what \<le> length s" using str_find_Some[OF Some] by (simp add: occurs_at_def)
    let ?s' = "drop (i + length what) s"
    have "replace_loop (p @ s) what w (length p) k =
          replace_loop ((p @ take i s @ w) @ ?s') what w (length (p @ take i s @ w)) (Suc k)"
      using Some str_find_append[of p s what 0] i min_absorb2[of i "length s"]
      by (simp add: replace_loop.simps[of "p @ s"] add.assoc)
    also have "\<dots> = Some (Suc k + fst (replace_spec what w ?s'),
          (p @ take i s @ w) @ snd (replace_spec what w ?s'))"
      by (rule less) (use i assms in \<open>cases what; simp\<close>)
    finally show ?thesis
      using assms Some by (simp add: replace_spec_find[of what w s] split_beta)
  qed
qed

lemma replace_loop_returns:
  assumes "replace_loop s what w pos k = Some r"
  shows "what \<noteq> [] \<or> length s < pos"
proof (rule replace_loop.raw_induct
    [where P = "\<lambda>s what w pos k r. what \<noteq> [] \<or> length s < pos", OF _ assms])
  fix f s what w pos k r
  assume IH: "\<And>s what w pos k r. f s what w pos k = Some r \<Longrightarrow> what \<noteq> [] \<or> length s < pos"
    and eq: "(case str_find s what pos of None \<Rightarrow> Some (k, s)
       | Some p \<Rightarrow> f (take p s @ w @ drop (p + length what) s) what w (p + length w) (Suc k)) = Some r"
  show "what \<noteq> [] \<or> length s < pos"
  proof (rule ccontr)
    assume "\<not> ?thesis"
    then have e: "what = []" "pos \<le> length s" by auto
    then have "str_find s what pos = Some pos"
      by (simp add: str_find.simps[of s "[]" pos] occurs_at_def)
    with eq IH e show False by fastforce
  qed
qed

definition indentate :: "string \<Rightarrow> nat \<Rightarrow> string option" where
  "indentate s indent =
     (let ins = replicate indent CHR '' ''
      in map_option (\<lambda>(_, r). ins @ r) (replace_all s [CHR 0x0A] (CHR 0x0A # ins)))"

definition indentate_inplace :: "string \<Rightarrow> nat \<Rightarrow> string option" where
  "indentate_inplace inout indent =
     (let ins = replicate indent CHR '' ''
      in map_option (\<lambda>(_, r). ins @ r) (replace_all inout [CHR 0x0A] (CHR 0x0A # ins)))"

definition vec2str :: "bytes \<Rightarrow> nat \<Rightarrow> string option" where
  "vec2str vec indent =
     (let r = string_of vec in if indent > 0 then indentate_inplace r indent else Some r)"

definition str2vec :: "string \<Rightarrow> bytes" where
  "str2vec s = bytes_of s"

text \<open>What indenting is meant to do, character by character.\<close>

fun indent_chars :: "string \<Rightarrow> string \<Rightarrow> string" where
  "indent_chars ins [] = []"
| "indent_chars ins (c # s) = (if c = CHR 0x0A then CHR 0x0A # ins @ indent_chars ins s
                               else c # indent_chars ins s)"

lemma replace_spec_newline: "snd (replace_spec [CHR 0x0A] (CHR 0x0A # ins) s) = indent_chars ins s"
proof (induction s)
  case Nil
  then show ?case by (simp add: replace_spec.simps)
next
  case (Cons c s)
  then show ?case
    by (subst replace_spec.simps) (auto simp: occurs_at_def split_beta)
qed

lemma replace_all_spec: "what \<noteq> [] \<Longrightarrow> replace_all s what w = Some (replace_spec what w s)"
  using replace_loop_spec[of what "[]" s w 0] by (simp add: replace_all_def)

lemma indentate_eq:
  "indentate s n = Some (replicate n CHR '' '' @ indent_chars (replicate n CHR '' '') s)"
  by (simp add: indentate_def replace_all_spec Let_def split_beta replace_spec_newline)

section \<open>Pointer checks\<close>

text \<open>
  A span into a buffer is its offset and its size.  \<open>verify_within\<close> compares the first and the last
  byte of the span with the buffer's range; pointers are integers here, because the last byte of an
  empty span lies before its first.
\<close>

type_synonym span = "nat \<times> nat"

definition verify_within_ptr :: "int \<Rightarrow> bytes \<Rightarrow> unit result" where
  "verify_within_ptr p vec =
     throw_if (\<not> (0 \<le> p \<and> p < int (length vec))) (Runtime_Error ''invalid pointer'') (Inr ())"

definition verify_within :: "span \<Rightarrow> bytes \<Rightarrow> unit result" where
  "verify_within sp vec =
     andthen (verify_within_ptr (int (fst sp)) vec) (\<lambda>_.
       verify_within_ptr (int (fst sp) + int (snd sp) - 1) vec)"

definition span_bytes :: "span \<Rightarrow> bytes \<Rightarrow> bytes" where
  "span_bytes sp vec = take (snd sp) (drop (fst sp) vec)"

lemma verify_within_Inr:
  "verify_within (off, n) vec = Inr u \<longleftrightarrow>
     off < length vec \<and> off + n \<le> length vec \<and> (0 < off \<or> 0 < n)"
  by (auto simp: verify_within_def verify_within_ptr_def result_simps)

lemma verify_within_if:
  "verify_within (off, n) vec =
     (if off < length vec \<and> off + n \<le> length vec \<and> (0 < off \<or> 0 < n) then Inr ()
      else Inl (Runtime_Error ''invalid pointer''))"
  by (auto simp: verify_within_def verify_within_ptr_def throw_if_def)

lemma verify_within_safe [simp]: "\<not> undefined_behaviour (verify_within sp vec)"
  by (simp add: verify_within_def verify_within_ptr_def andthen_safe throw_if_safe)

lemma verify_within_Inl: "verify_within sp vec = Inl e \<Longrightarrow> e = Runtime_Error ''invalid pointer''"
  by (auto simp: verify_within_def verify_within_ptr_def result_simps)

definition is_all_zero :: "bytes \<Rightarrow> bool" where
  "is_all_zero v = list_all (\<lambda>b. b = 0) v"

text \<open>
  \<open>copy\<close> from any range to an array: the rest of a larger array stays, a larger range is written past
  the array.
\<close>

definition copy_array :: "bytes \<Rightarrow> bytes \<Rightarrow> bytes result" where
  "copy_array to src = throw_if (length to < length src) (Undefined_Behaviour ''write outside a buffer'')
     (Inr (src @ drop (length src) to))"

lemma copy_array_same: "length to = length src \<Longrightarrow> copy_array to src = Inr src"
  by (simp add: copy_array_def)

text \<open>What \<open>log\<close> writes to the standard output.\<close>

definition log_line :: "string \<Rightarrow> nat \<Rightarrow> string" where
  "log_line msg indent = replicate indent (CHR '' '') @ msg @ [CHR 0x0A]"

section \<open>Time points\<close>

text \<open>
  \<open>strptime\<close> is the C library's; the model takes it as a function that returns the broken-down time as
  \<open>timegm\<close> seconds with its \<open>tm_gmtoff\<close>, and the unparsed rest.  \<open>c_str()\<close> ends at the first NUL.
\<close>

type_synonym strptime = "string \<Rightarrow> string \<Rightarrow> (int \<times> int \<times> string) option"

definition c_str :: "string \<Rightarrow> string" where
  "c_str s = takeWhile (\<lambda>c. c \<noteq> CHR 0x00) s"

definition parse_time_point :: "strptime \<Rightarrow> string \<Rightarrow> string \<Rightarrow> int result" where
  "parse_time_point strptime s format =
     (case strptime (c_str s) (c_str format) of
        None \<Rightarrow> Inl (Runtime_Error ''time point parsing failure'')
      | Some (seconds, gmtoff, rest) \<Rightarrow>
          throw_if (rest \<noteq> []) (Runtime_Error ''time point parsing failure'')
            (Inr (seconds - gmtoff)))"

end
