(* ===== verification/Codec.thy ===== *)
theory Codec
  imports Util
begin

text \<open>
  \<open>include/ravl/util.h\<close>, second part: the bounds-checked big-endian readers \<open>get\<close> and \<open>get_n\<close> and
  the writer \<open>put\<close>, with the contract they share (a writer and a positional reader that undo each
  other) as the locale \<open>codec\<close>, interpreted on every field format of the collateral encoding.
\<close>

unbundle bit_operations_syntax

section \<open>Bounds-checked readers and big-endian integers\<close>

text \<open>
  \<open>get<T>\<close>: \<open>r = r << 8 | data.at(pos + i)\<close>.  The position is a \<open>size_t\<close>; \<open>sizeof(T)\<close> is at most 8.
\<close>

definition be_word :: "bytes \<Rightarrow> 'w::len word" where
  "be_word bs = foldl (\<lambda>r b. push_bit 8 r OR ucast b) 0 bs"

definition get_word :: "bytes \<Rightarrow> nat \<Rightarrow> ('w::len word \<times> nat) result" where
  "get_word data pos =
     (let sz = LENGTH('w) div 8
      in throw_if (length data < pos + sz) (Runtime_Error ''not enough data'')
           (Inr (be_word (take sz (drop pos data)), pos + sz)))"

text \<open>
  \<open>get_n\<close>: \<open>pos + n\<close> is computed modulo \<open>2^64\<close> and can wrap for a length taken from the input;
  the vector of \<open>n\<close> elements is constructed before any element is read.
\<close>

definition size_max :: nat where "size_max = 2 ^ 64"
definition vector_max_size :: nat where "vector_max_size = 2 ^ 63 - 1"

definition get_n :: "bytes \<Rightarrow> nat \<Rightarrow> nat \<Rightarrow> (bytes \<times> nat) result" where
  "get_n data n pos =
     throw_if (length data < (pos + n) mod size_max) (Runtime_Error ''not enough data'')
     (throw_if (vector_max_size < n)
        (Logic_Error ''cannot create std::vector larger than max_size()'')
     (throw_if (length data < pos + n) (Out_Of_Range ''vector::_M_range_check'')
        (Inr (take n (drop pos data), pos + n))))"

text \<open>\<open>put\<close> appends \<open>(t >> (8 * (sizeof(T) - i - 1))) & 0xFF\<close> for each \<open>i\<close>.\<close>

definition put_word :: "'w::len word \<Rightarrow> bytes" where
  "put_word t = (let sz = LENGTH('w) div 8
     in map (\<lambda>i. ucast (drop_bit (8 * (sz - i - 1)) t AND 0xFF)) [0..<sz])"

definition put :: "'w::len word \<Rightarrow> bytes \<Rightarrow> bytes" where
  "put t data = data @ put_word t"

lemma length_put_word [simp]: "length (put_word (t :: 'w::len word)) = LENGTH('w) div 8"
  by (simp add: put_word_def Let_def)

lemma be_word_snoc: "be_word (bs @ [b]) = push_bit 8 (be_word bs) OR ucast b"
  by (simp add: be_word_def)

lemma bit_be_word:
  "bit (be_word bs :: 'w::len word) n \<longleftrightarrow>
     n < LENGTH('w) \<and> n < 8 * length bs \<and> bit (bs ! (length bs - 1 - n div 8)) (n mod 8)"
proof (induction bs arbitrary: n rule: rev_induct)
  case Nil
  then show ?case by (simp add: be_word_def)
next
  case (snoc b bs)
  show ?case
  proof (cases "n < 8")
    case True
    then show ?thesis
      by (auto simp: be_word_snoc bit_or_iff bit_push_bit_iff bit_ucast_iff nth_append
          dest: bit_imp_le_length)
  next
    case False
    then have n: "8 \<le> n" by simp
    have b: "\<not> bit b n" using n bit_imp_le_length[of b n] by auto
    have i: "length bs - n div 8 = length bs - 1 - (n - 8) div 8" and m: "(n - 8) mod 8 = n mod 8"
      using n by (simp_all add: le_div_geq le_mod_geq)
    have l: "(bs @ [b]) ! (length bs - n div 8) = bs ! (length bs - 1 - (n - 8) div 8)"
      if "n < 8 * Suc (length bs)"
    proof -
      have "1 \<le> n div 8" using n by simp
      moreover have "n div 8 \<le> length bs" using that by simp
      ultimately have "length bs - n div 8 < length bs" by simp
      then show ?thesis by (simp only: nth_append if_True i)
    qed
    have "bit (be_word (bs @ [b]) :: 'w word) n \<longleftrightarrow> n < LENGTH('w) \<and> bit (be_word bs :: 'w word) (n - 8)"
      using n b by (simp add: be_word_snoc bit_or_iff bit_push_bit_iff bit_ucast_iff)
    also have "\<dots> \<longleftrightarrow> n < LENGTH('w) \<and> n < 8 * Suc (length bs)
        \<and> bit (bs ! (length bs - 1 - (n - 8) div 8)) (n mod 8)"
    proof -
      have "n - 8 < 8 * length bs \<longleftrightarrow> n < 8 * Suc (length bs)" using n by arith
      moreover have "n < LENGTH('w) \<Longrightarrow> n - 8 < LENGTH('w)" by linarith
      ultimately show ?thesis unfolding snoc.IH[of "n - 8"] m by blast
    qed
    also have "\<dots> \<longleftrightarrow> n < LENGTH('w) \<and> n < 8 * Suc (length bs)
        \<and> bit ((bs @ [b]) ! (length bs - n div 8)) (n mod 8)"
      using l by metis
    finally show ?thesis by (simp only: length_append_singleton diff_Suc_1)
  qed
qed

lemma be_word_put_word:
  assumes "8 dvd LENGTH('w)"
  shows "be_word (put_word (t :: 'w::len word)) = t"
proof (rule bit_word_eqI)
  fix n assume n: "n < LENGTH('w)"
  obtain sz where len: "LENGTH('w) = 8 * sz" using assms by (auto elim: dvdE)
  then have sz: "LENGTH('w) div 8 = sz" by simp
  have d: "n div 8 < sz" using n len by (simp add: less_mult_imp_div_less mult.commute)
  then have i: "sz - Suc (sz - Suc (n div 8)) = n div 8" by simp
  have m: "8 * (n div 8) + n mod 8 = n" by simp
  have "(255 :: int) = mask 8" by (simp add: mask_eq_exp_minus_1)
  then have ff: "bit (255 :: int) k \<longleftrightarrow> k < 8" for k
    by (metis bit_mask_iff possible_bit_int)
  have "bit (be_word (put_word t) :: 'w word) n \<longleftrightarrow> bit (put_word t ! (sz - 1 - n div 8)) (n mod 8)"
    using n len by (simp add: bit_be_word)
  also have "\<dots> \<longleftrightarrow> bit t n"
    using d n m len le_less_trans[OF mod_less_eq_dividend n]
    by (simp add: put_word_def Let_def i bit_ucast_iff bit_and_iff bit_drop_bit_eq ff)
  finally show "bit (be_word (put_word t) :: 'w word) n \<longleftrightarrow> bit t n" .
qed

section \<open>The reader/writer contract\<close>

text \<open>
  \<open>enc\<close> writes a value, \<open>dec\<close> reads one at a position and returns the position after it.  The buffers
  of a 64-bit process are shorter than \<open>2^63\<close> bytes, so that positions do not wrap.
\<close>

locale codec =
  fixes enc :: "'a \<Rightarrow> bytes"
    and dec :: "bytes \<Rightarrow> nat \<Rightarrow> ('a \<times> nat) result"
    and wf :: "'a \<Rightarrow> bool"
  assumes dec_enc: "wf x \<Longrightarrow> length (p @ enc x @ q) \<le> vector_max_size \<Longrightarrow>
      dec (p @ enc x @ q) (length p) = Inr (x, length p + length (enc x))"
    and dec_bounds: "dec data pos = Inr (x, pos') \<Longrightarrow> length data \<le> vector_max_size \<Longrightarrow>
      pos \<le> length data \<Longrightarrow> pos \<le> pos' \<and> pos' \<le> length data"
    and dec_safe: "\<not> undefined_behaviour (dec data pos)"
begin

lemma dec_step:
  assumes "wf x" and "data = p @ enc x @ q" and "length data \<le> vector_max_size"
  shows "andthen (dec data (length p)) f = f (x, length (p @ enc x))"
  using dec_enc[of x p q] assms by simp

lemma dec_prefix_free:
  assumes "wf x" "wf y" and "enc x @ q = enc y @ r" and "length (enc x @ q) \<le> vector_max_size"
  shows "x = y" and "q = r"
proof -
  have x: "dec (enc x @ q) 0 = Inr (x, length (enc x))"
    using dec_enc[OF assms(1), of "[]" q] assms(4) by simp
  have y: "dec (enc y @ r) 0 = Inr (y, length (enc y))"
    using dec_enc[OF assms(2), of "[]" r] assms(3,4) by simp
  from x y assms(3) show "x = y" by simp
  with assms(3) show "q = r" by simp
qed

end

lemma get_word_put_word:
  assumes "8 dvd LENGTH('w)"
  shows "get_word (p @ put_word (x :: 'w::len word) @ q) (length p)
         = Inr (x, length p + length (put_word x))"
  using be_word_put_word[OF assms, of x] by (simp add: get_word_def Let_def)

lemma get_word_Inr:
  "get_word data pos = Inr (x :: 'w::len word, pos') \<longleftrightarrow>
     pos + LENGTH('w) div 8 \<le> length data \<and> pos' = pos + LENGTH('w) div 8
     \<and> x = be_word (take (LENGTH('w) div 8) (drop pos data))"
  by (auto simp: get_word_def Let_def result_simps)

lemma get_word_safe [simp]: "\<not> undefined_behaviour (get_word data pos)"
  by (simp add: get_word_def Let_def throw_if_safe)

interpretation be16: codec "put_word :: u16 \<Rightarrow> bytes" get_word "\<lambda>_. True"
  by unfold_locales (auto simp: get_word_put_word get_word_Inr simp del: length_put_word)

interpretation be32: codec "put_word :: u32 \<Rightarrow> bytes" get_word "\<lambda>_. True"
  by unfold_locales (auto simp: get_word_put_word get_word_Inr simp del: length_put_word)

interpretation be64: codec "put_word :: u64 \<Rightarrow> bytes" get_word "\<lambda>_. True"
  by unfold_locales (auto simp: get_word_put_word get_word_Inr simp del: length_put_word)

section \<open>\<open>get_n\<close> never reads past the end\<close>

lemma get_n_Inr:
  assumes "length data \<le> vector_max_size"
  shows "get_n data n pos = Inr (v, pos') \<longleftrightarrow>
     pos + n \<le> length data \<and> pos' = pos + n \<and> v = take n (drop pos data)"
proof -
  have "pos + n \<le> length data \<Longrightarrow> (pos + n) mod size_max = pos + n"
    using assms by (simp add: vector_max_size_def size_max_def)
  with assms show ?thesis
    by (auto simp: get_n_def result_simps)
qed

lemma get_n_safe [simp]: "\<not> undefined_behaviour (get_n data n pos)"
  by (simp add: get_n_def throw_if_safe)

text \<open>
  The wrapped sum lets a huge length through the first check; the allocation then refuses it, so that
  \<open>at\<close> is never reached out of range.
\<close>

lemma get_n_no_out_of_range:
  assumes "length data \<le> vector_max_size" and "pos \<le> length data"
  shows "get_n data n pos \<noteq> Inl (Out_Of_Range s)"
proof -
  have "pos + n < size_max" if "n \<le> vector_max_size"
    using that assms by (simp add: vector_max_size_def size_max_def)
  then show ?thesis by (auto simp: get_n_def result_simps)
qed

text \<open>\<open>n = get<uint64_t>(data, pos); t = get_n(data, n, pos);\<close> and its writer.\<close>

definition get_blob :: "bytes \<Rightarrow> nat \<Rightarrow> (bytes \<times> nat) result" where
  "get_blob data pos =
     andthen (get_word data pos) (\<lambda>(n :: u64, pos). get_n data (unat n) pos)"

definition put_blob :: "bytes \<Rightarrow> bytes" where
  "put_blob s = put_word (of_nat (length s) :: u64) @ s"

lemma get_blob_put_blob:
  assumes "length (p @ put_blob x @ q) \<le> vector_max_size"
  shows "get_blob (p @ put_blob x @ q) (length p) = Inr (x, length p + length (put_blob x))"
proof -
  let ?n = "of_nat (length x) :: u64"
  have n: "unat ?n = length x"
    using assms by (simp add: unat_of_nat vector_max_size_def put_blob_def)
  have "get_word (p @ put_word ?n @ (x @ q)) (length p) = Inr (?n, length (p @ put_word ?n))"
    using get_word_put_word[of p ?n "x @ q"] by simp
  moreover have "get_n ((p @ put_word ?n) @ x @ q) (length x) (length (p @ put_word ?n))
        = Inr (x, length (p @ put_word ?n) + length x)"
    by (subst get_n_Inr) (use assms in \<open>simp_all add: put_blob_def\<close>)
  ultimately show ?thesis by (simp add: get_blob_def put_blob_def n)
qed

lemma get_blob_Inr:
  assumes "length data \<le> vector_max_size" and "get_blob data pos = Inr (v, pos')"
  shows "pos' = pos + 8 + length v" and "pos' \<le> length data" and "v = take (length v) (drop (pos + 8) data)"
  using assms by (auto simp: get_blob_def result_simps get_word_Inr get_n_Inr)

interpretation blob: codec put_blob get_blob "\<lambda>_. True"
proof
  fix data pos
  show "\<not> undefined_behaviour (get_blob data pos)"
    unfolding get_blob_def by (rule andthen_safe) (auto split: prod.split)
qed (auto simp: get_blob_put_blob dest: get_blob_Inr(1,2))

end
