(* ===== verification/Hex.thy ===== *)
theory Hex
  imports Codec
begin

text \<open>
  \<open>include/ravl/util.h\<close>, third part: hexadecimal text (\<open>to_hex\<close>, the three decoders built on
  \<open>sscanf("%02hhx")\<close>) and URL decoding, with the round trips that relate them and the bound on the
  decoder's output buffer.
\<close>

unbundle bit_operations_syntax

section \<open>The C library's character functions and \<open>sscanf("%02hhx")\<close>\<close>

text \<open>The \<open>C\<close> locale; a \<open>char\<close> is its byte.\<close>

definition isspace :: "char \<Rightarrow> bool" where
  "isspace c \<longleftrightarrow> c = CHR '' '' \<or> (of_char c :: nat) \<in> {9..13}"

definition tolower :: "char \<Rightarrow> char" where
  "tolower c = (if (of_char c :: nat) \<in> {65..90} then char_of ((of_char c :: nat) + 32) else c)"

definition isdigit :: "char \<Rightarrow> bool" where
  "isdigit c \<longleftrightarrow> (of_char c :: nat) \<in> {48..57}"

definition xdigit :: "char \<Rightarrow> nat option" where
  "xdigit c = (let n = (of_char c :: nat) in
     if n \<in> {48..57} then Some (n - 48)
     else if n \<in> {97..102} then Some (n - 87)
     else if n \<in> {65..70} then Some (n - 55)
     else None)"

text \<open>
  \<open>sscanf(s, "%02hhx", &t)\<close>: white space is skipped and not counted, then at most two characters form
  the longest prefix of an optionally signed, optionally \<open>0x\<close>-prefixed hexadecimal number; \<open>Some t\<close>
  is the return value 1.  A sign or the first two characters of \<open>0x\<close> alone are a matching failure.
\<close>

fun scan_digits :: "string \<Rightarrow> nat option" where
  "scan_digits [] = None"
| "scan_digits [c] = xdigit c"
| "scan_digits (c # d # s) =
     (case xdigit c of None \<Rightarrow> None
      | Some h \<Rightarrow> (case xdigit d of
            Some l \<Rightarrow> Some (16 * h + l)
          | None \<Rightarrow> (if h = 0 \<and> tolower d = CHR ''x'' then None else Some h)))"

definition sscanf_02hhx :: "string \<Rightarrow> byte option" where
  "sscanf_02hhx s =
     (case dropWhile isspace (c_str s) of
        [] \<Rightarrow> None
      | c # r \<Rightarrow>
          if c = CHR ''+'' then map_option of_nat (scan_digits (take 1 r))
          else if c = CHR ''-'' then map_option (\<lambda>n. - of_nat n) (scan_digits (take 1 r))
          else map_option of_nat (scan_digits (c # r)))"

section \<open>The hexadecimal decoders\<close>

definition odd_digits :: failure where
  "odd_digits = Runtime_Error ''odd number of hex digits''"

text \<open>\<open>from_hex\<close> advances by two characters; a scan failure returns the empty vector.\<close>

fun from_hex_loop :: "string \<Rightarrow> bytes \<Rightarrow> bytes" where
  "from_hex_loop (a # b # s) r =
     (case sscanf_02hhx (a # b # s) of None \<Rightarrow> [] | Some t \<Rightarrow> from_hex_loop s (r @ [t]))"
| "from_hex_loop s r = r"

definition from_hex :: "string \<Rightarrow> bytes result" where
  "from_hex s = throw_if (odd (length s)) odd_digits (Inr (from_hex_loop s []))"

text \<open>\<open>vec_from_hex\<close> counts bytes and scans at \<open>s.c_str() + 2 * i\<close>.\<close>

function vec_from_hex_loop :: "string \<Rightarrow> nat \<Rightarrow> bytes \<Rightarrow> bytes" where
  "vec_from_hex_loop s i r =
     (if i < length s div 2 then
        (case sscanf_02hhx (drop (2 * i) s) of
           None \<Rightarrow> []
         | Some t \<Rightarrow> vec_from_hex_loop s (Suc i) (r @ [t]))
      else r)"
  by pat_completeness auto
termination
  by (relation "measure (\<lambda>(s, i, r). length s div 2 - i)") auto

declare vec_from_hex_loop.simps [simp del]

definition vec_from_hex :: "string \<Rightarrow> bytes result" where
  "vec_from_hex s = throw_if (odd (length s)) odd_digits (Inr (vec_from_hex_loop s 0 []))"

text \<open>\<open>from_hex_t<T>\<close>; a scan failure returns \<open>T{}\<close>, which is zero.\<close>

function from_hex_t_loop :: "string \<Rightarrow> bool \<Rightarrow> nat \<Rightarrow> nat \<Rightarrow> 'w::len word \<Rightarrow> 'w word" where
  "from_hex_t_loop s little_endian sz i r =
     (if i < sz then
        (case sscanf_02hhx (drop (2 * i) s) of
           None \<Rightarrow> 0
         | Some t \<Rightarrow> from_hex_t_loop s little_endian sz (Suc i)
             (if little_endian then r OR ucast (push_bit (8 * i) (ucast t :: u64))
              else push_bit 8 r OR ucast t))
      else r)"
  by pat_completeness auto
termination
  by (relation "measure (\<lambda>(s, le, sz, i, r). sz - i)") auto

declare from_hex_t_loop.simps [simp del]

definition from_hex_t :: "string \<Rightarrow> bool \<Rightarrow> ('w::len word) result" where
  "from_hex_t s little_endian =
     (let sz = LENGTH('w) div 8
      in throw_if (odd (length s)) odd_digits
        (throw_if (2 * sz \<noteq> length s) (Runtime_Error ''hex string incomplete'')
          (Inr (from_hex_t_loop s little_endian sz 0 0))))"

section \<open>\<open>to_hex\<close>\<close>

definition hex_digit :: "nat \<Rightarrow> char" where
  "hex_digit n = (if n < 10 then char_of (48 + n) else char_of (87 + n))"

text \<open>\<open>snprintf(buf, sizeof(buf), "%02x", b)\<close>.\<close>

definition hex_byte :: "byte \<Rightarrow> string" where
  "hex_byte b = [hex_digit (unat b div 16), hex_digit (unat b mod 16)]"

definition to_hex :: "bytes \<Rightarrow> string" where
  "to_hex v = concat (map hex_byte v)"

section \<open>URL decoding\<close>

text \<open>\<open>char from_hex(char ch)\<close>, in the arithmetic of \<open>char\<close>.\<close>

definition from_hex_char :: "char \<Rightarrow> byte" where
  "from_hex_char ch = (if isdigit ch then byte_of_char ch - 48 else byte_of_char (tolower ch) - 97 + 10)"

text \<open>
  \<open>url_decode(str, len)\<close> walks the C string up to its NUL; \<open>pstr[1] && pstr[2]\<close> fails at the end of
  the string, and an incomplete escape is dropped.
\<close>

fun url_decode_loop :: "string \<Rightarrow> string" where
  "url_decode_loop [] = []"
| "url_decode_loop (c # s) =
     (if c = CHR ''%'' then
        (case s of
           a # b # s' \<Rightarrow>
             char_of_byte (push_bit 4 (from_hex_char a) OR from_hex_char b) # url_decode_loop s'
         | _ \<Rightarrow> url_decode_loop s)
      else if c = CHR ''+'' then CHR '' '' # url_decode_loop s
      else c # url_decode_loop s)"

definition url_decode_c :: "string \<Rightarrow> string" where
  "url_decode_c str = url_decode_loop (c_str str)"

text \<open>\<open>url_decode(const std::string&)\<close> of \<open>http_client.h\<close> measures the decoded text with \<open>strlen\<close>.\<close>

definition url_decode :: "string \<Rightarrow> bytes" where
  "url_decode s = bytes_of (c_str (url_decode_c s))"


lemma of_char_eq_iff_char: "(of_char c :: nat) = of_char d \<longleftrightarrow> c = d"
  by simp

lemma of_char_hex_digit: "n < 16 \<Longrightarrow> (of_char (hex_digit n) :: nat) = (if n < 10 then 48 + n else 87 + n)"
  by (simp add: hex_digit_def)

lemma xdigit_hex_digit [simp]: "n < 16 \<Longrightarrow> xdigit (hex_digit n) = Some n"
  by (simp add: xdigit_def Let_def of_char_hex_digit)

lemma char_neq_of_char: "(of_char c :: nat) \<noteq> of_char d \<Longrightarrow> c \<noteq> d"
  by auto

lemma tolower_hex_digit: "n < 16 \<Longrightarrow> tolower (hex_digit n) = hex_digit n"
  by (simp add: tolower_def of_char_hex_digit)

lemma hex_digit_plain:
  assumes "n < 16"
  shows "\<not> isspace (hex_digit n)" "hex_digit n \<noteq> CHR ''+''" "hex_digit n \<noteq> CHR ''-''"
    "hex_digit n \<noteq> CHR 0x00" "hex_digit n \<noteq> CHR ''x''"
  using assms
  by (auto simp: isspace_def of_char_hex_digit dest!: arg_cong[where f = "of_char :: char \<Rightarrow> nat"] split: if_splits)

lemma from_hex_char_hex_digit [simp]: "n < 16 \<Longrightarrow> from_hex_char (hex_digit n) = of_nat n"
  by (simp add: from_hex_char_def isdigit_def of_char_hex_digit tolower_hex_digit byte_of_char_def)

lemma nibbles_byte: "push_bit 4 (of_nat (unat b div 16)) OR of_nat (unat b mod 16) = (b :: byte)"
proof (rule bit_word_eqI)
  fix n assume "n < LENGTH(8)"
  then have n: "n < 8" by simp
  have h: "bit (of_nat (unat b div 16) :: byte) k \<longleftrightarrow> bit b (k + 4)" if "k < 8" for k
    using that by (simp add: bit_of_nat_iff bit_unsigned_iff flip: drop_bit_nat_eq[of 4, simplified] drop_bit_eq_div[of 4, simplified])
       (auto simp: bit_drop_bit_eq bit_unsigned_iff ac_simps dest: bit_imp_le_length)
  have l: "bit (of_nat (unat b mod 16) :: byte) k \<longleftrightarrow> k < 4 \<and> bit b k" if "k < 8" for k
    using that by (simp add: bit_of_nat_iff bit_unsigned_iff flip: take_bit_eq_mod[of 4, simplified])
       (auto simp: bit_take_bit_iff bit_unsigned_iff)
  show "bit (push_bit 4 (of_nat (unat b div 16)) OR of_nat (unat b mod 16) :: byte) n = bit b n"
    using n h[of "n - 4"] l[of n] by (auto simp: bit_or_iff bit_push_bit_iff)
qed

lemma nibble_less [simp]: "unat (b :: byte) div 16 < 16"
  by (simp add: less_mult_imp_div_less)

lemma sscanf_hex_byte: "sscanf_02hhx (hex_byte b @ s) = Some b"
proof -
  let ?h = "hex_digit (unat b div 16)" and ?l = "hex_digit (unat b mod 16)"
  have "dropWhile isspace (c_str (hex_byte b @ s)) = ?h # ?l # c_str s"
    using hex_digit_plain[of "unat b div 16"] hex_digit_plain[of "unat b mod 16"]
    by (simp add: hex_byte_def c_str_def)
  moreover have "scan_digits (?h # ?l # c_str s) = Some (unat b)"
    by simp
  moreover have "(of_nat (unat b) :: byte) = b" by simp
  ultimately show ?thesis
    using hex_digit_plain[of "unat b div 16"]
    by (simp only: sscanf_02hhx_def list.case if_False option.map nibble_less)
qed

lemma length_to_hex: "length (to_hex v) = 2 * length v"
  by (induction v) (simp_all add: to_hex_def hex_byte_def)

lemma from_hex_loop_to_hex: "from_hex_loop (to_hex v) r = r @ v"
proof (induction v arbitrary: r)
  case Nil
  then show ?case by (simp add: to_hex_def)
next
  case (Cons b v)
  have "to_hex (b # v) = hex_byte b @ to_hex v" by (simp add: to_hex_def)
  then show ?case
    using Cons sscanf_hex_byte[of b "to_hex v"] by (simp add: hex_byte_def)
qed

lemma from_hex_to_hex [simp]: "from_hex (to_hex v) = Inr v"
  by (simp add: from_hex_def length_to_hex from_hex_loop_to_hex)

lemma to_hex_inject: "to_hex v = to_hex w \<longleftrightarrow> v = w"
  by (metis from_hex_to_hex sum.inject(2))

lemma vec_from_hex_loop_eq:
  assumes "even (length s)" and "2 * i \<le> length s"
  shows "vec_from_hex_loop s i r = from_hex_loop (drop (2 * i) s) r"
  using assms
proof (induction "length s div 2 - i" arbitrary: i r)
  case 0
  then have "drop (2 * i) s = []" by auto
  with 0 show ?case by (simp add: vec_from_hex_loop.simps[of s i r])
next
  case (Suc n)
  then have i: "i < length s div 2" "2 * Suc i \<le> length s" by auto
  then have "drop (2 * i) s = s ! (2 * i) # s ! Suc (2 * i) # drop (2 * Suc i) s"
    by (simp add: Cons_nth_drop_Suc)
  with Suc i show ?case
    by (simp add: vec_from_hex_loop.simps[of s i r] split: option.split)
qed

lemma vec_from_hex_eq_from_hex: "vec_from_hex s = from_hex s"
  by (cases "even (length s)") (simp_all add: vec_from_hex_def from_hex_def vec_from_hex_loop_eq)

lemma from_hex_loop_length:
  "from_hex_loop s r = [] \<or> length (from_hex_loop s r) = length r + length s div 2"
  by (induction s r rule: from_hex_loop.induct) (auto split: option.split)

lemma from_hex_length: "from_hex s = Inr v \<Longrightarrow> v = [] \<or> 2 * length v = length s"
  using from_hex_loop_length[of s "[]"] by (auto simp: from_hex_def result_simps)

lemma length_url_decode_loop: "length (url_decode_loop s) \<le> length s"
proof (induction s rule: length_induct)
  case (1 s)
  show ?case
  proof (cases s)
    case Nil
    then show ?thesis by simp
  next
    case (Cons c t)
    with 1 have t: "length (url_decode_loop t) \<le> length t" by simp
    show ?thesis
    proof (cases "c = CHR ''%'' \<and> (\<exists>a b u. t = a # b # u)")
      case True
      then obtain a b u where u: "c = CHR ''%''" "t = a # b # u" by blast
      with Cons 1 have "length (url_decode_loop u) \<le> length u" by simp
      with Cons u show ?thesis by simp
    next
      case False
      then have "url_decode_loop s \<in> {url_decode_loop t, CHR '' '' # url_decode_loop t, c # url_decode_loop t}"
        unfolding Cons url_decode_loop.simps(2) by (cases t; cases "tl t") simp_all
      with t Cons show ?thesis by auto
    qed
  qed
qed

text \<open>The encoder a client uses: every byte escaped.\<close>

definition url_encode :: "string \<Rightarrow> string" where
  "url_encode s = concat (map (\<lambda>c. CHR ''%'' # hex_byte (byte_of_char c)) s)"

lemma url_decode_loop_encode: "url_decode_loop (url_encode s) = s"
  by (induction s) (simp_all add: url_encode_def hex_byte_def nibbles_byte)

lemma c_str_id: "CHR 0x00 \<notin> set s \<Longrightarrow> c_str s = s"
  unfolding c_str_def by (subst takeWhile_eq_all_conv) auto

lemma url_encode_no_NUL: "CHR 0x00 \<notin> set (url_encode s)"
proof (induction s)
  case Nil
  then show ?case by (simp add: url_encode_def)
next
  case (Cons c s)
  have "url_encode (c # s) = CHR ''%'' # hex_byte (byte_of_char c) @ url_encode s"
    by (simp add: url_encode_def)
  moreover have "CHR 0x00 \<notin> set (hex_byte b)" for b
    using hex_digit_plain(4)[of "unat b div 16"] hex_digit_plain(4)[of "unat b mod 16"]
    by (simp add: hex_byte_def eq_commute)
  ultimately show ?case using Cons by simp
qed

lemma url_decode_encode: "CHR 0x00 \<notin> set s \<Longrightarrow> url_decode (url_encode s) = bytes_of s"
  by (simp add: url_decode_def url_decode_c_def c_str_id url_encode_no_NUL url_decode_loop_encode)

section \<open>\<open>from_hex_t\<close> reads the memory order of a little-endian field\<close>

lemma le_nat_snoc: "le_nat (xs @ [b]) = le_nat xs + 256 ^ length xs * unat b"
  by (induction xs) (simp_all add: algebra_simps)

lemma pow256: "(256 :: nat) ^ n = 2 ^ (8 * n)"
  by (simp add: power_mult)

lemma le_nat_snoc_or: "le_nat (xs @ [b]) = le_nat xs OR push_bit (8 * length xs) (unat b)"
proof -
  have b: "le_nat xs < 2 ^ (8 * length xs)" using le_nat_bound[of xs] by (simp add: pow256)
  have n: "\<not> bit (le_nat xs) n" if "8 * length xs \<le> n" for n
    using b that by (metis bit_take_bit_iff linorder_not_less take_bit_nat_eq_self)
  have "le_nat xs + push_bit (8 * length xs) (unat b) = le_nat xs OR push_bit (8 * length xs) (unat b)"
    by (rule disjunctive_add_eq_or) (use n in \<open>auto simp: bit_eq_iff bit_and_iff bit_push_bit_iff\<close>)
  then show ?thesis by (simp add: le_nat_snoc push_bit_eq_mult pow256 mult.commute)
qed

lemma ucast_shift_u64:
  assumes "LENGTH('w::len) \<le> 64"
  shows "ucast (push_bit n (ucast (b :: byte) :: u64)) = push_bit n (ucast b :: 'w word)"
  by (rule bit_word_eqI) (use assms in \<open>auto simp: bit_ucast_iff bit_push_bit_iff\<close>)

lemma to_hex_append: "to_hex (xs @ ys) = to_hex xs @ to_hex ys"
  by (simp add: to_hex_def)

lemma from_hex_t_loop_little_endian:
  assumes "LENGTH('w::len) \<le> 64" and "i \<le> length bs"
  shows "from_hex_t_loop (to_hex bs) True (length bs) i (of_nat (le_nat (take i bs)) :: 'w word)
         = of_nat (le_nat bs)"
  using assms(2)
proof (induction "length bs - i" arbitrary: i)
  case 0
  then show ?case by (simp add: from_hex_t_loop.simps)
next
  case (Suc k)
  then have i: "i < length bs" by simp
  have "to_hex bs = to_hex (take i bs) @ hex_byte (bs ! i) @ to_hex (drop (Suc i) bs)"
    using i by (metis to_hex_append id_take_nth_drop append_Cons append_Nil append.right_neutral
        concat.simps(1,2) list.map(1,2) to_hex_def)
  then have "sscanf_02hhx (drop (2 * i) (to_hex bs)) = Some (bs ! i)"
    using i sscanf_hex_byte by (simp add: length_to_hex)
  moreover have "take (Suc i) bs = take i bs @ [bs ! i]" using i by (simp add: take_Suc_conv_app_nth)
  then have "of_nat (le_nat (take (Suc i) bs)) =
      (of_nat (le_nat (take i bs)) :: 'w word) OR push_bit (8 * i) (ucast (bs ! i))"
    using i by (simp add: le_nat_snoc_or of_nat_or_eq of_nat_push_bit min_def flip: unsigned_ucast_eq)
  ultimately show ?case
    using Suc(1)[of "Suc i"] Suc(2) i ucast_shift_u64[OF assms(1)]
    by (simp add: from_hex_t_loop.simps[of "to_hex bs" True "length bs" i])
qed

lemma from_hex_t_to_hex:
  assumes "LENGTH('w::len) \<le> 64" and "8 * length bs = LENGTH('w)"
  shows "from_hex_t (to_hex bs) True = Inr (of_nat (le_nat bs) :: 'w word)"
proof -
  have sz: "LENGTH('w) div 8 = length bs" using assms(2) by simp
  show ?thesis
    using from_hex_t_loop_little_endian[OF assms(1), of 0 bs]
    by (simp add: from_hex_t_def sz length_to_hex)
qed

end
