(* ===== verification/Format.thy ===== *)
theory Format
  imports Hex
begin

text \<open>
  The text formatting the code uses: numbers of \<open>std::to_string\<close> and \<open>fmt::format\<close>, and the pieces of
  the printed reports (\<open>std::string(indent, ' ')\<close>, \<open>std::endl\<close>, \<open>indentate\<close> of \<open>util.h\<close>).
\<close>

text \<open>\<open>std::to_string\<close> of a \<open>size_t\<close>, and \<open>{:02d}\<close>.\<close>

function decimal :: "nat \<Rightarrow> string" where
  "decimal n = (if n < 10 then [char_of (48 + n)] else decimal (n div 10) @ [char_of (48 + n mod 10)])"
  by pat_completeness auto
termination by (relation "measure id") auto

declare decimal.simps [simp del]

definition decimal_02 :: "nat \<Rightarrow> string" where
  "decimal_02 n = (if n < 10 then CHR ''0'' # decimal n else decimal n)"

text \<open>\<open>{:08x}\<close>.\<close>

function hex_number :: "nat \<Rightarrow> string" where
  "hex_number n = (if n < 16 then [hex_digit n] else hex_number (n div 16) @ [hex_digit (n mod 16)])"
  by pat_completeness auto
termination by (relation "measure id") auto

declare hex_number.simps [simp del]

definition hex_number_08 :: "nat \<Rightarrow> string" where
  "hex_number_08 n = (let s = hex_number n in replicate (8 - length s) (CHR ''0'') @ s)"

definition spaces :: "nat \<Rightarrow> string" where
  "spaces indent = replicate indent CHR '' ''"

definition endl :: string where
  "endl = [CHR 0x0A]"

text \<open>\<open>indentate\<close> as the printing functions call it; it always returns, see \<open>indented_eq\<close>.\<close>

definition indented :: "string \<Rightarrow> nat \<Rightarrow> string result" where
  "indented s indent = (case indentate s indent of None \<Rightarrow> Inl Out_Of_Fuel | Some r \<Rightarrow> Inr r)"

lemma indented_eq: "indented s n = Inr (replicate n CHR '' '' @ indent_chars (replicate n CHR '' '') s)"
  by (simp add: indented_def indentate_eq)

lemma indented_clean [simp]: "clean (indented s n)" "is_ok (indented s n)"
  by (simp_all add: indented_eq)

text \<open>
  \<open>if (verbosity > 0) log(text)\<close>: what is written is not part of the result, but making the text may
  fail.
\<close>

definition logged :: "bool \<Rightarrow> string result \<Rightarrow> 'a result \<Rightarrow> 'a result" where
  "logged on txt k = (if on then andthen txt (\<lambda>_. k) else k)"

lemma logged_Inr [result_simps]: "logged on txt k = Inr y \<longleftrightarrow> (on \<longrightarrow> is_ok txt) \<and> k = Inr y"
  by (auto simp: logged_def andthen_Inr is_ok_iff)

lemma logged_off [simp]: "logged False txt k = k"
  by (simp add: logged_def)

lemma logged_clean: "clean txt \<Longrightarrow> clean k \<Longrightarrow> clean (logged on txt k)"
  by (auto simp: logged_def intro: clean_andthen)

end
