(* ===== verification/Options.thy ===== *)
theory Options
  imports Prelude
begin

text \<open>
  \<open>include/ravl/options.h\<close> and \<open>crypto_options.h\<close>: the verification options with their defaults, and
  the C API's options with the conversion \<open>cpp_options\<close> of \<open>src/capi.cpp\<close>.
\<close>

record cert_validation_options =
  ignore_time :: bool
  verification_time :: "int option"

definition default_cert_validation_options :: cert_validation_options where
  "default_cert_validation_options = \<lparr>ignore_time = False, verification_time = None\<rparr>"

record options =
  verbosity :: byte
  certificate_verification :: cert_validation_options
  fresh_endorsements :: bool
  fresh_root_ca_certificate :: bool
  root_ca_certificate :: "string option"
  check_root_certificate_manufacturer_key :: bool
  sgx_endorsement_cache_url_template :: "string option"
  sev_snp_endorsement_cache_url_template :: "string option"
  http_timeout :: u64
  http_max_attempts :: u64
  historical :: bool
  partial_verification :: bool

definition default_options :: options where
  "default_options = \<lparr>
     verbosity = 0,
     certificate_verification = default_cert_validation_options,
     fresh_endorsements = False,
     fresh_root_ca_certificate = False,
     root_ca_certificate = None,
     check_root_certificate_manufacturer_key = True,
     sgx_endorsement_cache_url_template = None,
     sev_snp_endorsement_cache_url_template = None,
     http_timeout = 90,
     http_max_attempts = 5,
     historical = False,
     partial_verification = False\<rparr>"

text \<open>\<open>ravl_options_t\<close>: C integers for flags, possibly null pointers for optional values.\<close>

record ravl_options_t =
  c_verbosity :: byte
  c_ignore_time :: "32 word"
  c_verification_time :: "int option"
  c_fresh_endorsements :: "32 word"
  c_fresh_root_ca_certificate :: "32 word"
  c_root_ca_certificate :: "string option"
  c_check_root_certificate_manufacturer_key :: "32 word"
  c_sgx_endorsement_cache_url_template :: "string option"
  c_sev_snp_endorsement_cache_url_template :: "string option"
  c_http_timeout :: u64
  c_http_max_attempts :: u64
  c_historical :: "32 word"

definition or_keep :: "'a option \<Rightarrow> 'a option \<Rightarrow> 'a option" where
  "or_keep c d = (case c of Some x \<Rightarrow> Some x | None \<Rightarrow> d)"

definition cpp_options :: "ravl_options_t option \<Rightarrow> options" where
  "cpp_options c = (case c of None \<Rightarrow> default_options | Some o' \<Rightarrow>
     (let r = default_options;
          cv = certificate_verification r
      in r\<lparr>
        certificate_verification := \<lparr>
          ignore_time = (c_ignore_time o' \<noteq> 0),
          verification_time = or_keep (c_verification_time o') (verification_time cv)\<rparr>,
        fresh_endorsements := (c_fresh_endorsements o' \<noteq> 0),
        fresh_root_ca_certificate := (c_fresh_root_ca_certificate o' \<noteq> 0),
        root_ca_certificate := or_keep (c_root_ca_certificate o') (root_ca_certificate r),
        check_root_certificate_manufacturer_key := (c_check_root_certificate_manufacturer_key o' \<noteq> 0),
        sgx_endorsement_cache_url_template :=
          or_keep (c_sgx_endorsement_cache_url_template o') (sgx_endorsement_cache_url_template r),
        sev_snp_endorsement_cache_url_template :=
          or_keep (c_sev_snp_endorsement_cache_url_template o') (sev_snp_endorsement_cache_url_template r),
        http_timeout := c_http_timeout o',
        http_max_attempts := c_http_max_attempts o',
        historical := (c_historical o' \<noteq> 0)\<rparr>))"

text \<open>
  Every field of the C structure reaches the C++ options, except the verbosity; partial verification
  cannot be asked for through the C API.
\<close>

lemma cpp_options_fields:
  "fresh_endorsements (cpp_options (Some c)) = (c_fresh_endorsements c \<noteq> 0)"
  "fresh_root_ca_certificate (cpp_options (Some c)) = (c_fresh_root_ca_certificate c \<noteq> 0)"
  "root_ca_certificate (cpp_options (Some c)) = c_root_ca_certificate c"
  "check_root_certificate_manufacturer_key (cpp_options (Some c)) =
     (c_check_root_certificate_manufacturer_key c \<noteq> 0)"
  "http_timeout (cpp_options (Some c)) = c_http_timeout c"
  "http_max_attempts (cpp_options (Some c)) = c_http_max_attempts c"
  "historical (cpp_options (Some c)) = (c_historical c \<noteq> 0)"
  "ignore_time (certificate_verification (cpp_options (Some c))) = (c_ignore_time c \<noteq> 0)"
  "verification_time (certificate_verification (cpp_options (Some c))) = c_verification_time c"
  "sgx_endorsement_cache_url_template (cpp_options (Some c)) = c_sgx_endorsement_cache_url_template c"
  "sev_snp_endorsement_cache_url_template (cpp_options (Some c)) =
     c_sev_snp_endorsement_cache_url_template c"
  by (simp_all add: cpp_options_def Let_def or_keep_def default_options_def
      default_cert_validation_options_def split: option.split)

lemma cpp_options_verbosity: "verbosity (cpp_options c) = 0"
  by (cases c) (simp_all add: cpp_options_def Let_def default_options_def)

lemma cpp_options_partial: "\<not> partial_verification (cpp_options c)"
  by (cases c) (simp_all add: cpp_options_def Let_def default_options_def)

end
