(* ===== verification/Crypto.thy ===== *)
theory Crypto
  imports Format Options
begin

text \<open>
  \<open>include/ravl/crypto.h\<close> and the parts of \<open>include/ravl/openssl.hpp\<close> it is built on.  OpenSSL itself is
  the record \<open>openssl\<close> of its functions over handles of a type \<open>'h\<close>; what the wrappers do with the
  results (null checks, stacks, integer conversions, error codes) is written out.  The text of an
  OpenSSL error is not modelled.
\<close>

section \<open>The library\<close>

text \<open>
  ASN.1 values as \<open>ASN1_TYPE\<close> gives them: the content of a sequence is still encoded, a boolean is an
  \<open>int\<close>.
\<close>

datatype asn1 =
    A_Sequence bytes
  | A_Object string
  | A_Integer int
  | A_Enumerated int
  | A_Octet_String bytes
  | A_Boolean int
  | A_Other

datatype x509_flag = CRL_CHECK | CRL_CHECK_ALL | X509_STRICT | CHECK_SS_SIGNATURE
  | PARTIAL_CHAIN | NO_CHECK_TIME

record verify_param =
  vp_depth :: int
  vp_auth_level :: int
  vp_flags :: "x509_flag list"

text \<open>
  \<open>d2i_x509_bio\<close> and \<open>pem_read_bio_x509\<close> return the certificate and the number of bytes they consume.
  \<open>x509_verify_cert\<close> is OpenSSL's return code (positive, zero or negative).  The texts of names and
  times are those of the printing functions, None when they fail with an error in the queue;
  \<open>crl_next_update_text\<close> is None when the list has no next update.
\<close>

record 'h openssl =
  pem_read_bio_x509 :: "bytes \<Rightarrow> ('h \<times> nat) option"
  d2i_x509_bio :: "bytes \<Rightarrow> ('h \<times> nat) option"
  pem_x509_info :: "bytes \<Rightarrow> 'h option list"
  pem_read_crl :: "bytes \<Rightarrow> 'h option"
  d2i_crl :: "bytes \<Rightarrow> 'h option"
  crl_pem :: "'h \<Rightarrow> string"
  x509_pem :: "'h \<Rightarrow> string"
  x509_der :: "'h \<Rightarrow> bytes"
  x509_check_ca :: "'h \<Rightarrow> int"
  x509_common_names :: "'h \<Rightarrow> string list"
  x509_subject_key_id :: "'h \<Rightarrow> bytes option"
  x509_authority_key_id :: "'h \<Rightarrow> bytes option"
  x509_subject_text :: "'h \<Rightarrow> string"
  x509_not_before_text :: "'h \<Rightarrow> string option"
  x509_not_after_text :: "'h \<Rightarrow> string option"
  i2s_octet_string :: "bytes \<Rightarrow> string"
  crl_issuer_text :: "'h \<Rightarrow> string option"
  crl_revoked_serials :: "'h \<Rightarrow> string list"
  crl_last_update_text :: "'h \<Rightarrow> string option"
  crl_next_update_text :: "'h \<Rightarrow> string option"
  x509_ext_data :: "'h \<Rightarrow> string \<Rightarrow> bytes option"
  x509_pubkey :: "'h \<Rightarrow> 'h option"
  d2i_sequence_any :: "bytes \<Rightarrow> asn1 list option"
  pem_read_pubkey :: "bytes \<Rightarrow> 'h option"
  pkey_eq :: "'h \<Rightarrow> 'h \<Rightarrow> int"
  pkey_p256 :: "nat \<Rightarrow> nat \<Rightarrow> 'h option"
  pkey_rsa :: "nat \<Rightarrow> nat \<Rightarrow> 'h option"
  evp_pkey_verify :: "'h \<Rightarrow> bytes \<Rightarrow> bytes \<Rightarrow> int"
  md_sha256 :: "bytes \<Rightarrow> bytes"
  md_sha384 :: "bytes \<Rightarrow> bytes"
  md_sha512 :: "bytes \<Rightarrow> bytes"
  i2d_ecdsa_sig :: "nat \<Rightarrow> nat \<Rightarrow> bytes"
  bio_base64_read :: "string \<Rightarrow> bytes option"
  bio_base64_write :: "bytes \<Rightarrow> string"
  store_new :: 'h
  store_set_flags :: "x509_flag list \<Rightarrow> 'h \<Rightarrow> 'h"
  store_add_cert :: "'h \<Rightarrow> 'h \<Rightarrow> 'h"
  store_add_crl :: "'h \<Rightarrow> 'h \<Rightarrow> 'h option"
  ctx_init :: "'h \<Rightarrow> 'h \<Rightarrow> 'h list \<Rightarrow> 'h option"
  ctx_set_time :: "int \<Rightarrow> 'h \<Rightarrow> 'h"
  ctx_set0_param :: "verify_param \<Rightarrow> 'h \<Rightarrow> 'h"
  ctx_set_verify_cb :: "(int \<Rightarrow> bool \<Rightarrow> int) \<Rightarrow> 'h \<Rightarrow> 'h"
  x509_verify_cert :: "'h \<Rightarrow> int"
  ctx_get1_chain :: "'h \<Rightarrow> 'h list"

definition openssl_error :: failure where
  "openssl_error = Runtime_Error ''OpenSSL error(s)''"

text \<open>\<open>CHECKNULL\<close> and the null check of the constructors.\<close>

definition checknull :: "'a option \<Rightarrow> 'a result" where
  "checknull x = (case x of None \<Rightarrow> Inl openssl_error | Some h \<Rightarrow> Inr h)"

lemma openssl_error_catchable [simp]: "catchable openssl_error" "is_std_exception openssl_error"
  by (simp_all add: openssl_error_def)

lemma checknull_Inr [result_simps]: "checknull x = Inr h \<longleftrightarrow> x = Some h"
  by (cases x) (simp_all add: checknull_def)

lemma checknull_simps [simp]: "checknull (Some h) = Inr h" "checknull None = Inl openssl_error"
  by (simp_all add: checknull_def)

lemma checknull_safe [simp]: "\<not> undefined_behaviour (checknull x)"
  by (cases x) simp_all

section \<open>Certificates and keys\<close>

text \<open>\<open>UqX509(bio, pem)\<close> and \<open>UqX509(pem)\<close>.\<close>

definition x509_read :: "'h openssl \<Rightarrow> bytes \<Rightarrow> bool \<Rightarrow> ('h \<times> nat) result" where
  "x509_read ssl data pem =
     checknull (if pem then pem_read_bio_x509 ssl data else d2i_x509_bio ssl data)"

definition x509_of :: "'h openssl \<Rightarrow> bytes \<Rightarrow> bool \<Rightarrow> 'h result" where
  "x509_of ssl data pem = andthen (x509_read ssl data pem) (\<lambda>(h, _). Inr h)"

definition crl_of :: "'h openssl \<Rightarrow> bytes \<Rightarrow> bool \<Rightarrow> 'h result" where
  "crl_of ssl data pem = checknull (if pem then pem_read_crl ssl data else d2i_crl ssl data)"

definition is_ca :: "'h openssl \<Rightarrow> 'h \<Rightarrow> bool" where
  "is_ca ssl x = (x509_check_ca ssl x \<noteq> 0)"

text \<open>
  The loop over the subject's common names compares the data up to its first NUL byte.
\<close>

fun any_common_name :: "string list \<Rightarrow> string \<Rightarrow> bool" where
  "any_common_name [] expected = False"
| "any_common_name (n # ns) expected = (if c_str n = expected then True else any_common_name ns expected)"

definition has_common_name :: "'h openssl \<Rightarrow> 'h \<Rightarrow> string \<Rightarrow> bool" where
  "has_common_name ssl x expected = any_common_name (x509_common_names ssl x) expected"

text \<open>
  \<open>UqEVP_PKEY(const UqX509&)\<close>: \<open>UqX509::get_pubkey\<close> takes a reference on what \<open>X509_get_pubkey\<close> returns
  before anything looks whether that is null, so that a certificate whose key the library cannot decode
  is an access through a null pointer.
\<close>

definition pkey_of_x509 :: "'h openssl \<Rightarrow> 'h \<Rightarrow> 'h result" where
  "pkey_of_x509 ssl x = (case x509_pubkey ssl x of
       None \<Rightarrow> Inl (Undefined_Behaviour ''EVP_PKEY_up_ref of a null pointer'')
     | Some key \<Rightarrow> Inr key)"

lemma pkey_of_x509_Inr: "pkey_of_x509 ssl x = Inr key \<longleftrightarrow> x509_pubkey ssl x = Some key"
  by (simp add: pkey_of_x509_def split: option.split)

definition has_public_key :: "'h openssl \<Rightarrow> 'h \<Rightarrow> string \<Rightarrow> bool result" where
  "has_public_key ssl x target =
     andthen (checknull (pem_read_pubkey ssl (bytes_of target))) (\<lambda>key.
     andthen (pkey_of_x509 ssl x) (\<lambda>own.
       Inr (pkey_eq ssl own key = 1)))"

definition subject_key_id :: "'h openssl \<Rightarrow> 'h \<Rightarrow> bytes result" where
  "subject_key_id ssl x = (case x509_subject_key_id ssl x of
       None \<Rightarrow> Inl (Runtime_Error ''certificate does not contain a subject key id'')
     | Some k \<Rightarrow> Inr k)"

definition authority_key_id :: "'h openssl \<Rightarrow> 'h \<Rightarrow> bytes result" where
  "authority_key_id ssl x = (case x509_authority_key_id ssl x of
       None \<Rightarrow> Inl (Runtime_Error ''certificate does not contain an authority key id'')
     | Some k \<Rightarrow> Inr k)"

text \<open>\<open>UqEVP_PKEY::verify_signature\<close>: only the return code 1 is success.\<close>

definition pkey_verify_signature :: "'h openssl \<Rightarrow> 'h \<Rightarrow> bytes \<Rightarrow> bytes \<Rightarrow> bool" where
  "pkey_verify_signature ssl key hash signature = (evp_pkey_verify ssl key hash signature = 1)"

text \<open>\<open>BN_bin2bn\<close>, \<open>BN_lebin2bn\<close> and \<open>BN_bn2bin\<close>.\<close>

definition be_nat :: "bytes \<Rightarrow> nat" where
  "be_nat bs = le_nat (rev bs)"

definition bignum :: "bytes \<Rightarrow> bool \<Rightarrow> nat" where
  "bignum bs little_endian = (if little_endian then le_nat bs else be_nat bs)"

function bn_bn2bin :: "nat \<Rightarrow> bytes" where
  "bn_bn2bin n = (if n = 0 then [] else bn_bn2bin (n div 256) @ [of_nat (n mod 256)])"
  by pat_completeness auto
termination
  by (relation "measure id") auto

declare bn_bn2bin.simps [simp del]

text \<open>\<open>UqEVP_PKEY_P256\<close>: the coordinates are the two halves of 64 bytes, read through \<open>&coordinates[0]\<close>.\<close>

definition pkey_P256 :: "'h openssl \<Rightarrow> bytes \<Rightarrow> 'h result" where
  "pkey_P256 ssl coordinates =
     andthen (peek coordinates 0 32) (\<lambda>x. andthen (peek coordinates 32 32) (\<lambda>y.
       checknull (pkey_p256 ssl (be_nat x) (be_nat y))))"

section \<open>Stacks of certificates\<close>

definition stack_at :: "'h list \<Rightarrow> nat \<Rightarrow> 'h result" where
  "stack_at st i = (if length st \<le> i then Inl (Out_Of_Range ''index into stack out of range'') else Inr (st ! i))"

definition stack_front :: "'h list \<Rightarrow> 'h result" where
  "stack_front st = stack_at st 0"

text \<open>\<open>at(size() - 1)\<close>, with the subtraction of \<open>size_t\<close>.\<close>

definition stack_back :: "'h list \<Rightarrow> 'h result" where
  "stack_back st = stack_at st (if st = [] then size_max - 1 else length st - 1)"

fun stack_of_infos :: "'h option list \<Rightarrow> 'h list \<Rightarrow> 'h list result" where
  "stack_of_infos [] st = Inr st"
| "stack_of_infos (None # is) st = Inl (Runtime_Error ''invalid PEM element'')"
| "stack_of_infos (Some x # is) st = stack_of_infos is (st @ [x])"

definition stack_of_pem :: "'h openssl \<Rightarrow> bytes \<Rightarrow> 'h list result" where
  "stack_of_pem ssl pem = stack_of_infos (pem_x509_info ssl pem) []"

definition stack_pem :: "'h openssl \<Rightarrow> 'h list \<Rightarrow> string" where
  "stack_pem ssl st = concat (map (x509_pem ssl) st)"

lemma stack_of_infos_Inr:
  "stack_of_infos is st = Inr r \<longleftrightarrow> None \<notin> set is \<and> r = st @ map the is"
proof (induction "is" arbitrary: st)
  case Nil
  then show ?case by auto
next
  case (Cons i "is")
  then show ?case by (cases i) auto
qed

lemma stack_at_Inr: "stack_at st i = Inr x \<longleftrightarrow> i < length st \<and> x = st ! i"
  by (auto simp: stack_at_def)

lemma stack_front_Inr: "stack_front st = Inr x \<longleftrightarrow> st \<noteq> [] \<and> x = hd st"
  by (auto simp: stack_front_def stack_at_Inr hd_conv_nth)

lemma stack_back_Inr:
  "length st \<le> vector_max_size \<Longrightarrow> stack_back st = Inr x \<longleftrightarrow> st \<noteq> [] \<and> x = last st"
  by (auto simp: stack_back_def stack_at_Inr last_conv_nth)

lemma stack_at_safe [simp]: "\<not> undefined_behaviour (stack_at st i)"
  by (simp add: stack_at_def)

lemma stack_back_safe [simp]: "\<not> undefined_behaviour (stack_back st)"
  by (simp add: stack_back_def)

lemma stack_front_safe [simp]: "\<not> undefined_behaviour (stack_front st)"
  by (simp add: stack_front_def)

lemma stack_of_pem_safe [simp]: "\<not> undefined_behaviour (stack_of_pem ssl pem)"
proof -
  have "\<not> undefined_behaviour (stack_of_infos is st)" for "is" and st :: "'a list"
    by (induction "is" st rule: stack_of_infos.induct) simp_all
  then show ?thesis by (simp add: stack_of_pem_def)
qed

lemma stack_back_clean [simp]: "clean (stack_back st)" "clean (stack_at st i)" "clean (stack_front st)"
  by (simp_all add: stack_back_def stack_front_def stack_at_def)

lemma checknull_clean [simp]: "clean (checknull x)"
  by (cases x) simp_all

section \<open>Base64, digests and signatures\<close>

text \<open>
  Sizes are given to OpenSSL as an \<open>int\<close>.  A memory buffer over a string holds all of it below 2 GB, else
  the remainder of its size, or the part before its first NUL when the \<open>int\<close> is negative; a transfer of a
  negative number of bytes transfers nothing.
\<close>

definition bio_text :: "string \<Rightarrow> string" where
  "bio_text s = (if length s mod 2 ^ 32 < 2 ^ 31 then take (length s mod 2 ^ 32) s else c_str s)"

definition int_size :: "nat \<Rightarrow> nat" where
  "int_size n = (if n mod 2 ^ 32 < 2 ^ 31 then n mod 2 ^ 32 else 0)"

lemma bio_text_short: "length s < 2 ^ 31 \<Longrightarrow> bio_text s = s"
  by (simp add: bio_text_def)

lemma int_size_short: "n < 2 ^ 31 \<Longrightarrow> int_size n = n"
  by (simp add: int_size_def)

text \<open>
  \<open>bio_base64_write\<close> is the text of what is written to the chain of BIOs, \<open>bio_base64_read\<close> all the bytes
  that the chain decodes; \<open>BIO_read\<close> returns as many of them as the text has characters, at most.
\<close>

definition to_base64 :: "'h openssl \<Rightarrow> bytes \<Rightarrow> string" where
  "to_base64 ssl v = bio_base64_write ssl (take (int_size (length v)) v)"

definition from_base64 :: "'h openssl \<Rightarrow> string \<Rightarrow> bytes result" where
  "from_base64 ssl b64 = (case bio_base64_read ssl (bio_text b64) of
       None \<Rightarrow> Inl (Runtime_Error ''base64 decoding error'')
     | Some v \<Rightarrow> Inr (take (int_size (length b64)) v))"

text \<open>OpenSSL decodes what it has encoded, and a text is not shorter than what it encodes.\<close>

definition base64_law :: "'h openssl \<Rightarrow> bool" where
  "base64_law ssl \<longleftrightarrow> (\<forall>v. bio_base64_read ssl (bio_base64_write ssl v) = Some v
     \<and> length v \<le> length (bio_base64_write ssl v))"

lemma base64_roundtrip:
  assumes "base64_law ssl" and "length (bio_base64_write ssl v) < 2 ^ 31"
  shows "from_base64 ssl (to_base64 ssl v) = Inr v"
proof -
  have l: "bio_base64_read ssl (bio_base64_write ssl v) = Some v" "length v \<le> length (bio_base64_write ssl v)"
    using assms(1) unfolding base64_law_def by blast+
  then have "to_base64 ssl v = bio_base64_write ssl v"
    using assms(2) by (simp add: to_base64_def int_size_short)
  then show ?thesis using l assms(2) by (simp add: from_base64_def bio_text_short int_size_short)
qed

definition base64url_char :: "char \<Rightarrow> char" where
  "base64url_char c = (if c = CHR ''-'' then CHR ''+'' else if c = CHR ''_'' then CHR ''/'' else c)"

definition from_base64url :: "'h openssl \<Rightarrow> string \<Rightarrow> bytes result" where
  "from_base64url ssl b64url =
     (let s = map base64url_char b64url;
          padding = (if length s mod 4 = 2 then 2 else if length s mod 4 = 3 then 1 else 0)
      in from_base64 ssl (s @ replicate padding CHR ''=''))"

definition sha256 :: "'h openssl \<Rightarrow> bytes \<Rightarrow> bytes" where
  "sha256 ssl m = md_sha256 ssl m"

definition sha384 :: "'h openssl \<Rightarrow> bytes \<Rightarrow> bytes" where
  "sha384 ssl m = md_sha384 ssl m"

definition sha512 :: "'h openssl \<Rightarrow> bytes \<Rightarrow> bytes" where
  "sha512 ssl m = md_sha512 ssl m"

definition convert_rs_to_der :: "'h openssl \<Rightarrow> bytes \<Rightarrow> bytes \<Rightarrow> bool \<Rightarrow> bytes result" where
  "convert_rs_to_der ssl r s little_endian =
     throw_if (length r \<noteq> length s) (Runtime_Error ''incompatible signature coordinates'')
       (Inr (i2d_ecdsa_sig ssl (bignum r little_endian) (bignum s little_endian)))"

definition convert_signature_to_der :: "'h openssl \<Rightarrow> bytes \<Rightarrow> bool \<Rightarrow> bytes result" where
  "convert_signature_to_der ssl signature little_endian =
     (let half_size = length signature div 2
      in convert_rs_to_der ssl (take half_size signature)
           (take half_size (drop half_size signature)) little_endian)"

text \<open>\<open>verify_signature\<close> of \<open>sgx_impl.h\<close>.\<close>

definition verify_signature :: "'h openssl \<Rightarrow> 'h \<Rightarrow> bytes \<Rightarrow> bytes \<Rightarrow> bool result" where
  "verify_signature ssl pkey message signature =
     (let hash = sha256 ssl message
      in andthen (convert_signature_to_der ssl signature False)
           (\<lambda>sig_der. Inr (pkey_verify_signature ssl pkey hash sig_der)))"

definition cert_der_to_pem :: "'h openssl \<Rightarrow> bytes \<Rightarrow> string result" where
  "cert_der_to_pem ssl der = andthen (x509_of ssl der False) (\<lambda>x. Inr (x509_pem ssl x))"

lemma convert_signature_to_der_Inr:
  "even (length signature) \<Longrightarrow> convert_signature_to_der ssl signature le =
     Inr (i2d_ecdsa_sig ssl (bignum (take (length signature div 2) signature) le)
                            (bignum (drop (length signature div 2) signature) le))"
  by (auto simp: convert_signature_to_der_def convert_rs_to_der_def Let_def)

lemma convert_signature_to_der_safe [simp]:
  "\<not> undefined_behaviour (convert_signature_to_der ssl signature le)"
  by (simp add: convert_signature_to_der_def convert_rs_to_der_def Let_def throw_if_safe)

lemma verify_signature_safe [simp]: "\<not> undefined_behaviour (verify_signature ssl k m s)"
  by (simp add: verify_signature_def Let_def andthen_safe)

section \<open>Splitting PEM text\<close>

definition pem_begin :: string where
  "pem_begin = ''-----BEGIN CERTIFICATE-----''"

definition pem_end :: string where
  "pem_end = ''-----END CERTIFICATE-----''"

text \<open>
  \<open>extract_pem_certificate(std::string_view&)\<close> returns the first certificate and what is left of the
  view: from the next \<open>begin\<close> on, or nothing.
\<close>

definition extract_pem_certificate :: "string \<Rightarrow> string \<times> string" where
  "extract_pem_certificate data =
     (if data = [] then ([], data)
      else case str_find data pem_begin 0 of
        None \<Rightarrow> ([], [])
      | Some from_pos \<Rightarrow> (case str_find data pem_end (from_pos + length pem_begin) of
          None \<Rightarrow> ([], [])
        | Some to_pos \<Rightarrow>
            (let to_pos = to_pos + length pem_end;
                 pem = take (to_pos - from_pos) (drop from_pos data)
             in (pem, case str_find data pem_begin to_pos of
                        None \<Rightarrow> [] | Some p \<Rightarrow> drop p data))))"

function extract_pem_certificates_loop :: "string \<Rightarrow> string list \<Rightarrow> string list" where
  "extract_pem_certificates_loop sv r =
     (if sv = [] then r
      else (let (pem, rest) = extract_pem_certificate sv
            in extract_pem_certificates_loop rest (if pem = [] then r else r @ [pem])))"
  by pat_completeness auto

text \<open>Every extraction shortens the view: the \<open>while (!sv.empty())\<close> loop ends.\<close>

lemma extract_pem_certificate_shorter:
  assumes "data \<noteq> []" and "extract_pem_certificate data = (pem, rest)"
  shows "length rest < length data"
proof -
  have "0 < to_pos + length pem_end" for to_pos by (simp add: pem_end_def)
  then have "str_find data pem_begin (to_pos + length pem_end) = Some p \<Longrightarrow> 0 < p" for to_pos p
    using str_find_Some by (metis not_gr_zero not_less)
  with assms show ?thesis
    by (auto simp: extract_pem_certificate_def Let_def split: option.splits if_splits)
qed

termination extract_pem_certificates_loop
  by (relation "measure (\<lambda>(sv, r). length sv)")
    (auto, metis extract_pem_certificate_shorter)

declare extract_pem_certificates_loop.simps [simp del]

definition extract_pem_certificates :: "bytes \<Rightarrow> string list" where
  "extract_pem_certificates data = extract_pem_certificates_loop (string_of data) []"

lemma extract_pem_certificate_pem:
  assumes "extract_pem_certificate data = (pem, rest)" and "pem \<noteq> []"
  shows "\<exists>from_pos. occurs_at data pem_begin from_pos
           \<and> pem = take (length pem) (drop from_pos data)
           \<and> take (length pem_begin) pem = pem_begin
           \<and> drop (length pem - length pem_end) pem = pem_end"
proof -
  from assms obtain f t where f: "str_find data pem_begin 0 = Some f"
    and t: "str_find data pem_end (f + length pem_begin) = Some t"
    and p: "pem = take (t + length pem_end - f) (drop f data)"
    by (auto simp: extract_pem_certificate_def Let_def split: option.splits if_splits)
  have of: "occurs_at data pem_begin f" and ot: "occurs_at data pem_end t"
    and ft: "f + length pem_begin \<le> t" using str_find_Some[OF f] str_find_Some[OF t] by auto
  have l: "length pem = t + length pem_end - f" using p ot ft by (auto simp: occurs_at_def)
  moreover have "take (length pem_begin) pem = pem_begin"
  proof -
    have "length pem_begin \<le> t + length pem_end - f" using ft by simp
    with p of show ?thesis by (simp add: occurs_at_def take_take min_absorb1)
  qed
  moreover have "drop (length pem - length pem_end) pem = pem_end"
  proof -
    have "drop (t - f) pem = take (length pem_end) (drop t data)"
      using p ft by (simp add: drop_take)
    with ot ft l show ?thesis by (simp add: occurs_at_def)
  qed
  ultimately show ?thesis using p of by (intro exI[of _ f]) simp
qed

end
