(* ===== verification/Asn1.thy ===== *)
theory Asn1
  imports Crypto
begin

text \<open>
  \<open>UqASN1_SEQUENCE\<close> of \<open>include/ravl/openssl.hpp\<close>: the accessors that read one element of a sequence of
  (object identifier, value) pairs, and the conversion of its value.  Decoding a sequence into its
  elements is OpenSSL's (\<open>d2i_sequence_any\<close>).
\<close>

datatype asn1_tag = V_SEQUENCE | V_OBJECT | V_INTEGER | V_ENUMERATED | V_OCTET_STRING | V_BOOLEAN | V_OTHER

fun asn1_type :: "asn1 \<Rightarrow> asn1_tag" where
  "asn1_type (A_Sequence c) = V_SEQUENCE"
| "asn1_type (A_Object oid) = V_OBJECT"
| "asn1_type (A_Integer i) = V_INTEGER"
| "asn1_type (A_Enumerated i) = V_ENUMERATED"
| "asn1_type (A_Octet_String d) = V_OCTET_STRING"
| "asn1_type (A_Boolean b) = V_BOOLEAN"
| "asn1_type A_Other = V_OTHER"

definition asn1_format_exception :: "string \<Rightarrow> failure" where
  "asn1_format_exception detail =
     Runtime_Error (''incorrectly formatted ASN.1 structure: '' @ detail)"

lemma asn1_format_exception_catchable [simp]: "catchable (asn1_format_exception d)"
  by (simp add: asn1_format_exception_def)

definition asn1_sequence :: "'h openssl \<Rightarrow> bytes \<Rightarrow> asn1 list result" where
  "asn1_sequence ssl os = checknull (d2i_sequence_any ssl os)"

text \<open>\<open>sk_ASN1_TYPE_value\<close> returns a null pointer for an index out of range, which the wrapper follows.\<close>

definition asn1_at :: "asn1 list \<Rightarrow> nat \<Rightarrow> asn1 result" where
  "asn1_at seq i = (if i < length seq then Inr (seq ! i)
     else Inl (Undefined_Behaviour ''null ASN1_TYPE''))"

text \<open>Only called on a value of type \<open>V_ASN1_SEQUENCE\<close>.\<close>

definition asn1_content :: "asn1 \<Rightarrow> bytes" where
  "asn1_content v = (case v of A_Sequence c \<Rightarrow> c | _ \<Rightarrow> [])"

definition asn1_is_object :: "asn1 \<Rightarrow> string \<Rightarrow> bool" where
  "asn1_is_object v oid = (v = A_Object oid)"

definition get_obj_value ::
  "'h openssl \<Rightarrow> asn1 list \<Rightarrow> nat \<Rightarrow> string \<Rightarrow> asn1_tag \<Rightarrow> asn1 result" where
  "get_obj_value ssl seq index expected_oid expected_value_type =
     andthen (asn1_at seq index) (\<lambda>type.
     throw_if (asn1_type type \<noteq> V_SEQUENCE) (asn1_format_exception ''ASN.1 object not a sequence'')
     (andthen (asn1_sequence ssl (asn1_content type)) (\<lambda>ss.
      throw_if (length ss \<noteq> 2) (asn1_format_exception ''ASN.1 sequence of invalid size'')
      (andthen (asn1_at ss 0) (\<lambda>tt.
       throw_if (asn1_type tt \<noteq> V_OBJECT) (asn1_format_exception ''ASN.1 object value of invalid type'')
       (throw_if (\<not> asn1_is_object tt expected_oid) (asn1_format_exception ''ASN.1 object with unexpected id'')
        (andthen (asn1_at ss 1) (\<lambda>tv.
         throw_if (asn1_type tv \<noteq> expected_value_type) (asn1_format_exception ''ASN.1 value of unexpected type'')
           (Inr tv)))))))))"

lemma get_obj_value_Inr:
  "get_obj_value ssl seq i oid ty = Inr v \<longleftrightarrow>
     (\<exists>c. i < length seq \<and> seq ! i = A_Sequence c
        \<and> d2i_sequence_any ssl c = Some [A_Object oid, v] \<and> asn1_type v = ty)"
proof
  assume "get_obj_value ssl seq i oid ty = Inr v"
  then obtain t ss tt where a: "asn1_at seq i = Inr t" "asn1_type t = V_SEQUENCE"
      "d2i_sequence_any ssl (asn1_content t) = Some ss" "length ss = 2" "asn1_at ss 0 = Inr tt"
      "tt = A_Object oid" "asn1_at ss 1 = Inr v" "asn1_type v = ty"
    unfolding get_obj_value_def andthen_Inr throw_if_Inr asn1_sequence_def checknull_Inr
      asn1_is_object_def not_not sum.inject by blast
  from a(2) obtain c where c: "t = A_Sequence c" by (cases t) auto
  from a(4) obtain x y where s: "ss = [x, y]" by (auto simp: numeral_2_eq_2 length_Suc_conv)
  from a(5,6,7) s have "ss = [A_Object oid, v]" by (simp add: asn1_at_def)
  with a c show "\<exists>c. i < length seq \<and> seq ! i = A_Sequence c
        \<and> d2i_sequence_any ssl c = Some [A_Object oid, v] \<and> asn1_type v = ty"
    by (auto simp: asn1_at_def asn1_content_def split: if_splits)
next
  assume "\<exists>c. i < length seq \<and> seq ! i = A_Sequence c
        \<and> d2i_sequence_any ssl c = Some [A_Object oid, v] \<and> asn1_type v = ty"
  then show "get_obj_value ssl seq i oid ty = Inr v"
    by (auto simp: get_obj_value_def asn1_at_def asn1_content_def asn1_sequence_def asn1_is_object_def)
qed

lemma get_obj_value_clean: "i < length seq \<Longrightarrow> clean (get_obj_value ssl seq i oid ty)"
  unfolding get_obj_value_def asn1_sequence_def
  by (auto simp: asn1_at_def intro!: clean_intros)

section \<open>Value conversions\<close>

definition asn1_int :: "asn1 \<Rightarrow> int" where
  "asn1_int v = (case v of A_Integer i \<Rightarrow> i | A_Enumerated i \<Rightarrow> i | A_Boolean i \<Rightarrow> i | _ \<Rightarrow> 0)"

definition asn1_octets :: "asn1 \<Rightarrow> bytes" where
  "asn1_octets v = (case v of A_Octet_String d \<Rightarrow> d | _ \<Rightarrow> [])"

text \<open>\<open>BN_bn2bin\<close> writes the magnitude of the number; a sign is lost.\<close>

definition get_uint8 :: "'h openssl \<Rightarrow> asn1 list \<Rightarrow> nat \<Rightarrow> string \<Rightarrow> byte result" where
  "get_uint8 ssl seq index expected_oid =
     andthen (get_obj_value ssl seq index expected_oid V_INTEGER) (\<lambda>v.
     let bn = nat \<bar>asn1_int v\<bar>; num_bytes = length (bn_bn2bin bn)
     in throw_if (num_bytes \<noteq> 1 \<and> bn \<noteq> 0)
          (asn1_format_exception ''ASN.1 integer value not a uint8_t'')
          (Inr (if bn = 0 then 0 else hd (bn_bn2bin bn))))"

text \<open>\<open>r[0] | r[1] << 8\<close> on the big-endian bytes of \<open>BN_bn2bin\<close>.\<close>

definition get_uint16 :: "'h openssl \<Rightarrow> asn1 list \<Rightarrow> nat \<Rightarrow> string \<Rightarrow> u16 result" where
  "get_uint16 ssl seq index expected_oid =
     andthen (get_obj_value ssl seq index expected_oid V_INTEGER) (\<lambda>v.
     let bn = nat \<bar>asn1_int v\<bar>; r = bn_bn2bin bn; num_bytes = length r
     in throw_if (num_bytes > 2) (asn1_format_exception ''ASN.1 integer value not a uint16_t'')
          (Inr (if num_bytes = 0 then 0
                else if num_bytes = 1 then ucast (r ! 0)
                else or (ucast (r ! 0)) (push_bit 8 (ucast (r ! 1))))))"

definition get_enum :: "'h openssl \<Rightarrow> asn1 list \<Rightarrow> nat \<Rightarrow> string \<Rightarrow> int result" where
  "get_enum ssl seq index expected_oid =
     andthen (get_obj_value ssl seq index expected_oid V_ENUMERATED) (\<lambda>v.
     let r = asn1_int v
     in throw_if (r < - (2 ^ 63) \<or> 2 ^ 63 \<le> r) openssl_error (Inr r))"

definition get_octet_string :: "'h openssl \<Rightarrow> asn1 list \<Rightarrow> nat \<Rightarrow> string \<Rightarrow> bytes result" where
  "get_octet_string ssl seq index expected_oid =
     andthen (get_obj_value ssl seq index expected_oid V_OCTET_STRING) (\<lambda>v. Inr (asn1_octets v))"

definition get_seq :: "'h openssl \<Rightarrow> asn1 list \<Rightarrow> nat \<Rightarrow> string \<Rightarrow> asn1 list result" where
  "get_seq ssl seq index expected_oid =
     andthen (get_obj_value ssl seq index expected_oid V_SEQUENCE) (\<lambda>v.
       asn1_sequence ssl (asn1_content v))"

definition get_bool :: "'h openssl \<Rightarrow> asn1 list \<Rightarrow> nat \<Rightarrow> string \<Rightarrow> bool result" where
  "get_bool ssl seq index expected_oid =
     andthen (get_obj_value ssl seq index expected_oid V_BOOLEAN) (\<lambda>v. Inr (asn1_int v \<noteq> 0))"

lemma bn_bn2bin_0 [simp]: "bn_bn2bin 0 = []"
  by (simp add: bn_bn2bin.simps)

lemma bn_bn2bin_1: "0 < n \<Longrightarrow> n < 256 \<Longrightarrow> bn_bn2bin n = [of_nat n]"
  by (simp add: bn_bn2bin.simps[of n] bn_bn2bin.simps[of "n div 256"])

lemma bn_bn2bin_2:
  "256 \<le> n \<Longrightarrow> n < 65536 \<Longrightarrow> bn_bn2bin n = [of_nat (n div 256), of_nat (n mod 256)]"
proof -
  assume "256 \<le> n" "n < 65536"
  then have "0 < n div 256" "n div 256 < 256" by (simp_all add: div_less_iff_less_mult div_greater_zero_iff)
  with \<open>256 \<le> n\<close> show ?thesis by (simp add: bn_bn2bin.simps[of n] bn_bn2bin_1)
qed

lemma be_nat_bn_bn2bin: "be_nat (bn_bn2bin n) = n"
proof (induction n rule: bn_bn2bin.induct)
  case (1 n)
  show ?case
  proof (cases "n = 0")
    case True
    then show ?thesis by (simp add: be_nat_def)
  next
    case False
    with 1 have "le_nat (rev (bn_bn2bin (n div 256))) = n div 256" by (simp add: be_nat_def)
    with False show ?thesis by (simp add: bn_bn2bin.simps[of n] be_nat_def)
  qed
qed

lemma length_bn_bn2bin: "n < 256 ^ k \<Longrightarrow> length (bn_bn2bin n) \<le> k"
proof (induction k arbitrary: n)
  case 0
  then show ?case by simp
next
  case (Suc k)
  then have "n div 256 < 256 ^ k" by (simp add: less_mult_imp_div_less mult.commute)
  from Suc.IH[OF this] show ?case by (simp add: bn_bn2bin.simps[of n])
qed

lemma length_bn_bn2bin_le: "length (bn_bn2bin n) \<le> k \<Longrightarrow> n < 256 ^ k"
proof -
  assume k: "length (bn_bn2bin n) \<le> k"
  have "n < 256 ^ length (bn_bn2bin n)"
    using le_nat_bound[of "rev (bn_bn2bin n)"] be_nat_bn_bn2bin[of n] by (simp add: be_nat_def)
  also have "\<dots> \<le> 256 ^ k" using k by (intro power_increasing) simp_all
  finally show ?thesis .
qed

lemma get_obj_value_integer:
  "get_obj_value ssl seq i oid V_INTEGER = Inr v \<Longrightarrow> \<exists>n. v = A_Integer n"
  unfolding get_obj_value_Inr by (cases v) auto

text \<open>A one-byte number is its own magnitude; anything larger is refused.\<close>

lemma get_uint8_eq:
  assumes "get_obj_value ssl seq i oid V_INTEGER = Inr (A_Integer n)"
  shows "get_uint8 ssl seq i oid =
     (if \<bar>n\<bar> < 256 then Inr (of_int \<bar>n\<bar>)
      else Inl (asn1_format_exception ''ASN.1 integer value not a uint8_t''))"
proof -
  let ?m = "nat \<bar>n\<bar>"
  have e: "get_uint8 ssl seq i oid = throw_if (length (bn_bn2bin ?m) \<noteq> 1 \<and> ?m \<noteq> 0)
          (asn1_format_exception ''ASN.1 integer value not a uint8_t'')
          (Inr (if ?m = 0 then 0 else hd (bn_bn2bin ?m)))"
    using assms by (simp add: get_uint8_def asn1_int_def Let_def)
  show ?thesis
  proof (cases "?m < 256")
    case True
    then have "\<bar>n\<bar> < 256" by linarith
    moreover have "(of_nat ?m :: byte) = of_int \<bar>n\<bar>" by (metis abs_ge_zero nat_0_le of_int_of_nat_eq)
    ultimately show ?thesis using e True bn_bn2bin_1[of ?m] by (cases "?m = 0") simp_all
  next
    case False
    then have "\<not> \<bar>n\<bar> < 256" "?m \<noteq> 0" by linarith+
    moreover have "length (bn_bn2bin ?m) \<noteq> 1" using False length_bn_bn2bin_le[of ?m 1] by auto
    ultimately show ?thesis using e by simp
  qed
qed

text \<open>Below 256 the order of the two bytes does not matter; from 256 on they come out swapped.\<close>

lemma get_uint16_eq:
  assumes "get_obj_value ssl seq i oid V_INTEGER = Inr (A_Integer n)"
  defines "m \<equiv> nat \<bar>n\<bar>"
  shows "get_uint16 ssl seq i oid =
     (if m < 65536 then Inr (of_nat (if m < 256 then m else m div 256 + 256 * (m mod 256)))
      else Inl (asn1_format_exception ''ASN.1 integer value not a uint16_t''))"
proof -
  let ?r = "bn_bn2bin m"
  have e: "get_uint16 ssl seq i oid = throw_if (length ?r > 2)
          (asn1_format_exception ''ASN.1 integer value not a uint16_t'')
          (Inr (if length ?r = 0 then 0 else if length ?r = 1 then ucast (?r ! 0)
                else or (ucast (?r ! 0)) (push_bit 8 (ucast (?r ! 1)))))"
    using assms(1) by (simp add: get_uint16_def asn1_int_def Let_def m_def)
  have ub: "ucast (of_nat k :: byte) = (of_nat k :: u16)" if "k < 256" for k
    using that by (simp add: unsigned_of_nat take_bit_nat_eq_self)
  consider "m = 0" | "0 < m" "m < 256" | "256 \<le> m" "m < 65536" | "65536 \<le> m" by linarith
  then show ?thesis
  proof cases
    case 1
    then show ?thesis using e by simp
  next
    case 2
    with ub[of m] 2 show ?thesis using e by (simp add: bn_bn2bin_1)
  next
    case 3
    let ?a = "m div 256" and ?b = "m mod 256"
    have ab: "?a < 256" "?b < 256" using 3 by (simp_all add: div_less_iff_less_mult)
    have "or (of_nat ?a) (push_bit 8 (of_nat ?b)) = (of_nat (or ?a (push_bit 8 ?b)) :: u16)"
      by (simp add: of_nat_or_eq of_nat_push_bit)
    also have "or ?a (push_bit 8 ?b) = ?a + 256 * ?b"
      using le_nat_snoc_or[of "[of_nat ?a]" "of_nat ?b"] ab by (simp add: unat_of_nat)
    finally have o: "or (of_nat ?a) (push_bit 8 (of_nat ?b)) = (of_nat (?a + 256 * ?b) :: u16)" .
    have "get_uint16 ssl seq i oid = Inr (or (of_nat ?a) (push_bit 8 (of_nat ?b)))"
      using e 3 ub[OF ab(1)] ub[OF ab(2)] by (simp add: bn_bn2bin_2)
    with o 3 show ?thesis by simp
  next
    case 4
    then have "length ?r > 2" using length_bn_bn2bin_le[of m 2] by (simp add: not_le[symmetric]) force
    with 4 show ?thesis using e by simp
  qed
qed

end
