(* ===== verification/SgxQuote.thy ===== *)
theory SgxQuote
  imports Crypto
begin

text \<open>
  \<open>include/ravl/sgx_defs.h\<close> and the quote parsing of \<open>include/ravl/sgx_impl.h\<close>: the layout of an ECDSA
  quote, \<open>parse_quote\<close>, the \<open>SignatureData\<close> constructor with its pointer checks, and the compression of
  the PCK certificate chain.  A pointer is an offset into the evidence; a read the code makes before
  checking the size can therefore be undefined.
\<close>

section \<open>Layout\<close>

definition sgx_quote_t_size :: nat where "sgx_quote_t_size = 436"
definition sgx_quote_t_signed_size :: nat where "sgx_quote_t_signed_size = sgx_quote_t_size - 4"
definition signature_len_offset :: nat where "signature_len_offset = 432"
definition report_body_offset :: nat where "report_body_offset = 48"
definition sgx_report_body_t_size :: nat where "sgx_report_body_t_size = 384"
definition sgx_ql_ecdsa_sig_data_t_size :: nat where "sgx_ql_ecdsa_sig_data_t_size = 576"
definition sgx_ql_auth_data_t_size :: nat where "sgx_ql_auth_data_t_size = 2"
definition sgx_ql_certification_data_t_size :: nat where "sgx_ql_certification_data_t_size = 6"
definition SGX_QUOTE_VERSION :: nat where "SGX_QUOTE_VERSION = 3"
definition SGX_QL_ALG_ECDSA_P256 :: nat where "SGX_QL_ALG_ECDSA_P256 = 2"
definition PCK_CERT_CHAIN :: nat where "PCK_CERT_CHAIN = 5"
definition SGX_FLAGS_DEBUG :: u64 where "SGX_FLAGS_DEBUG = 2"

lemmas sgx_layout = sgx_quote_t_size_def sgx_quote_t_signed_size_def signature_len_offset_def
  report_body_offset_def sgx_report_body_t_size_def sgx_ql_ecdsa_sig_data_t_size_def
  sgx_ql_auth_data_t_size_def sgx_ql_certification_data_t_size_def

definition sub :: "nat \<Rightarrow> nat \<Rightarrow> bytes \<Rightarrow> bytes" where
  "sub off n b = take n (drop off b)"

lemma peek_le_if:
  "peek_le b off n = (if off + n \<le> length b then Inr (le_nat (sub off n b))
     else Inl (Undefined_Behaviour ''read out of bounds''))"
  by (simp add: peek_le_def peek_def sub_def)

lemma length_sub [simp]: "length (sub off n b) = min n (length b - off)"
  by (simp add: sub_def)

definition le_word :: "bytes \<Rightarrow> 'w::len word" where
  "le_word b = of_nat (le_nat b)"

record sgx_report_body =
  rb_cpu_svn :: bytes
  rb_misc_select :: u32
  rb_isv_ext_prod_id :: bytes
  rb_flags :: u64
  rb_xfrm :: u64
  rb_mr_enclave :: bytes
  rb_mr_signer :: bytes
  rb_config_id :: bytes
  rb_isv_prod_id :: u16
  rb_isv_svn :: u16
  rb_config_svn :: u16
  rb_isv_family_id :: bytes
  rb_report_data :: bytes

text \<open>The fields of an \<open>sgx_report_body_t\<close> at its packed offsets.\<close>

definition report_body_of :: "bytes \<Rightarrow> sgx_report_body" where
  "report_body_of b = \<lparr>
     rb_cpu_svn = sub 0 16 b,
     rb_misc_select = le_word (sub 16 4 b),
     rb_isv_ext_prod_id = sub 32 16 b,
     rb_flags = le_word (sub 48 8 b),
     rb_xfrm = le_word (sub 56 8 b),
     rb_mr_enclave = sub 64 32 b,
     rb_mr_signer = sub 128 32 b,
     rb_config_id = sub 192 64 b,
     rb_isv_prod_id = le_word (sub 256 2 b),
     rb_isv_svn = le_word (sub 258 2 b),
     rb_config_svn = le_word (sub 260 2 b),
     rb_isv_family_id = sub 304 16 b,
     rb_report_data = sub 320 64 b\<rparr>"

section \<open>\<open>parse_quote\<close>\<close>

definition too_small :: failure where
  "too_small = Runtime_Error ''Unknown evidence format: too small to contain an sgx_quote_t''"

definition bad_version :: failure where
  "bad_version = Runtime_Error ''Unknown evidence format: unsupported quote version''"

definition bad_sign_type :: failure where
  "bad_sign_type = Runtime_Error ''Unknown evidence format: unsupported signing type''"

text \<open>The signature length is read through the pointer before the size of the evidence is checked.\<close>

definition parse_quote :: "bytes \<Rightarrow> span result" where
  "parse_quote evidence =
     andthen (peek_le evidence signature_len_offset 4) (\<lambda>signature_len.
     throw_if (length evidence < sgx_quote_t_size + signature_len) too_small
     (let r = (0, sgx_quote_t_signed_size) in
      andthen (verify_within r evidence) (\<lambda>_.
      andthen (peek_le evidence 0 2) (\<lambda>version.
      throw_if (version \<noteq> SGX_QUOTE_VERSION) bad_version
      (andthen (peek_le evidence 2 2) (\<lambda>sign_type.
      throw_if (sign_type \<noteq> SGX_QL_ALG_ECDSA_P256) bad_sign_type
        (Inr r)))))))"

lemma parse_quote_errors [simp]: "catchable too_small" "catchable bad_version" "catchable bad_sign_type"
  by (simp_all add: too_small_def bad_version_def bad_sign_type_def)

definition quote_header_ok :: "bytes \<Rightarrow> bool" where
  "quote_header_ok ev \<longleftrightarrow> sgx_quote_t_size + le_nat (sub signature_len_offset 4 ev) \<le> length ev
     \<and> sgx_quote_t_size \<le> length ev
     \<and> le_nat (sub 0 2 ev) = SGX_QUOTE_VERSION \<and> le_nat (sub 2 2 ev) = SGX_QL_ALG_ECDSA_P256"

lemma verify_within_quote:
  "sgx_quote_t_size \<le> length ev \<Longrightarrow> verify_within (0, sgx_quote_t_signed_size) ev = Inr ()"
  by (auto simp: verify_within_Inr sgx_layout)

lemma parse_quote_spec:
  "parse_quote ev =
     (if length ev < sgx_quote_t_size then Inl (Undefined_Behaviour ''read out of bounds'')
      else if length ev < sgx_quote_t_size + le_nat (sub signature_len_offset 4 ev) then Inl too_small
      else if le_nat (sub 0 2 ev) \<noteq> SGX_QUOTE_VERSION then Inl bad_version
      else if le_nat (sub 2 2 ev) \<noteq> SGX_QL_ALG_ECDSA_P256 then Inl bad_sign_type
      else Inr (0, sgx_quote_t_signed_size))"
proof (cases "length ev < sgx_quote_t_size")
  case True
  then show ?thesis by (simp add: parse_quote_def peek_le_def peek_def sgx_layout)
next
  case False
  then have "peek_le ev signature_len_offset 4 = Inr (le_nat (sub signature_len_offset 4 ev))"
    "peek_le ev 0 2 = Inr (le_nat (sub 0 2 ev))" "peek_le ev 2 2 = Inr (le_nat (sub 2 2 ev))"
    by (simp_all add: peek_le_if sgx_layout)
  with False verify_within_quote[of ev] show ?thesis
    by (simp add: parse_quote_def throw_if_def)
qed

lemma parse_quote_Inr:
  "parse_quote ev = Inr r \<longleftrightarrow> quote_header_ok ev \<and> r = (0, sgx_quote_t_signed_size)"
  by (auto simp: parse_quote_spec quote_header_ok_def not_less)

lemma parse_quote_undefined: "undefined_behaviour (parse_quote ev) \<longleftrightarrow> length ev < sgx_quote_t_size"
  by (auto simp: parse_quote_spec)

section \<open>\<open>SignatureData\<close>\<close>

record signature_data =
  sd_quote_signature :: span
  sd_public_key :: span
  sd_report :: span
  sd_report_signature :: span
  sd_report_data :: span
  sd_auth_data :: span
  sd_cd_raw :: nat
  sd_certification_data :: bytes

definition starts_with_dashes :: "bytes \<Rightarrow> bool" where
  "starts_with_dashes d \<longleftrightarrow> take 5 d = bytes_of ''-----''"

text \<open>
  \<open>while (BIO_ctrl_pending(bio) > 1) { UqX509 x509(bio, false); ... }\<close>.  The remaining bytes bound the
  number of rounds.
\<close>

fun der_to_pem_loop :: "'h openssl \<Rightarrow> nat \<Rightarrow> bytes \<Rightarrow> string \<Rightarrow> string result" where
  "der_to_pem_loop ssl fuel bio acc =
     (if length bio \<le> 1 then Inr acc
      else (case fuel of 0 \<Rightarrow> Inl Out_Of_Fuel
        | Suc fuel' \<Rightarrow> andthen (x509_read ssl bio False) (\<lambda>(x, n).
            der_to_pem_loop ssl fuel' (drop n bio) (acc @ x509_pem ssl x))))"

fun pem_to_der_loop :: "'h openssl \<Rightarrow> nat \<Rightarrow> bytes \<Rightarrow> bytes \<Rightarrow> bytes result" where
  "pem_to_der_loop ssl fuel bio acc =
     (if length bio \<le> 1 then Inr acc
      else (case fuel of 0 \<Rightarrow> Inl Out_Of_Fuel
        | Suc fuel' \<Rightarrow> andthen (x509_read ssl bio True) (\<lambda>(x, n).
            pem_to_der_loop ssl fuel' (drop n bio) (acc @ x509_der ssl x))))"

declare der_to_pem_loop.simps [simp del] pem_to_der_loop.simps [simp del]

definition normalise_certification_data :: "'h openssl \<Rightarrow> bytes \<Rightarrow> bytes result" where
  "normalise_certification_data ssl cd =
     (if length cd > 5 \<and> \<not> starts_with_dashes cd
      then andthen (der_to_pem_loop ssl (length cd) cd []) (\<lambda>pem. Inr (bytes_of pem))
      else Inr cd)"

text \<open>
  The constructor of \<open>SignatureData\<close>.  Its last span, the certification data, points into the evidence or,
  when it is not PEM, into a string of the object itself; the model keeps its bytes, which are read
  through a pointer with the size that the evidence states.
\<close>

definition new_signature_data :: "'h openssl \<Rightarrow> span \<Rightarrow> bytes \<Rightarrow> signature_data result" where
  "new_signature_data ssl quote evidence =
     (let sig_data = fst quote + sgx_quote_t_size;
          report = (sig_data + 128, sgx_report_body_t_size);
          report_signature = (sig_data + 512, 64);
          quote_signature = (sig_data, 64);
          public_key = (sig_data + 64, 64);
          report_data = (sig_data + 128 + 320, 64);
          ad_raw = sig_data + sgx_ql_ecdsa_sig_data_t_size
      in
      andthen (verify_within (sig_data, sgx_ql_ecdsa_sig_data_t_size) evidence) (\<lambda>_.
      andthen (verify_within report evidence) (\<lambda>_.
      andthen (verify_within report_signature evidence) (\<lambda>_.
      andthen (verify_within quote_signature evidence) (\<lambda>_.
      andthen (verify_within public_key evidence) (\<lambda>_.
      andthen (verify_within report_data evidence) (\<lambda>_.
      andthen (peek_le evidence ad_raw 2) (\<lambda>ad_size.
      let auth_data = (ad_raw + sgx_ql_auth_data_t_size, ad_size) in
      andthen (verify_within auth_data evidence) (\<lambda>_.
      throw_if (ad_size = 0) (Runtime_Error ''missing authentication data'')
      (let cd_raw = ad_raw + sgx_ql_auth_data_t_size + ad_size in
      andthen (peek_le evidence (cd_raw + 2) 4) (\<lambda>cd_size.
      throw_if (cd_size = 0) (Runtime_Error ''missing certification data'')
      (let certification_data = (cd_raw + sgx_ql_certification_data_t_size, cd_size) in
      andthen (verify_within certification_data evidence) (\<lambda>_.
      andthen (peek_le evidence cd_raw 2) (\<lambda>cert_key_type.
      throw_if (cert_key_type \<noteq> PCK_CERT_CHAIN)
        (Runtime_Error ''unsupported certification data key type'')
      (andthen (peek evidence (fst certification_data) (snd certification_data)) (\<lambda>raw.
       andthen (normalise_certification_data ssl raw) (\<lambda>cd.
       Inr \<lparr>sd_quote_signature = quote_signature, sd_public_key = public_key, sd_report = report,
            sd_report_signature = report_signature, sd_report_data = report_data,
            sd_auth_data = auth_data, sd_cd_raw = cd_raw, sd_certification_data = cd\<rparr>)))))))))))))))))"

text \<open>The same as a specification: the offsets of a quote whose signed part starts the evidence.\<close>

definition auth_size :: "bytes \<Rightarrow> nat" where
  "auth_size ev = le_nat (sub 1012 2 ev)"

definition cd_offset :: "bytes \<Rightarrow> nat" where
  "cd_offset ev = 1014 + auth_size ev"

definition cd_size :: "bytes \<Rightarrow> nat" where
  "cd_size ev = le_nat (sub (cd_offset ev + 2) 4 ev)"

definition raw_certification_data :: "bytes \<Rightarrow> bytes" where
  "raw_certification_data ev = sub (cd_offset ev + 6) (cd_size ev) ev"

definition signature_data_ok :: "bytes \<Rightarrow> bool" where
  "signature_data_ok ev \<longleftrightarrow> cd_offset ev + 6 + cd_size ev \<le> length ev \<and> 0 < auth_size ev \<and> 0 < cd_size ev
     \<and> le_nat (sub (cd_offset ev) 2 ev) = PCK_CERT_CHAIN"

definition signature_data_at :: "bytes \<Rightarrow> bytes \<Rightarrow> signature_data" where
  "signature_data_at ev cd = \<lparr>sd_quote_signature = (436, 64), sd_public_key = (500, 64),
     sd_report = (564, 384), sd_report_signature = (948, 64), sd_report_data = (884, 64),
     sd_auth_data = (1014, auth_size ev), sd_cd_raw = cd_offset ev, sd_certification_data = cd\<rparr>"

lemma new_signature_data_unfold:
  "new_signature_data ssl (0, m) ev =
    (if length ev < 1012 then Inl (Runtime_Error ''invalid pointer'')
     else if length ev < 1014 then Inl (Undefined_Behaviour ''read out of bounds'')
     else if length ev < 1014 + auth_size ev \<or> length ev = 1014 then Inl (Runtime_Error ''invalid pointer'')
     else if auth_size ev = 0 then Inl (Runtime_Error ''missing authentication data'')
     else if length ev < cd_offset ev + 6 then Inl (Undefined_Behaviour ''read out of bounds'')
     else if cd_size ev = 0 then Inl (Runtime_Error ''missing certification data'')
     else if length ev < cd_offset ev + 6 + cd_size ev then Inl (Runtime_Error ''invalid pointer'')
     else if le_nat (sub (cd_offset ev) 2 ev) \<noteq> PCK_CERT_CHAIN
       then Inl (Runtime_Error ''unsupported certification data key type'')
     else andthen (normalise_certification_data ssl (raw_certification_data ev))
       (\<lambda>cd. Inr (signature_data_at ev cd)))"
  by (cases "length ev < 1014")
    (simp_all add: new_signature_data_def Let_def verify_within_if peek_le_if sgx_layout throw_if_def
      cd_size_def cd_offset_def auth_size_def raw_certification_data_def signature_data_at_def peek_def sub_def)

lemma new_signature_data_Inr:
  "new_signature_data ssl (0, m) ev = Inr sd \<longleftrightarrow>
     signature_data_ok ev \<and> (\<exists>cd. normalise_certification_data ssl (raw_certification_data ev) = Inr cd
       \<and> sd = signature_data_at ev cd)"
  unfolding new_signature_data_unfold signature_data_ok_def cd_offset_def
  by (auto simp: andthen_Inr)

text \<open>
  The only reads outside the evidence are those of the two size fields, each made before its own
  check.
\<close>

lemma new_signature_data_undefined:
  assumes "clean (normalise_certification_data ssl (raw_certification_data ev))"
  shows "undefined_behaviour (new_signature_data ssl (0, m) ev) \<longleftrightarrow>
     length ev \<in> {1012, 1013}
     \<or> (0 < auth_size ev \<and> 1014 + auth_size ev \<le> length ev \<and> length ev < cd_offset ev + 6)"
  using clean_safe[OF assms] unfolding new_signature_data_unfold cd_offset_def
  by (auto simp: andthen_undefined)

section \<open>The conversion loops\<close>

text \<open>
  The certificates that a reader finds in some data, one after the other, until at most one byte is left;
  what the loops make of them.
\<close>

inductive certificates_in :: "(bytes \<Rightarrow> ('h \<times> nat) option) \<Rightarrow> bytes \<Rightarrow> 'h list \<Rightarrow> bool" for read where
  No_More: "length d \<le> 1 \<Longrightarrow> certificates_in read d []"
| One_More: "1 < length d \<Longrightarrow> read d = Some (x, n) \<Longrightarrow> certificates_in read (drop n d) xs \<Longrightarrow>
    certificates_in read d (x # xs)"

lemma der_to_pem_loop_certificates:
  "der_to_pem_loop ssl fuel bio acc = Inr t \<Longrightarrow>
   \<exists>xs. certificates_in (d2i_x509_bio ssl) bio xs \<and> t = acc @ stack_pem ssl xs"
proof (induction fuel arbitrary: bio acc)
  case 0
  then show ?case
    by (auto simp: der_to_pem_loop.simps stack_pem_def split: if_splits intro!: exI[of _ "[]"] No_More)
next
  case (Suc fuel)
  show ?case
  proof (cases "length bio \<le> 1")
    case True
    with Suc.prems show ?thesis
      by (auto simp: der_to_pem_loop.simps[of _ "Suc fuel"] stack_pem_def intro!: exI[of _ "[]"] No_More)
  next
    case False
    with Suc.prems obtain x n where x: "d2i_x509_bio ssl bio = Some (x, n)"
      and r: "der_to_pem_loop ssl fuel (drop n bio) (acc @ x509_pem ssl x) = Inr t"
      by (auto simp: der_to_pem_loop.simps[of _ "Suc fuel"] x509_read_def andthen_Inr checknull_Inr)
    from Suc.IH[OF r] obtain xs where "certificates_in (d2i_x509_bio ssl) (drop n bio) xs"
      "t = (acc @ x509_pem ssl x) @ stack_pem ssl xs" by blast
    with False x show ?thesis
      by (intro exI[of _ "x # xs"]) (auto simp: stack_pem_def intro: One_More)
  qed
qed

text \<open>What OpenSSL documents: reading a certificate consumes part of the input.\<close>

definition reads_consume :: "'h openssl \<Rightarrow> bool" where
  "reads_consume ssl \<longleftrightarrow> (\<forall>d h n. d2i_x509_bio ssl d = Some (h, n) \<longrightarrow> 0 < n)
     \<and> (\<forall>d h n. pem_read_bio_x509 ssl d = Some (h, n) \<longrightarrow> 0 < n)"

lemma der_to_pem_loop_clean:
  assumes "reads_consume ssl"
  shows "length bio \<le> fuel \<Longrightarrow> clean (der_to_pem_loop ssl fuel bio acc)"
proof (induction fuel arbitrary: bio acc)
  case 0
  then show ?case by (simp add: der_to_pem_loop.simps)
next
  case (Suc fuel)
  show ?case
  proof (cases "d2i_x509_bio ssl bio")
    case None
    then show ?thesis by (simp add: der_to_pem_loop.simps[of _ "Suc fuel"] x509_read_def)
  next
    case (Some p)
    then obtain x n where "d2i_x509_bio ssl bio = Some (x, n)" by (cases p) auto
    with assms Suc show ?thesis
      by (fastforce simp: der_to_pem_loop.simps[of _ "Suc fuel"] x509_read_def reads_consume_def)
  qed
qed

lemma pem_to_der_loop_clean:
  assumes "reads_consume ssl"
  shows "length bio \<le> fuel \<Longrightarrow> clean (pem_to_der_loop ssl fuel bio acc)"
proof (induction fuel arbitrary: bio acc)
  case 0
  then show ?case by (simp add: pem_to_der_loop.simps)
next
  case (Suc fuel)
  show ?case
  proof (cases "pem_read_bio_x509 ssl bio")
    case None
    then show ?thesis by (simp add: pem_to_der_loop.simps[of _ "Suc fuel"] x509_read_def)
  next
    case (Some p)
    then obtain x n where "pem_read_bio_x509 ssl bio = Some (x, n)" by (cases p) auto
    with assms Suc show ?thesis
      by (fastforce simp: pem_to_der_loop.simps[of _ "Suc fuel"] x509_read_def reads_consume_def)
  qed
qed

lemma normalise_certification_data_clean:
  "reads_consume ssl \<Longrightarrow> clean (normalise_certification_data ssl cd)"
  unfolding normalise_certification_data_def
  by (auto intro!: clean_andthen der_to_pem_loop_clean)

section \<open>Compressing the PCK certificate chain\<close>

text \<open>Stores through a pointer into the evidence, and \<open>std::vector::resize\<close>.\<close>

definition write_bytes :: "nat \<Rightarrow> bytes \<Rightarrow> bytes \<Rightarrow> bytes result" where
  "write_bytes off bs ev =
     (if off + length bs \<le> length ev then Inr (take off ev @ bs @ drop (off + length bs) ev)
      else Inl (Undefined_Behaviour ''write out of bounds''))"

definition vec_resize :: "nat \<Rightarrow> bytes \<Rightarrow> bytes result" where
  "vec_resize n v = throw_if (vector_max_size < n) (Logic_Error ''vector::_M_default_append'')
     (Inr (take n v @ replicate (n - length v) 0))"

definition size_minus :: "nat \<Rightarrow> nat \<Rightarrow> nat" where
  "size_minus a b = (a + size_max - b mod size_max) mod size_max"

text \<open>\<open>SignatureData::compress_pck_certificate_chain\<close>: the new evidence and the number of bytes saved.\<close>

definition sd_compress ::
  "'h openssl \<Rightarrow> signature_data \<Rightarrow> bytes \<Rightarrow> bool \<Rightarrow> (bytes \<times> nat) result" where
  "sd_compress ssl sd evidence resize_evidence =
     throw_if (evidence = []) (Runtime_Error ''empty evidence'')
     (let cd = sd_certification_data sd; cd_raw = sd_cd_raw sd
      in if length cd > 5 \<and> starts_with_dashes cd
         then (let sz_before = length cd in
           andthen (pem_to_der_loop ssl (length cd) cd []) (\<lambda>der_data.
           let sz_after = length der_data in
           andthen (write_bytes (cd_raw + 6) der_data evidence) (\<lambda>evidence.
           andthen (write_bytes (cd_raw + 2) (le_bytes 4 sz_after) evidence) (\<lambda>evidence.
           let r = size_minus sz_before sz_after
           in if resize_evidence
              then andthen (vec_resize (size_minus (length evidence) r) evidence) (\<lambda>evidence. Inr (evidence, r))
              else Inr (evidence, r)))))
         else Inr (evidence, 0))"

text \<open>
  \<open>sgx::Attestation::compress_pck_certificate_chain\<close>.  Its checks are the statements of
  \<open>parse_quote\<close>; \<open>quote\<close> dangles if the vector had to grow.
\<close>

definition compress_pck_certificate_chain :: "'h openssl \<Rightarrow> bytes \<Rightarrow> bool \<Rightarrow> bytes result" where
  "compress_pck_certificate_chain ssl evidence resize_evidence =
     andthen (parse_quote evidence) (\<lambda>pquote.
     andthen (new_signature_data ssl pquote evidence) (\<lambda>sd.
     andthen (sd_compress ssl sd evidence resize_evidence) (\<lambda>(evidence', k).
       if k = 0 then Inr evidence'
       else if length evidence < length evidence'
         then Inl (Undefined_Behaviour ''pointer into a reallocated vector'')
       else andthen (peek_le evidence' signature_len_offset 4) (\<lambda>signature_len.
         if k < signature_len
         then write_bytes signature_len_offset (le_bytes 4 (signature_len - k)) evidence'
         else Inr evidence'))))"

section \<open>Compression keeps the quote\<close>

text \<open>
  What OpenSSL and the encodings document: reading back the DER form of a certificate gives the
  certificate and consumes exactly that form, which starts with the tag of a sequence; PEM text is
  longer than the DER data it carries.
\<close>

definition x509_io_laws :: "'h openssl \<Rightarrow> bool" where
  "x509_io_laws ssl \<longleftrightarrow>
     (\<forall>x rest. d2i_x509_bio ssl (x509_der ssl x @ rest) = Some (x, length (x509_der ssl x)))
     \<and> (\<forall>x. 5 < length (x509_der ssl x) \<and> hd (x509_der ssl x) = 0x30)
     \<and> (\<forall>d x n. pem_read_bio_x509 ssl d = Some (x, n) \<longrightarrow> n \<le> length d \<and> length (x509_der ssl x) < n)"

definition der_all :: "'h openssl \<Rightarrow> 'h list \<Rightarrow> bytes" where
  "der_all ssl xs = concat (map (x509_der ssl) xs)"

lemma der_all_simps [simp]:
  "der_all ssl [] = []" "der_all ssl (x # xs) = x509_der ssl x @ der_all ssl xs"
  by (simp_all add: der_all_def)

lemma der_to_pem_loop_der_all:
  assumes "x509_io_laws ssl"
  shows "length (der_all ssl xs) \<le> fuel \<Longrightarrow>
     der_to_pem_loop ssl fuel (der_all ssl xs) acc = Inr (acc @ stack_pem ssl xs)"
proof (induction xs arbitrary: fuel acc)
  case Nil
  then show ?case by (simp add: der_to_pem_loop.simps stack_pem_def)
next
  case (Cons x xs)
  have l: "5 < length (x509_der ssl x)"
    and r: "d2i_x509_bio ssl (x509_der ssl x @ der_all ssl xs) = Some (x, length (x509_der ssl x))"
    using assms by (simp_all add: x509_io_laws_def)
  with Cons.prems obtain f where f: "fuel = Suc f" "length (der_all ssl xs) \<le> f" by (cases fuel) auto
  from l r Cons.IH[OF f(2)] f(1) show ?case
    by (simp add: der_to_pem_loop.simps[of _ "Suc f"] x509_read_def stack_pem_def)
qed

lemma pem_to_der_loop_Inr:
  assumes "x509_io_laws ssl"
  shows "pem_to_der_loop ssl fuel bio acc = Inr d \<Longrightarrow>
     \<exists>xs. d = acc @ der_all ssl xs \<and> certificates_in (pem_read_bio_x509 ssl) bio xs
        \<and> length (der_all ssl xs) \<le> length bio
        \<and> (1 < length bio \<longrightarrow> xs \<noteq> [] \<and> length (der_all ssl xs) < length bio)"
proof (induction fuel arbitrary: bio acc)
  case 0
  then show ?case by (auto simp: pem_to_der_loop.simps split: if_splits intro!: exI[of _ "[]"] No_More)
next
  case (Suc fuel)
  show ?case
  proof (cases "length bio \<le> 1")
    case True
    with Suc.prems show ?thesis
      by (auto simp: pem_to_der_loop.simps[of _ "Suc fuel"] intro!: exI[of _ "[]"] No_More)
  next
    case False
    with Suc.prems obtain x n where x: "pem_read_bio_x509 ssl bio = Some (x, n)"
      and r: "pem_to_der_loop ssl fuel (drop n bio) (acc @ x509_der ssl x) = Inr d"
      by (auto simp: pem_to_der_loop.simps[of _ "Suc fuel"] x509_read_def andthen_Inr checknull_Inr)
    from x assms have n: "n \<le> length bio" "length (x509_der ssl x) < n" by (auto simp: x509_io_laws_def)
    from Suc.IH[OF r] obtain xs where "d = (acc @ x509_der ssl x) @ der_all ssl xs"
      "certificates_in (pem_read_bio_x509 ssl) (drop n bio) xs" "length (der_all ssl xs) \<le> length bio - n" by auto
    with n x False show ?thesis by (intro exI[of _ "x # xs"]) (auto intro: One_More)
  qed
qed

lemma write_bytes_Inr:
  assumes "write_bytes off bs ev = Inr ev'"
  shows "length ev' = length ev" and "sub off (length bs) ev' = bs" and "off + length bs \<le> length ev"
    and "i + n \<le> off \<or> off + length bs \<le> i \<Longrightarrow> sub i n ev' = sub i n ev"
proof -
  from assms have ev': "ev' = take off ev @ bs @ drop (off + length bs) ev"
    and l: "off + length bs \<le> length ev" by (auto simp: write_bytes_def split: if_splits)
  from ev' l show "length ev' = length ev" "sub off (length bs) ev' = bs" "off + length bs \<le> length ev"
    by (simp_all add: sub_def)
  assume "i + n \<le> off \<or> off + length bs \<le> i"
  then show "sub i n ev' = sub i n ev"
  proof
    assume "i + n \<le> off"
    with ev' l show ?thesis by (simp add: sub_def take_drop add.commute min_absorb1)
  next
    assume "off + length bs \<le> i"
    with ev' l show ?thesis by (simp add: sub_def)
  qed
qed

lemma write_bytes_in_bounds: "off + length bs \<le> length ev \<Longrightarrow> \<exists>ev'. write_bytes off bs ev = Inr ev'"
  by (simp add: write_bytes_def)

lemma sub_take: "i + n \<le> m \<Longrightarrow> sub i n (take m v) = sub i n v"
  by (simp add: sub_def take_drop add.commute min_absorb1)

lemma le_nat_sub_bound: "le_nat (sub i n ev) < 256 ^ n"
proof -
  have "le_nat (sub i n ev) < 256 ^ length (sub i n ev)" by (rule le_nat_bound)
  also have "\<dots> \<le> 256 ^ n" by (rule power_increasing) simp_all
  finally show ?thesis .
qed

lemma size_minus_le: "b \<le> a \<Longrightarrow> a < size_max \<Longrightarrow> size_minus a b = a - b"
proof -
  assume "b \<le> a" and "a < size_max"
  then have "b mod size_max = b" and s: "a + size_max - b = (a - b) + size_max" by simp_all
  then have "size_minus a b = ((a - b) + size_max) mod size_max" by (simp only: size_minus_def s)
  also have "\<dots> = (a - b) mod size_max" by (rule mod_add_self2)
  also have "\<dots> = a - b" using \<open>a < size_max\<close> by (simp only: mod_less less_imp_diff_less)
  finally show ?thesis .
qed

lemma compress_layout:
  assumes "cd_raw + 6 + S \<le> length ev" and "D = length der" and "D < S"
    and "436 \<le> cd_raw" and "le_nat (sub 432 4 ev) = sl" and "length ev = 436 + sl"
    and "length ev \<le> vector_max_size" and "S < 256 ^ 4"
    and "sd_cd_raw sd = cd_raw" and "sd_certification_data sd = cd" and "length cd = S"
    and "5 < length cd" and "starts_with_dashes cd"
    and "pem_to_der_loop ssl (length cd) cd [] = Inr der"
  obtains ev2 ev3 where "sd_compress ssl sd ev True = Inr (ev2, S - D)"
    and "write_bytes 432 (le_bytes 4 (sl - (S - D))) ev2 = Inr ev3"
    and "length ev2 = length ev - (S - D)"
    and "length ev3 = length ev - (S - D)"
    and "\<And>i n. i + n \<le> cd_raw + 2 \<Longrightarrow> sub i n ev2 = sub i n ev"
    and "\<And>i n. i + n \<le> 432 \<or> 436 \<le> i \<and> i + n \<le> cd_raw + 2 \<Longrightarrow> sub i n ev3 = sub i n ev"
    and "sub 432 4 ev3 = le_bytes 4 (sl - (S - D))"
    and "sub (cd_raw + 2) 4 ev3 = le_bytes 4 D" and "sub (cd_raw + 6) D ev3 = der"
proof -
  let ?k = "S - D"
  obtain e1 where e1: "write_bytes (cd_raw + 6) der ev = Inr e1"
    using write_bytes_in_bounds[of "cd_raw + 6" der ev] assms(1-3) by auto
  note w1 = write_bytes_Inr[OF e1]
  obtain e2 where e2: "write_bytes (cd_raw + 2) (le_bytes 4 D) e1 = Inr e2"
    using write_bytes_in_bounds[of "cd_raw + 2" "le_bytes 4 D" e1] assms(1-3) w1(1) by auto
  note w2 = write_bytes_Inr[OF e2]
  have lt: "length ev < size_max" using assms(7) by (simp add: vector_max_size_def size_max_def)
  have k1: "size_minus S D = ?k" using assms(1,3) lt by (intro size_minus_le) auto
  have k2: "size_minus (length e2) ?k = length ev - ?k"
    using assms(1) lt w1(1) w2(1) by (subst size_minus_le) auto
  let ?e3 = "take (length ev - ?k) e2"
  have r: "vec_resize (length ev - ?k) e2 = Inr ?e3"
    using assms(7) w1(1) w2(1) by (simp add: vec_resize_def throw_if_def)
  have ne: "ev \<noteq> []" using assms(6) by auto
  have c: "sd_compress ssl sd ev True = Inr (?e3, ?k)"
    unfolding sd_compress_def using ne assms(2,9-14) e1 e2 k1 k2 r
    by (simp add: Let_def throw_if_def)
  have l3: "length ?e3 = length ev - ?k" using w1(1) w2(1) by simp
  have "432 + length (le_bytes 4 (sl - ?k)) \<le> length ?e3" using l3 assms(1,4) by simp
  then obtain e4 where e4: "write_bytes 432 (le_bytes 4 (sl - ?k)) ?e3 = Inr e4"
    using write_bytes_in_bounds by metis
  note w4 = write_bytes_Inr[OF e4]
  have s3: "sub i n ?e3 = sub i n ev" if "i + n \<le> cd_raw + 2" for i n
    using that assms(1,3) w1(4)[of i n] w2(4)[of i n] by (simp add: sub_take)
  have s4: "sub i n e4 = sub i n ev" if "i + n \<le> 432 \<or> 436 \<le> i \<and> i + n \<le> cd_raw + 2" for i n
    using that assms(4) s3[of i n] w4(4)[of i n] by auto
  have a: "sub (cd_raw + 2) 4 e4 = le_bytes 4 D"
    using assms(1,3,4) w4(4)[of "cd_raw + 2" 4] w2(2) by (simp add: sub_take)
  have b: "sub (cd_raw + 6) D e4 = der"
    using assms(1-4) w4(4)[of "cd_raw + 6" D] w2(4)[of "cd_raw + 6" D] w1(2) by (simp add: sub_take)
  show thesis
    by (rule that[OF c e4 l3 _ s3 s4 _ a b]) (use w4(1,2) l3 in simp_all)
qed

text \<open>
  A compressed quote is still a quote: its signed part is untouched, and \<open>SignatureData\<close> finds the same
  spans and a certificate chain made of the certificates the original one contained.
\<close>

lemma compress_correct:
  assumes laws: "x509_io_laws ssl"
    and ok: "compress_pck_certificate_chain ssl ev True = Inr ev'"
    and pem: "starts_with_dashes (raw_certification_data ev)" "5 < length (raw_certification_data ev)"
    and sz: "length ev = 436 + le_nat (sub 432 4 ev)" "length ev \<le> vector_max_size"
  shows "\<exists>xs. certificates_in (pem_read_bio_x509 ssl) (raw_certification_data ev) xs
     \<and> xs \<noteq> [] \<and> raw_certification_data ev' = der_all ssl xs
     \<and> length ev' < length ev \<and> sub 0 432 ev' = sub 0 432 ev
     \<and> parse_quote ev' = parse_quote ev
     \<and> new_signature_data ssl (0, 432) ev' =
         Inr (signature_data_at ev (bytes_of (stack_pem ssl xs)))"
proof -
  let ?cd = "raw_certification_data ev" and ?S = "cd_size ev" and ?o = "cd_offset ev"
  let ?sl = "le_nat (sub 432 4 ev)"
  from ok obtain q sd where q: "parse_quote ev = Inr q" and "new_signature_data ssl q ev = Inr sd"
    unfolding compress_pck_certificate_chain_def andthen_Inr by blast
  then have q0: "q = (0, 432)" "quote_header_ok ev" and sd: "new_signature_data ssl (0, 432) ev = Inr sd"
    by (auto simp: parse_quote_Inr sgx_layout)
  from sd pem have sok: "signature_data_ok ev" and sde: "sd = signature_data_at ev ?cd"
    by (auto simp: new_signature_data_Inr normalise_certification_data_def)
  have S: "length ?cd = ?S" using sok by (auto simp: raw_certification_data_def signature_data_ok_def)
  have bound: "?S < 256 ^ 4" unfolding cd_size_def by (rule le_nat_sub_bound)
  note ok' = ok[unfolded compress_pck_certificate_chain_def q andthen_simps sd[folded q0(1)]]
  from ok' obtain evk where evk: "sd_compress ssl sd ev True = Inr evk"
    unfolding andthen_Inr by blast
  have "sd_certification_data sd = ?cd" by (simp add: sde signature_data_at_def)
  with evk pem obtain der where der: "pem_to_der_loop ssl (length ?cd) ?cd [] = Inr der"
    unfolding sd_compress_def by (auto simp: Let_def throw_if_Inr andthen_Inr)
  from pem_to_der_loop_Inr[OF laws der] pem(2) obtain xs where
    xs: "der = der_all ssl xs" "xs \<noteq> []" "length der < ?S"
      "certificates_in (pem_read_bio_x509 ssl) ?cd xs"
    using S by auto
  let ?D = "length der"
  have o6: "?o + 6 + ?S \<le> length ev" using sok by (simp add: signature_data_ok_def)
  have o436: "436 \<le> ?o" by (simp add: cd_offset_def)
  obtain e2 e3 where L: "sd_compress ssl sd ev True = Inr (e2, ?S - ?D)"
      "write_bytes 432 (le_bytes 4 (?sl - (?S - ?D))) e2 = Inr e3"
      "length e2 = length ev - (?S - ?D)" "length e3 = length ev - (?S - ?D)"
      "\<And>i n. i + n \<le> ?o + 2 \<Longrightarrow> sub i n e2 = sub i n ev"
      "\<And>i n. i + n \<le> 432 \<or> 436 \<le> i \<and> i + n \<le> ?o + 2 \<Longrightarrow> sub i n e3 = sub i n ev"
      "sub 432 4 e3 = le_bytes 4 (?sl - (?S - ?D))"
      "sub (?o + 2) 4 e3 = le_bytes 4 ?D" "sub (?o + 6) ?D e3 = der"
    by (rule compress_layout[OF o6 refl xs(3) o436 refl sz(1,2) bound _ _ S pem(2,1) der, of sd])
      (auto simp: sde signature_data_at_def)
  have k: "?S - ?D \<noteq> 0" "?S - ?D < ?sl" using xs(3) o6 sz(1) by (auto simp: cd_offset_def)
  have "peek_le e2 432 4 = Inr ?sl"
    using L(3) L(5)[of 432 4] o6 xs(3) o436 by (simp add: peek_le_if)
  have ev': "ev' = e3"
  proof -
    obtain n where n: "n = ?S - ?D" by blast
    have "\<not> length ev < length ev - n" by simp
    with ok'[unfolded L(1) andthen_simps] L(2,3) k \<open>peek_le e2 432 4 = Inr ?sl\<close>
    show ?thesis unfolding n[symmetric] signature_len_offset_def by simp
  qed
  have dl: "xs = x # ys \<Longrightarrow> 5 < ?D \<and> \<not> starts_with_dashes der" for x ys
  proof -
    assume "xs = x # ys"
    moreover have "5 < length (x509_der ssl x)" "hd (x509_der ssl x) = 0x30"
      using laws by (simp_all add: x509_io_laws_def)
    moreover have "bytes_of ''-----'' = [0x2D, 0x2D, 0x2D, 0x2D, 0x2D]" by (simp add: bytes_of_def byte_of_char_def)
    ultimately show ?thesis
      using xs(1) by (cases "x509_der ssl x") (auto simp: starts_with_dashes_def)
  qed
  have D5: "5 < ?D" "\<not> starts_with_dashes der" using xs(2) dl by (cases xs; blast)+
  have Db: "?D < 256 ^ 4" "?sl - (?S - ?D) < 256 ^ 4"
    using bound xs(3) le_nat_sub_bound[of 432 4 ev] by linarith+
  have a: "auth_size ev' = auth_size ev" using L(6)[of 1012 2] by (simp add: ev' auth_size_def cd_offset_def)
  then have o': "cd_offset ev' = ?o" by (simp add: cd_offset_def)
  have s': "cd_size ev' = ?D" using L(8) Db(1) unfolding cd_size_def o' unfolding ev' by (simp add: le_nat_le_bytes)
  have raw: "raw_certification_data ev' = der"
    using L(9) unfolding raw_certification_data_def o' s' unfolding ev' .
  have sl': "le_nat (sub 432 4 ev') = ?sl - (?S - ?D)" using L(7) Db(2) by (simp add: ev' le_nat_le_bytes)
  have hdr: "quote_header_ok ev'"
    using q0(2) L(4) L(6)[of 0 2] L(6)[of 2 2] o6 o436 xs(3) k(2) sz(1)
    unfolding quote_header_ok_def sgx_layout sl' unfolding ev' by (intro conjI) simp_all
  have "sub (?o) 2 ev' = sub ?o 2 ev" using L(6)[of ?o 2] o436 by (simp add: ev')
  then have "signature_data_ok ev'"
    using sok L(4) o6 xs(3) D5(1) unfolding signature_data_ok_def a o' s' unfolding ev'
    by (intro conjI) (simp_all, auto)
  moreover have "normalise_certification_data ssl der = Inr (bytes_of (stack_pem ssl xs))"
    using D5 der_to_pem_loop_der_all[OF laws, of xs "length der" "[]"] xs(1)
    by (simp add: normalise_certification_data_def)
  ultimately have "new_signature_data ssl (0, 432) ev' = Inr (signature_data_at ev' (bytes_of (stack_pem ssl xs)))"
    unfolding new_signature_data_Inr raw by blast
  moreover have "signature_data_at ev' cd = signature_data_at ev cd" for cd
    by (simp add: signature_data_at_def a o')
  moreover have "parse_quote ev' = parse_quote ev" using hdr q0(2) by (metis parse_quote_Inr)
  moreover have "sub 0 432 ev' = sub 0 432 ev" using L(6)[of 0 432] by (simp add: ev')
  moreover have "length ev' < length ev" using L(4) k(1) o6 o436 by (simp add: ev')
  ultimately show ?thesis using xs raw by auto
qed

text \<open>Compression of a quote whose certificates can all be read returns.\<close>

lemma compress_returns:
  assumes laws: "x509_io_laws ssl" and hdr: "quote_header_ok ev" and sok: "signature_data_ok ev"
    and pem: "starts_with_dashes (raw_certification_data ev)" "5 < length (raw_certification_data ev)"
    and der: "is_ok (pem_to_der_loop ssl (length (raw_certification_data ev)) (raw_certification_data ev) [])"
    and sz: "length ev = 436 + le_nat (sub 432 4 ev)" "length ev \<le> vector_max_size"
  shows "is_ok (compress_pck_certificate_chain ssl ev True)"
proof -
  let ?cd = "raw_certification_data ev" and ?S = "cd_size ev" and ?o = "cd_offset ev"
  let ?sl = "le_nat (sub 432 4 ev)" and ?sd = "signature_data_at ev (raw_certification_data ev)"
  have q: "parse_quote ev = Inr (0, 432)" using hdr by (simp add: parse_quote_Inr sgx_layout)
  have sd: "new_signature_data ssl (0, 432) ev = Inr ?sd"
    using sok pem by (simp add: new_signature_data_Inr normalise_certification_data_def)
  have S: "length ?cd = ?S" using sok by (auto simp: raw_certification_data_def signature_data_ok_def)
  have bound: "?S < 256 ^ 4" unfolding cd_size_def by (rule le_nat_sub_bound)
  obtain d where d: "pem_to_der_loop ssl (length ?cd) ?cd [] = Inr d" using der by (auto simp: is_ok_iff)
  from pem_to_der_loop_Inr[OF laws d] pem(2) have D: "length d < ?S" using S by auto
  have o6: "?o + 6 + ?S \<le> length ev" using sok by (simp add: signature_data_ok_def)
  have o436: "436 \<le> ?o" by (simp add: cd_offset_def)
  obtain e2 e3 where L: "sd_compress ssl ?sd ev True = Inr (e2, ?S - length d)"
      "write_bytes 432 (le_bytes 4 (?sl - (?S - length d))) e2 = Inr e3"
      "length e2 = length ev - (?S - length d)"
      "\<And>i n. i + n \<le> ?o + 2 \<Longrightarrow> sub i n e2 = sub i n ev"
    by (rule compress_layout[OF o6 refl D o436 refl sz bound _ _ S pem(2,1) d, of ?sd])
      (auto simp: signature_data_at_def)
  have k: "?S - length d \<noteq> 0" "?S - length d < ?sl" using D o6 sz(1) by (auto simp: cd_offset_def)
  have "peek_le e2 432 4 = Inr ?sl"
    using L(3) L(4)[of 432 4] o6 D o436 by (simp add: peek_le_if)
  moreover have "\<not> length ev < length e2" using L(3) by simp
  ultimately show ?thesis
    using L(2) k unfolding compress_pck_certificate_chain_def q andthen_simps sd L(1) signature_len_offset_def
    by simp
qed

section \<open>Compressing once more\<close>

text \<open>PEM text is read back, and nothing behind it.\<close>

definition pem_io_law :: "'h openssl \<Rightarrow> bool" where
  "pem_io_law ssl \<longleftrightarrow>
     (\<forall>x rest. pem_read_bio_x509 ssl (bytes_of (x509_pem ssl x) @ rest) = Some (x, length (x509_pem ssl x)))
     \<and> (\<forall>x. starts_with_dashes (bytes_of (x509_pem ssl x)))"

lemma pem_io_lawD:
  assumes "pem_io_law ssl"
  shows "pem_read_bio_x509 ssl (bytes_of (x509_pem ssl x) @ rest) = Some (x, length (x509_pem ssl x))"
    and "starts_with_dashes (bytes_of (x509_pem ssl x))"
  using assms unfolding pem_io_law_def by blast+

lemma x509_pem_longer:
  assumes "x509_io_laws ssl" and "pem_io_law ssl"
  shows "length (x509_der ssl x) < length (x509_pem ssl x)" and "5 < length (x509_der ssl x)"
  using assms(1) pem_io_lawD(1)[OF assms(2), of x "[]"] unfolding x509_io_laws_def by blast+

lemma stack_pem_longer:
  assumes "x509_io_laws ssl" and "pem_io_law ssl"
  shows "length (der_all ssl xs) \<le> length (stack_pem ssl xs)"
    and "xs \<noteq> [] \<Longrightarrow> length (der_all ssl xs) < length (stack_pem ssl xs)"
proof -
  show le: "length (der_all ssl xs) \<le> length (stack_pem ssl xs)" for xs
  proof (induction xs)
    case (Cons x xs)
    with x509_pem_longer(1)[OF assms, of x] show ?case by (simp add: stack_pem_def)
  qed (simp add: stack_pem_def)
  show "length (der_all ssl xs) < length (stack_pem ssl xs)" if "xs \<noteq> []"
  proof (cases xs)
    case (Cons x ys)
    with x509_pem_longer(1)[OF assms, of x] le[of ys] show ?thesis by (simp add: stack_pem_def)
  qed (use that in simp)
qed

lemma pem_to_der_loop_stack_pem:
  assumes "x509_io_laws ssl" and "pem_io_law ssl"
  shows "length (stack_pem ssl xs) \<le> fuel \<Longrightarrow>
     pem_to_der_loop ssl fuel (bytes_of (stack_pem ssl xs)) acc = Inr (acc @ der_all ssl xs)"
proof (induction xs arbitrary: fuel acc)
  case Nil
  then show ?case by (simp add: pem_to_der_loop.simps stack_pem_def)
next
  case (Cons x xs)
  have l: "1 < length (x509_pem ssl x)" using x509_pem_longer[OF assms, of x] by linarith
  have b: "bytes_of (stack_pem ssl (x # xs)) = bytes_of (x509_pem ssl x) @ bytes_of (stack_pem ssl xs)"
    by (simp add: stack_pem_def bytes_of_def)
  from Cons.prems l obtain f where f: "fuel = Suc f" "length (stack_pem ssl xs) \<le> f"
    by (cases fuel) (auto simp: stack_pem_def)
  from l Cons.IH[OF f(2)] f(1) pem_io_lawD(1)[OF assms(2), of x] show ?case
    unfolding b by (simp add: pem_to_der_loop.simps[of _ "Suc f"] x509_read_def)
qed

lemma write_bytes_same: "off + length bs \<le> length ev \<Longrightarrow> sub off (length bs) ev = bs \<Longrightarrow> write_bytes off bs ev = Inr ev"
  by (simp add: write_bytes_def sub_def) (metis append_take_drop_id drop_drop add.commute)

text \<open>
  The size before the compression is that of the PEM text in the object's own string, which the evidence
  never contained: a quote whose chain is DER already loses as many bytes at its end.
\<close>

lemma compress_der_truncates:
  assumes laws: "x509_io_laws ssl" "pem_io_law ssl"
    and hdr: "quote_header_ok ev" and sok: "signature_data_ok ev"
    and raw: "raw_certification_data ev = der_all ssl xs"
    and sz: "length ev = 436 + le_nat (sub 432 4 ev)" "length ev \<le> vector_max_size"
      "length ev = cd_offset ev + 6 + cd_size ev"
    and k: "k = length (stack_pem ssl xs) - cd_size ev" "k < le_nat (sub 432 4 ev)"
  shows "0 < k \<and> (\<exists>ev'. compress_pck_certificate_chain ssl ev True = Inr ev' \<and> length ev' = length ev - k
     \<and> \<not> is_ok (new_signature_data ssl (0, 432) ev'))"
proof -
  let ?S = "cd_size ev" and ?o = "cd_offset ev" and ?sl = "le_nat (sub 432 4 ev)"
  let ?pem = "bytes_of (stack_pem ssl xs)" and ?sd = "signature_data_at ev (bytes_of (stack_pem ssl xs))"
  have S: "length (der_all ssl xs) = ?S" "0 < ?S"
    using sok raw by (auto simp: raw_certification_data_def signature_data_ok_def simp flip: raw)
  have xs: "xs \<noteq> []" using S by auto
  then obtain x ys where x: "xs = x # ys" by (cases xs) auto
  have S5: "5 < ?S" using S(1) x509_pem_longer(2)[OF laws, of x] x by simp
  have k0: "0 < k" "length ?pem = ?S + k"
    using stack_pem_longer(2)[OF laws xs] k(1) S(1) by simp_all
  have nd: "\<not> starts_with_dashes (der_all ssl xs)"
  proof -
    have "hd (x509_der ssl x) = 0x30" using laws(1) unfolding x509_io_laws_def by blast
    moreover have "x509_der ssl x \<noteq> []" using x509_pem_longer(2)[OF laws, of x] by auto
    moreover have "bytes_of ''-----'' = [0x2D, 0x2D, 0x2D, 0x2D, 0x2D]" by (simp add: bytes_of_def byte_of_char_def)
    ultimately show ?thesis using x by (cases "x509_der ssl x") (auto simp: starts_with_dashes_def)
  qed
  have "normalise_certification_data ssl (der_all ssl xs) = Inr ?pem"
    using nd S S5 der_to_pem_loop_der_all[OF laws(1), of xs "?S" "[]"] by (simp add: normalise_certification_data_def)
  then have sd: "new_signature_data ssl (0, 432) ev = Inr ?sd" using sok raw by (simp add: new_signature_data_Inr)
  have pd: "starts_with_dashes ?pem" "5 < length ?pem"
  proof -
    have l: "5 \<le> length (x509_pem ssl x)" using x509_pem_longer[OF laws, of x] by linarith
    have "take 5 ?pem = take 5 (bytes_of (x509_pem ssl x))"
      using l by (simp add: x stack_pem_def bytes_of_def)
    then show "starts_with_dashes ?pem" using pem_io_lawD(2)[OF laws(2), of x] by (simp add: starts_with_dashes_def)
    show "5 < length ?pem" using k0(2) S5 by simp
  qed
  have der: "pem_to_der_loop ssl (length ?pem) ?pem [] = Inr (der_all ssl xs)"
    using pem_to_der_loop_stack_pem[OF laws, of xs "length ?pem" "[]"] by simp
  have w1: "write_bytes (?o + 6) (der_all ssl xs) ev = Inr ev"
    by (rule write_bytes_same) (use S(1) sz(3) raw in \<open>simp_all add: raw_certification_data_def\<close>)
  have w2: "write_bytes (?o + 2) (le_bytes 4 ?S) ev = Inr ev"
  proof (rule write_bytes_same)
    have "length (sub (?o + 2) 4 ev) = 4" using sz(3) by simp
    then show "sub (?o + 2) (length (le_bytes 4 ?S)) ev = le_bytes 4 ?S"
      unfolding cd_size_def using le_bytes_le_nat[of "sub (?o + 2) 4 ev"] by simp
  qed (use sz(3) in simp)
  have lk: "k \<le> length ev" using k(2) sz(1) by simp
  have lS: "?S \<le> length ev" using sz(3) by simp
  have "length ?pem < size_max"
    unfolding k0(2) using lk lS sz(2) by (simp add: vector_max_size_def size_max_def)
  then have m1: "size_minus (length ?pem) ?S = k" using size_minus_le[of ?S "length ?pem"] k0(2) by simp
  have "length ev < size_max" using sz(2) by (simp add: vector_max_size_def size_max_def)
  then have m2: "size_minus (length ev) k = length ev - k" by (rule size_minus_le[OF lk])
  let ?e = "take (length ev - k) ev"
  have r: "vec_resize (length ev - k) ev = Inr ?e"
    using sz(2) by (simp add: vec_resize_def throw_if_def)
  have "ev \<noteq> []" using sz(1) by auto
  then have c: "sd_compress ssl ?sd ev True = Inr (?e, k)"
    unfolding sd_compress_def using pd der w1 w2 m1 m2 r S(1)
    by (simp add: Let_def throw_if_def signature_data_at_def)
  have le: "436 \<le> length ?e" using k(2) sz(1) by simp
  then have p: "peek_le ?e 432 4 = Inr ?sl" using sub_take[of 432 4 "length ev - k" ev] by (simp add: peek_le_if)
  have "432 + length (le_bytes 4 (?sl - k)) \<le> length ?e" using le by simp
  then obtain ev' where w: "write_bytes 432 (le_bytes 4 (?sl - k)) ?e = Inr ev'"
    using write_bytes_in_bounds by metis
  note w' = write_bytes_Inr[OF w]
  have q: "parse_quote ev = Inr (0, 432)" using hdr by (simp add: parse_quote_Inr sgx_layout)
  have "compress_pck_certificate_chain ssl ev True = Inr ev'"
    using k0(1) k(2) p w unfolding compress_pck_certificate_chain_def q andthen_simps sd c signature_len_offset_def
    by simp
  moreover have l: "length ev' = length ev - k" using w'(1) by simp
  moreover have "\<not> signature_data_ok ev'"
  proof
    assume ok: "signature_data_ok ev'"
    have keep: "sub i n ev' = sub i n ev" if "436 \<le> i" "i + n \<le> length ev'" for i n
      using that l w'(4)[of i n] by (simp add: sub_take)
    have b: "cd_offset ev' + 6 + cd_size ev' \<le> length ev'" using ok by (simp add: signature_data_ok_def)
    then have "auth_size ev' = auth_size ev" using keep[of 1012 2] by (simp add: auth_size_def cd_offset_def)
    then have o: "cd_offset ev' = ?o" by (simp add: cd_offset_def)
    then have "cd_size ev' = ?S" using b keep[of "?o + 2" 4] by (simp add: cd_size_def cd_offset_def)
    with b o sz(3) l k0(1) lk show False by linarith
  qed
  then have "\<not> is_ok (new_signature_data ssl (0, 432) ev')" by (auto simp: is_ok_iff new_signature_data_Inr)
  ultimately show ?thesis using k0(1) by blast
qed

end
