(* ===== verification/StdMap.thy ===== *)
theory StdMap
  imports Prelude
begin

text \<open>
  \<open>std::map\<close> and \<open>std::unordered_map\<close> as the code uses them: \<open>find\<close>, \<open>emplace\<close> (which keeps an
  existing element and reports whether it inserted), \<open>erase\<close> and \<open>size\<close>.  The contract the clients
  rely on is the locale \<open>keyed_store\<close>; the association lists below implement it.
\<close>

type_synonym ('k, 'v) std_map = "('k \<times> 'v) list"

definition map_find :: "'k \<Rightarrow> ('k, 'v) std_map \<Rightarrow> 'v option" where
  "map_find k m = map_of m k"

definition emplace :: "'k \<Rightarrow> 'v \<Rightarrow> ('k, 'v) std_map \<Rightarrow> ('k, 'v) std_map \<times> bool" where
  "emplace k v m = (case map_find k m of Some _ \<Rightarrow> (m, False) | None \<Rightarrow> (m @ [(k, v)], True))"

text \<open>Assignment through an iterator or \<open>operator[]\<close>.\<close>

fun assign :: "'k \<Rightarrow> 'v \<Rightarrow> ('k, 'v) std_map \<Rightarrow> ('k, 'v) std_map" where
  "assign k v [] = [(k, v)]"
| "assign k v ((k', v') # m) = (if k = k' then (k, v) # m else (k', v') # assign k v m)"

definition erase :: "'k \<Rightarrow> ('k, 'v) std_map \<Rightarrow> ('k, 'v) std_map" where
  "erase k m = filter (\<lambda>(k', _). k' \<noteq> k) m"

definition map_wf :: "('k, 'v) std_map \<Rightarrow> bool" where
  "map_wf m = distinct (map fst m)"

definition keys :: "('k, 'v) std_map \<Rightarrow> 'k set" where
  "keys m = fst ` set m"

locale keyed_store =
  fixes look :: "'k \<Rightarrow> 'm \<Rightarrow> 'v option"
    and ins :: "'k \<Rightarrow> 'v \<Rightarrow> 'm \<Rightarrow> 'm \<times> bool"
    and upd :: "'k \<Rightarrow> 'v \<Rightarrow> 'm \<Rightarrow> 'm"
    and del :: "'k \<Rightarrow> 'm \<Rightarrow> 'm"
    and size_of :: "'m \<Rightarrow> nat"
    and dom_of :: "'m \<Rightarrow> 'k set"
    and inv :: "'m \<Rightarrow> bool"
  assumes look_dom: "look k m = None \<longleftrightarrow> k \<notin> dom_of m"
    and look_ins: "look k (fst (ins k' v m)) =
        (if k = k' then (case look k m of None \<Rightarrow> Some v | Some w \<Rightarrow> Some w) else look k m)"
    and ins_ok: "snd (ins k v m) \<longleftrightarrow> look k m = None"
    and look_upd: "look k (upd k' v m) = (if k = k' then Some v else look k m)"
    and look_del: "look k (del k' m) = (if k = k' then None else look k m)"
    and size_dom: "inv m \<Longrightarrow> size_of m = card (dom_of m)"
    and finite_dom: "finite (dom_of m)"
    and inv_ins: "inv m \<Longrightarrow> inv (fst (ins k v m))"
    and inv_upd: "inv m \<Longrightarrow> inv (upd k v m)"
    and inv_del: "inv m \<Longrightarrow> inv (del k m)"
begin

lemma in_dom: "k \<in> dom_of m \<longleftrightarrow> look k m \<noteq> None"
  by (simp add: look_dom)

lemma dom_ins: "dom_of (fst (ins k v m)) = insert k (dom_of m)"
  by (rule set_eqI) (auto simp: in_dom look_ins simp del: not_None_eq split: option.split)

lemma dom_upd: "dom_of (upd k v m) = insert k (dom_of m)"
  by (rule set_eqI) (simp add: in_dom look_upd)

lemma dom_del: "dom_of (del k m) = dom_of m - {k}"
  by (rule set_eqI) (simp add: in_dom look_del)

text \<open>
  An identifier chosen as the current size is unused as long as the identifiers are exactly the
  numbers below the size, that is, as long as nothing has been erased below the top.
\<close>

lemma size_key_unused:
  assumes "inv m" and "dom_of m = f ` {..<n}" and "inj f"
  shows "look (f (size_of m)) m = None" and "size_of m = n"
proof -
  show n: "size_of m = n"
    using assms size_dom[OF assms(1)] by (simp add: card_image inj_on_subset)
  show "look (f (size_of m)) m = None"
    using n assms(2,3) look_dom by (auto simp: inj_def)
qed

text \<open>After an erasure below the top the chosen identifier is one in use.\<close>

lemma size_key_reused:
  assumes "inv m" and "dom_of m = f ` {..<Suc n}" and "inj f" and "k < n"
  shows "size_of (del (f k) m) = n" and "look (f n) (del (f k) m) \<noteq> None"
proof -
  have d: "dom_of (del (f k) m) = f ` ({..<Suc n} - {k})"
    using assms(2,3) by (auto simp: dom_del inj_def)
  moreover have "card (f ` ({..<Suc n} - {k})) = n"
    using assms(3,4) by (simp add: card_image inj_on_subset)
  ultimately show "size_of (del (f k) m) = n"
    using size_dom[OF inv_del[OF assms(1)]] by simp
  have "f n \<in> dom_of (del (f k) m)" using assms(4) d by auto
  then show "look (f n) (del (f k) m) \<noteq> None" using look_dom by blast
qed

end

lemma map_find_simps [simp]:
  "map_find k [] = None" "map_find k ((k', v) # m) = (if k = k' then Some v else map_find k m)"
  by (simp_all add: map_find_def)

lemma map_find_snoc: "map_find k (m @ [(k', v)]) = (case map_find k m of Some w \<Rightarrow> Some w
     | None \<Rightarrow> if k = k' then Some v else None)"
  by (induction m) auto

lemma map_find_emplace:
  "map_find k (fst (emplace k' v m)) =
     (if k = k' then (case map_find k m of None \<Rightarrow> Some v | Some w \<Rightarrow> Some w) else map_find k m)"
  by (auto simp: emplace_def map_find_snoc split: option.splits)

lemma assign_assign [simp]: "assign k v (assign k w m) = assign k v m"
  by (induction m) auto

lemma map_find_assign: "map_find k (assign k' v m) = (if k = k' then Some v else map_find k m)"
  by (induction m) auto

lemma map_find_erase: "map_find k (erase k' m) = (if k = k' then None else map_find k m)"
  by (induction m) (auto simp: erase_def)

lemma map_find_keys: "map_find k m = None \<longleftrightarrow> k \<notin> keys m"
  by (simp add: map_find_def keys_def map_of_eq_None_iff)

lemma fst_set_assign: "fst ` set (assign k v m) = insert k (fst ` set m)"
proof (induction m)
  case Nil
  then show ?case by simp
next
  case (Cons p m)
  then show ?case by (cases p) (simp add: insert_commute)
qed

lemma map_wf_assign: "map_wf m \<Longrightarrow> map_wf (assign k v m)"
  by (induction m) (auto simp: map_wf_def fst_set_assign)

lemma keys_snoc: "keys (m @ [(k, v)]) = insert k (keys m)"
  by (auto simp: keys_def)

lemma map_wf_snoc: "map_wf (m @ [(k, v)]) \<longleftrightarrow> map_wf m \<and> k \<notin> keys m"
  by (auto simp: map_wf_def keys_def)

interpretation store: keyed_store map_find emplace assign erase length keys map_wf
proof
  fix m :: "('k, 'v) std_map" and k :: 'k and v :: 'v
  show "map_wf m \<Longrightarrow> length m = card (keys m)"
    unfolding map_wf_def keys_def by (metis distinct_card length_map set_map)
  show "finite (keys m)" by (simp add: keys_def)
  show "map_wf m \<Longrightarrow> map_wf (fst (emplace k v m))"
    using map_find_keys[of k m] by (auto simp: map_wf_def emplace_def keys_def split: option.splits)
  show "map_wf m \<Longrightarrow> map_wf (erase k m)"
    by (induction m) (auto simp: map_wf_def erase_def)
qed (auto simp: map_find_emplace map_find_assign map_find_erase map_wf_assign emplace_def map_find_snoc
    simp flip: map_find_keys split: option.splits)

end
