(* ===== verification/Http.thy ===== *)
theory Http
  imports Hex StdMap
begin

text \<open>
  \<open>include/ravl/http_client.h\<close>, \<open>src/http_client.cpp\<close> and the request loop of
  \<open>src/http_client_curl.cpp\<close>: responses and their headers, the retry loop of one request, and the
  synchronous client with its request and response sets.  libcurl is a parameter.
\<close>

section \<open>Requests and responses\<close>

type_synonym HTTPRequestSetId = nat

record HTTPResponse =
  status :: u32
  headers :: "(string, string) std_map"
  body :: string

record HTTPRequest =
  url :: string
  req_headers :: "(string, string) std_map"
  req_body :: string

definition empty_response :: HTTPResponse where
  "empty_response = \<lparr>status = 0, headers = [], body = ''''\<rparr>"

text \<open>\<open>HTTPRequest(const std::string& url_)\<close>.\<close>

definition http_request :: "string \<Rightarrow> HTTPRequest" where
  "http_request u = \<lparr>url = u, req_headers = [], req_body = ''''\<rparr>"

definition get_header_data :: "HTTPResponse \<Rightarrow> string \<Rightarrow> bool \<Rightarrow> bytes result" where
  "get_header_data r name url_decoded =
     (case (case map_find name (headers r) of
              Some v \<Rightarrow> Some v
            | None \<Rightarrow> map_find (map tolower name) (headers r)) of
        None \<Rightarrow> Inl (Runtime_Error (''missing response header '' @ [CHR 0x27] @ name @ [CHR 0x27]))
      | Some v \<Rightarrow> Inr (if url_decoded then url_decode v else bytes_of v))"

definition get_header_string :: "HTTPResponse \<Rightarrow> string \<Rightarrow> bool \<Rightarrow> string result" where
  "get_header_string r name url_decoded =
     andthen (get_header_data r name url_decoded) (\<lambda>t. Inr (string_of t))"

section \<open>The libcurl callbacks\<close>

definition body_write_fun :: "string \<Rightarrow> HTTPResponse \<Rightarrow> HTTPResponse" where
  "body_write_fun chunk r = r\<lparr>body := body r @ chunk\<rparr>"

text \<open>
  \<open>header_write_fun\<close> receives \<open>real_size\<close> bytes of a longer memory; \<open>after\<close> is what follows them.  The
  colon is looked for in all of it, up to a NUL.  The value starts two characters after the colon and
  has \<open>real_size - (colon - buffer) - 1\<close> of them: the difference has the type \<open>size_t\<close>, so that it wraps
  when the colon is not among the \<open>real_size\<close> bytes; \<open>std::string\<close> then throws \<open>std::length_error\<close>, through
  the frames of libcurl, which is undefined.
\<close>

definition string_max_size :: nat where
  "string_max_size = 2 ^ 63 - 1"

definition header_write_fun :: "string \<Rightarrow> string \<Rightarrow> HTTPResponse \<Rightarrow> HTTPResponse result" where
  "header_write_fun buffer after r =
     (let real_size = length buffer;
          mem = buffer @ after
      in case str_find (c_str mem) '':'' 0 of
           None \<Rightarrow> throw_if (CHR 0x00 \<notin> set mem) (Undefined_Behaviour ''strchr'') (Inr r)
         | Some colon \<Rightarrow>
             (let n = (real_size + size_max - (colon + 1)) mod size_max
              in throw_if (string_max_size < n) (Undefined_Behaviour ''std::length_error through libcurl'')
                 (throw_if (length mem < colon + 2 + n) (Undefined_Behaviour ''read behind the header'')
                 (Inr (r\<lparr>headers := fst (emplace (take colon mem) (take n (drop (colon + 2) mem)) (headers r))\<rparr>)))))"

lemma header_write_status: "header_write_fun buffer after r = Inr r' \<Longrightarrow> status r' = status r"
  by (auto simp: header_write_fun_def Let_def throw_if_def split: option.splits if_splits)

text \<open>Whether a header is received does not depend on the answer it is stored in.\<close>

lemma header_write_ok: "is_ok (header_write_fun buffer after r) = is_ok (header_write_fun buffer after r')"
  by (simp add: header_write_fun_def Let_def throw_if_def split: option.split)

text \<open>A colon behind the header: the length wraps.\<close>

lemma header_write_wraps:
  assumes "str_find (c_str (buffer @ after)) '':'' 0 = Some colon" and "length buffer \<le> colon" and "colon < 2 ^ 63"
  shows "header_write_fun buffer after r = Inl (Undefined_Behaviour ''std::length_error through libcurl'')"
proof -
  have "length buffer + size_max - (colon + 1) < size_max" using assms(2) by (simp add: size_max_def)
  moreover have "string_max_size < length buffer + size_max - (colon + 1)"
    using assms(3) by (simp add: size_max_def string_max_size_def)
  ultimately show ?thesis using assms(1) by (simp add: header_write_fun_def Let_def throw_if_def)
qed

section \<open>One request: retries on status 429\<close>

text \<open>
  \<open>CURLINFO_RETRY_AFTER\<close> is an enumerator, not a macro, so the header branch is the compiled one:
  \<open>atol\<close> of the header, whose absence or zero value ends the retries.  \<open>atol\<close> is a parameter.
\<close>

definition must_retry :: "(string \<Rightarrow> int) \<Rightarrow> HTTPResponse \<Rightarrow> bool \<times> HTTPResponse" where
  "must_retry atol r =
     (if status r = 429 then
        (case get_header_string r ''Retry-After'' False of
           Inl _ \<Rightarrow> (False, r)
         | Inr ra \<Rightarrow> if atol (c_str ra) = 0 then (False, r)
                    else (True, r\<lparr>body := '''', headers := [], status := 0\<rparr>))
      else (False, r))"

text \<open>
  \<open>perform k q r\<close> is what \<open>curl_easy_perform\<close> does on the k-th attempt: an error code, or the response
  \<open>r\<close> as the callbacks and \<open>CURLINFO_RESPONSE_CODE\<close> have filled it.
\<close>

type_synonym curl_perform = "nat \<Rightarrow> HTTPRequest \<Rightarrow> HTTPResponse \<Rightarrow> nat + HTTPResponse"

fun execute_loop ::
  "(string \<Rightarrow> int) \<Rightarrow> curl_perform \<Rightarrow> HTTPRequest \<Rightarrow> nat \<Rightarrow> nat \<Rightarrow> HTTPResponse \<Rightarrow> HTTPResponse result" where
  "execute_loop atol perform q k 0 r =
     Inl (Runtime_Error ''maxmimum number of URL request retries exceeded'')"
| "execute_loop atol perform q k (Suc max_attempts) r =
     (case perform k q r of
        Inl code \<Rightarrow> Inl (Runtime_Error ''curl error'')
      | Inr r' \<Rightarrow> (case must_retry atol r' of
            (True, r'') \<Rightarrow> execute_loop atol perform q (Suc k) max_attempts r''
          | (False, r'') \<Rightarrow> Inr r''))"

definition execute_synchronous ::
  "(string \<Rightarrow> int) \<Rightarrow> curl_perform \<Rightarrow> HTTPRequest \<Rightarrow> nat \<Rightarrow> HTTPResponse result" where
  "execute_synchronous atol perform q max_attempts =
     execute_loop atol perform q 0 max_attempts empty_response"

section \<open>The synchronous client\<close>

record sync_client =
  request_sets :: "(HTTPRequestSetId, HTTPRequest list) std_map"
  response_sets :: "(HTTPRequestSetId, HTTPResponse list) std_map"

definition new_sync_client :: sync_client where
  "new_sync_client = \<lparr>request_sets = [], response_sets = []\<rparr>"

text \<open>
  The download loop: \<open>response_sets[id][i] = response\<close> writes through a vector whose size was fixed
  before, so a larger index is undefined.
\<close>

fun download_all ::
  "(HTTPRequest \<Rightarrow> HTTPResponse result) \<Rightarrow> HTTPRequestSetId \<Rightarrow> nat \<Rightarrow> HTTPRequest list \<Rightarrow>
   sync_client \<Rightarrow> sync_client \<times> unit result" where
  "download_all exec sid i [] c = (c, Inr ())"
| "download_all exec sid i (q # qs) c =
     (case exec q of
        Inl e \<Rightarrow> (c, Inl e)
      | Inr r \<Rightarrow>
          (let rs = (case map_find sid (response_sets c) of None \<Rightarrow> [] | Some rs \<Rightarrow> rs)
           in if length rs \<le> i then (c, Inl (Undefined_Behaviour ''vector index out of range''))
              else (let c' = c\<lparr>response_sets := assign sid (rs[i := r]) (response_sets c)\<rparr>
                    in if status r \<noteq> 200 then (c', Inl (Runtime_Error ''unexpected HTTP status''))
                       else download_all exec sid (Suc i) qs c')))"

text \<open>
  \<open>submit\<close>: the callback runs before \<open>submit\<close> returns, on a state \<open>'s\<close> of the caller's.
\<close>

definition sync_submit ::
  "(HTTPRequest \<Rightarrow> HTTPResponse result) \<Rightarrow> HTTPRequest list \<Rightarrow>
   (HTTPResponse list \<Rightarrow> 's \<Rightarrow> 's \<times> unit result) \<Rightarrow> sync_client \<Rightarrow> 's \<Rightarrow>
   sync_client \<times> 's \<times> HTTPRequestSetId result" where
  "sync_submit exec rs callback c s =
     (let sid = length (request_sets c);
          c1 = c\<lparr>request_sets := fst (emplace sid rs (request_sets c))\<rparr>;
          (m, ok) = emplace sid (replicate (length rs) empty_response) (response_sets c1);
          c2 = c1\<lparr>response_sets := m\<rparr>
      in if \<not> ok then (c2, s, Inl Bad_Alloc)
         else case map_find sid (request_sets c2) of
           None \<Rightarrow> (c2, s, Inl (Undefined_Behaviour ''end iterator''))
         | Some qs \<Rightarrow>
             (case download_all exec sid 0 qs c2 of
                (c3, Inl e) \<Rightarrow> (c3, s, Inl e)
              | (c3, Inr _) \<Rightarrow>
                  (let r = (case map_find sid (response_sets c3) of None \<Rightarrow> [] | Some r \<Rightarrow> r);
                       c4 = c3\<lparr>response_sets := assign sid [] (response_sets c3)\<rparr>
                   in case callback r s of
                        (s', Inl e) \<Rightarrow> (c4, s', Inl e)
                      | (s', Inr _) \<Rightarrow>
                          (c4\<lparr>response_sets := erase sid (response_sets c4)\<rparr>, s', Inr sid))))"

definition sync_is_complete :: "HTTPRequestSetId \<Rightarrow> bool" where
  "sync_is_complete sid = True"

definition sync_erase :: "HTTPRequestSetId \<Rightarrow> sync_client \<Rightarrow> sync_client" where
  "sync_erase sid c = c\<lparr>request_sets := erase sid (request_sets c),
                        response_sets := erase sid (response_sets c)\<rparr>"

section \<open>The client interface the tracker and the synchronous verifier rely on\<close>

text \<open>
  A submission that succeeds has called the callback exactly once, with one answer per request in the
  order of the requests; one that fails has either not called it, or the callback has thrown.
\<close>

locale http_client =
  fixes submit :: "HTTPRequest list \<Rightarrow> (HTTPResponse list \<Rightarrow> 's \<Rightarrow> 's \<times> unit result) \<Rightarrow> 'c \<Rightarrow> 's \<Rightarrow>
      'c \<times> 's \<times> HTTPRequestSetId result"
    and answers :: "HTTPRequest \<Rightarrow> HTTPResponse \<Rightarrow> bool"
    and client_ok :: "'c \<Rightarrow> bool"
  assumes submit_Inr: "client_ok c \<Longrightarrow> submit rs cb c s = (c', s', Inr sid) \<Longrightarrow>
      \<exists>out. list_all2 answers rs out \<and> cb out s = (s', Inr ())"
    and submit_Inl: "client_ok c \<Longrightarrow> submit rs cb c s = (c', s', Inl e) \<Longrightarrow>
      s' = s \<or> (\<exists>out. list_all2 answers rs out \<and> cb out s = (s', Inl e))"
    and submit_ok: "client_ok c \<Longrightarrow> submit rs cb c s = (c', s', r) \<Longrightarrow> client_ok c'"
begin

text \<open>What a submission leaves in the caller's state is what the callback made of the answers.\<close>

lemma submit_state:
  assumes "client_ok c" and "submit rs cb c s = (c', s', r)"
  shows "s' = s \<or> (\<exists>out. list_all2 answers rs out \<and> s' = fst (cb out s))"
proof (cases r)
  case (Inl e)
  with submit_Inl[OF assms(1)] assms(2) show ?thesis by (metis fst_conv)
next
  case (Inr i)
  with submit_Inr[OF assms(1)] assms(2) show ?thesis by (metis fst_conv)
qed

lemma submit_invariant:
  assumes "client_ok c" and "submit rs cb c s = (c', s', r)" and "P s"
    and "\<And>out. length out = length rs \<Longrightarrow> P (fst (cb out s))"
  shows "P s'"
  using submit_state[OF assms(1,2)] assms(3,4) by (auto dest: list_all2_lengthD)

end

section \<open>The synchronous client implements it\<close>

definition sync_answers :: "(HTTPRequest \<Rightarrow> HTTPResponse result) \<Rightarrow> HTTPRequest \<Rightarrow> HTTPResponse \<Rightarrow> bool" where
  "sync_answers exec q r \<longleftrightarrow> exec q = Inr r \<and> status r = 200"

definition sync_ok :: "sync_client \<Rightarrow> bool" where
  "sync_ok c \<longleftrightarrow> map_wf (request_sets c) \<and> map_wf (response_sets c)
     \<and> keys (request_sets c) = {..<length (request_sets c)}
     \<and> keys (response_sets c) \<subseteq> keys (request_sets c)"

lemma download_all_frame:
  "download_all exec sid i qs c = (c', r) \<Longrightarrow> map_find sid (response_sets c) \<noteq> None \<Longrightarrow>
   request_sets c' = request_sets c \<and> map_find sid (response_sets c') \<noteq> None
   \<and> keys (response_sets c') = keys (response_sets c)
   \<and> (map_wf (response_sets c) \<longrightarrow> map_wf (response_sets c'))"
proof (induction qs arbitrary: i c)
  case Nil
  then show ?case by simp
next
  case (Cons q qs)
  obtain rs where rs: "map_find sid (response_sets c) = Some rs" using Cons.prems(2) by auto
  show ?case
  proof (cases "exec q")
    case (Inl e)
    with Cons.prems show ?thesis by simp
  next
    case (Inr x)
    let ?c = "c\<lparr>response_sets := assign sid (rs[i := x]) (response_sets c)\<rparr>"
    have k: "keys (response_sets ?c) = keys (response_sets c)"
      using rs store.dom_upd[of sid "rs[i := x]" "response_sets c"]
      by (auto simp: store.in_dom)
    have f: "map_find sid (response_sets ?c) \<noteq> None" by (simp add: map_find_assign)
    show ?thesis
    proof (cases "length rs \<le> i \<or> status x \<noteq> 200")
      case True
      with Cons.prems(1) Inr rs have "c' = c \<or> c' = ?c"
        by (simp add: Let_def split: if_splits)
      then show ?thesis
      proof
        assume "c' = c"
        with Cons.prems(2) show ?thesis by simp
      next
        assume "c' = ?c"
        with k f show ?thesis by (simp add: map_wf_assign)
      qed
    next
      case False
      with Cons.prems Inr rs have "download_all exec sid (Suc i) qs ?c = (c', r)"
        by (simp add: Let_def)
      from Cons.IH[OF this f] k show ?thesis by (auto simp: map_wf_assign)
    qed
  qed
qed

lemma download_all_Inr:
  "download_all exec sid i qs c = (c', Inr u) \<Longrightarrow> map_find sid (response_sets c) = Some rs \<Longrightarrow>
   i + length qs = length rs \<Longrightarrow>
   \<exists>out. list_all2 (sync_answers exec) qs out \<and> map_find sid (response_sets c') = Some (take i rs @ out)"
proof (induction qs arbitrary: i c rs)
  case Nil
  then show ?case by simp
next
  case (Cons q qs)
  then obtain x where x: "exec q = Inr x" "status x = 200"
    and d: "download_all exec sid (Suc i) qs
              (c\<lparr>response_sets := assign sid (rs[i := x]) (response_sets c)\<rparr>) = (c', Inr u)"
    by (auto simp: Let_def split: sum.splits if_splits)
  from Cons.IH[OF d, of "rs[i := x]"] Cons.prems(3) obtain out where
    "list_all2 (sync_answers exec) qs out"
    "map_find sid (response_sets c') = Some (take (Suc i) (rs[i := x]) @ out)"
    by (auto simp: map_find_assign)
  moreover have "take (Suc i) (rs[i := x]) = take i rs @ [x]"
    using Cons.prems(3) by (simp add: take_Suc_conv_app_nth)
  ultimately have "list_all2 (sync_answers exec) (q # qs) (x # out)
      \<and> map_find sid (response_sets c') = Some (take i rs @ x # out)"
    using x by (simp add: sync_answers_def[of exec q])
  then show ?case by blast
qed

text \<open>A first submission (nothing erased yet) finds its identifier free and stores its own requests.\<close>

lemma sync_ok_fresh:
  assumes "sync_ok c"
  shows "map_find (length (request_sets c)) (request_sets c) = None"
    and "map_find (length (request_sets c)) (response_sets c) = None"
  using assms by (auto simp: sync_ok_def map_find_keys)

lemma sync_ok_set:
  assumes "sync_ok c"
  defines "n \<equiv> length (request_sets c)"
  shows "sync_ok (c\<lparr>request_sets := request_sets c @ [(n, rs)],
                   response_sets := response_sets c @ [(n, xs)]\<rparr>)"
proof -
  have "n \<notin> keys (request_sets c)" "n \<notin> keys (response_sets c)"
    using assms by (auto simp: sync_ok_def)
  then show ?thesis
    using assms by (auto simp: sync_ok_def keys_snoc map_wf_snoc)
qed

lemma sync_ok_frame:
  assumes "sync_ok c" and "request_sets c' = request_sets c"
    and "map_wf (response_sets c')" and "keys (response_sets c') \<subseteq> keys (response_sets c)"
  shows "sync_ok c'"
  using assms by (auto simp: sync_ok_def)

lemma sync_submit_cases:
  assumes "sync_ok c" and "sync_submit exec rs cb c s = (c', s', r)"
  shows "sync_ok c' \<and>
    ((\<exists>e. r = Inl e \<and> s' = s)
     \<or> (\<exists>out e. r = Inl e \<and> list_all2 (sync_answers exec) rs out \<and> cb out s = (s', Inl e))
     \<or> (\<exists>out. r = Inr (length (request_sets c)) \<and> list_all2 (sync_answers exec) rs out
          \<and> cb out s = (s', Inr ())))"
proof -
  let ?n = "length (request_sets c)"
  let ?xs = "replicate (length rs) empty_response"
  let ?c2 = "c\<lparr>request_sets := request_sets c @ [(?n, rs)], response_sets := response_sets c @ [(?n, ?xs)]\<rparr>"
  have ok2: "sync_ok ?c2" by (rule sync_ok_set[OF assms(1)])
  note f = sync_ok_fresh[OF assms(1)]
  have q2: "map_find ?n (request_sets ?c2) = Some rs"
    and x2: "map_find ?n (response_sets ?c2) = Some ?xs"
    using f by (simp_all add: map_find_snoc)
  obtain c3 d where d: "download_all exec ?n 0 rs ?c2 = (c3, d)" by (cases "download_all exec ?n 0 rs ?c2")
  have fr: "request_sets c3 = request_sets ?c2" "map_find ?n (response_sets c3) \<noteq> None"
    "keys (response_sets c3) = keys (response_sets ?c2)" "map_wf (response_sets c3)"
    using download_all_frame[OF d] x2 ok2 by (auto simp: sync_ok_def)
  have ok3: "sync_ok c3" using sync_ok_frame[OF ok2 fr(1,4)] fr(3) by simp
  show ?thesis
  proof (cases d)
    case (Inl e)
    have "sync_submit exec rs cb c s = (c3, s, Inl e)"
      using d[unfolded Inl] q2 f unfolding sync_submit_def by (simp add: Let_def emplace_def)
    with assms(2) have "c' = c3" "s' = s" "r = Inl e" by simp_all
    with ok3 show ?thesis by simp
  next
    case (Inr u)
    from download_all_Inr[OF d[unfolded Inr] x2] obtain out where
      out: "list_all2 (sync_answers exec) rs out" "map_find ?n (response_sets c3) = Some out"
      by auto
    let ?c4 = "c3\<lparr>response_sets := assign ?n [] (response_sets c3)\<rparr>"
    have k: "keys (response_sets ?c4) = keys (response_sets c3)"
      using out(2) store.dom_upd[of ?n "[]" "response_sets c3"]
      by (simp add: insert_absorb store.in_dom)
    have ok4: "sync_ok ?c4"
      using sync_ok_frame[OF ok3, of ?c4] k fr(4) by (simp add: map_wf_assign)
    have ok5: "sync_ok (?c4\<lparr>response_sets := erase ?n (response_sets ?c4)\<rparr>)"
    proof (rule sync_ok_frame[OF ok4])
      show "map_wf (response_sets (?c4\<lparr>response_sets := erase ?n (response_sets ?c4)\<rparr>))"
        using ok4 by (simp add: sync_ok_def store.inv_del)
    qed (auto simp: store.dom_del)
    obtain s1 u1 where cb: "cb out s = (s1, u1)" by (cases "cb out s")
    show ?thesis
    proof (cases u1)
      case (Inl e)
      have "sync_submit exec rs cb c s = (?c4, s1, Inl e)"
        using d[unfolded \<open>d = Inr u\<close>] q2 f out(2) cb[unfolded Inl]
        unfolding sync_submit_def by (simp add: Let_def emplace_def)
      with assms(2) have "c' = ?c4" "s' = s1" "r = Inl e" by simp_all
      with Inl ok4 out(1) cb show ?thesis by blast
    next
      case (Inr w)
      have "sync_submit exec rs cb c s =
          (?c4\<lparr>response_sets := erase ?n (response_sets ?c4)\<rparr>, s1, Inr ?n)"
        using d[unfolded \<open>d = Inr u\<close>] q2 f out(2) cb[unfolded Inr]
        unfolding sync_submit_def by (simp add: Let_def emplace_def)
      with assms(2) have "c' = ?c4\<lparr>response_sets := erase ?n (response_sets ?c4)\<rparr>"
        "s' = s1" "r = Inr ?n" by simp_all
      with ok5 out(1) cb[unfolded Inr] show ?thesis by auto
    qed
  qed
qed

interpretation sync: http_client "sync_submit exec" "sync_answers exec" sync_ok for exec
proof
  fix c rs cb s c' s' sid e r
  assume c: "sync_ok c"
  show "sync_submit exec rs cb c s = (c', s', Inr sid) \<Longrightarrow>
      \<exists>out. list_all2 (sync_answers exec) rs out \<and> cb out s = (s', Inr ())"
    using sync_submit_cases[OF c, of exec rs cb s c' s' "Inr sid"] by auto
  show "sync_submit exec rs cb c s = (c', s', Inl e) \<Longrightarrow>
      s' = s \<or> (\<exists>out. list_all2 (sync_answers exec) rs out \<and> cb out s = (s', Inl e))"
    using sync_submit_cases[OF c, of exec rs cb s c' s' "Inl e"] by auto
  show "sync_submit exec rs cb c s = (c', s', r) \<Longrightarrow> sync_ok c'"
    using sync_submit_cases[OF c, of exec rs cb s c' s' r] by simp
qed

text \<open>A client that has erased a set below the top has a size that is an identifier in use.\<close>

lemma sync_erase_reuses:
  assumes "sync_ok c" and "length (request_sets c) = Suc n" and "k < n"
  defines "c' \<equiv> sync_erase k c"
  shows "map_find (length (request_sets c')) (request_sets c') \<noteq> None"
  using store.size_key_reused[of "request_sets c" id n k] assms
  by (simp add: sync_ok_def sync_erase_def)

section \<open>One request\<close>

lemma must_retry_False: "must_retry atol r = (False, r') \<Longrightarrow> r' = r"
  by (auto simp: must_retry_def split: if_splits sum.splits)

lemma must_retry_reset:
  "must_retry atol r = (True, r') \<Longrightarrow> r' = empty_response \<and> status r = 429"
  by (auto simp: must_retry_def empty_response_def split: if_splits sum.splits)

text \<open>Every attempt starts from a fresh response, and there are at most \<open>max_attempts\<close> of them.\<close>

lemma execute_loop_Inr:
  "execute_loop atol perform q k n empty_response = Inr r \<Longrightarrow>
   \<exists>i<n. perform (k + i) q empty_response = Inr r \<and> fst (must_retry atol r) = False
        \<and> (\<forall>j<i. \<exists>r'. perform (k + j) q empty_response = Inr r' \<and> status r' = 429)"
proof (induction n arbitrary: k)
  case 0
  then show ?case by simp
next
  case (Suc n)
  then obtain x where x: "perform k q empty_response = Inr x" by (auto split: sum.splits)
  obtain b y where y: "must_retry atol x = (b, y)" by (cases "must_retry atol x")
  show ?case
  proof (cases b)
    case True
    with y must_retry_reset have *: "y = empty_response" "status x = 429" by auto
    with Suc.prems x y True have "execute_loop atol perform q (Suc k) n empty_response = Inr r" by simp
    from Suc.IH[OF this] obtain i where i: "i < n" "perform (Suc k + i) q empty_response = Inr r"
      "fst (must_retry atol r) = False"
      "\<forall>j<i. \<exists>r'. perform (Suc k + j) q empty_response = Inr r' \<and> status r' = 429" by auto
    have "\<forall>j<Suc i. \<exists>r'. perform (k + j) q empty_response = Inr r' \<and> status r' = 429"
    proof (intro allI impI)
      fix j assume "j < Suc i"
      then show "\<exists>r'. perform (k + j) q empty_response = Inr r' \<and> status r' = 429"
        using i(4) x * by (cases j) auto
    qed
    with i show ?thesis by (intro exI[of _ "Suc i"]) simp
  next
    case False
    with Suc.prems x y must_retry_False have "x = r" by auto
    with x y False show ?thesis by (intro exI[of _ 0]) simp
  qed
qed

section \<open>Submission as a function\<close>

text \<open>
  What the download of a request set amounts to: the requests one after the other, up to the first
  that fails or is not answered with status 200.
\<close>

fun fetch_all :: "(HTTPRequest \<Rightarrow> HTTPResponse result) \<Rightarrow> HTTPRequest list \<Rightarrow> HTTPResponse list result" where
  "fetch_all exec [] = Inr []"
| "fetch_all exec (q # qs) =
     andthen (exec q) (\<lambda>r. throw_if (status r \<noteq> 200) (Runtime_Error ''unexpected HTTP status'')
       (andthen (fetch_all exec qs) (\<lambda>rs. Inr (r # rs))))"

lemma fetch_all_Inr: "fetch_all exec qs = Inr out \<longleftrightarrow> list_all2 (sync_answers exec) qs out"
proof (induction qs arbitrary: out)
  case Nil
  then show ?case by auto
next
  case (Cons q qs)
  then show ?case
    by (cases out) (auto simp: andthen_Inr throw_if_Inr sync_answers_def)
qed

lemma download_all_fetch:
  "download_all exec sid i qs c = (c', d) \<Longrightarrow> map_find sid (response_sets c) = Some rs \<Longrightarrow>
   i + length qs = length rs \<Longrightarrow> d = andthen (fetch_all exec qs) (\<lambda>_. Inr ())"
proof (induction qs arbitrary: i c rs)
  case Nil
  then show ?case by simp
next
  case (Cons q qs)
  show ?case
  proof (cases "exec q")
    case (Inl e)
    with Cons.prems show ?thesis by simp
  next
    case (Inr x)
    show ?thesis
    proof (cases "status x = 200")
      case True
      with Inr Cons.prems have "download_all exec sid (Suc i) qs
          (c\<lparr>response_sets := assign sid (rs[i := x]) (response_sets c)\<rparr>) = (c', d)"
        by (auto simp: Let_def split: if_splits)
      from Cons.IH[OF this, of "rs[i := x]"] Cons.prems(3) True Inr show ?thesis
        by (simp add: map_find_assign andthen_assoc)
    next
      case False
      with Inr Cons.prems show ?thesis by (auto simp: Let_def split: if_splits)
    qed
  qed
qed

lemma sync_submit_fetch:
  assumes "sync_ok c"
  shows "snd (sync_submit exec rs cb c s) =
     (case fetch_all exec rs of
        Inl e \<Rightarrow> (s, Inl e)
      | Inr out \<Rightarrow> (case cb out s of
            (s', Inl e) \<Rightarrow> (s', Inl e) | (s', Inr _) \<Rightarrow> (s', Inr (length (request_sets c)))))"
proof -
  let ?n = "length (request_sets c)"
  let ?xs = "replicate (length rs) empty_response"
  let ?c2 = "c\<lparr>request_sets := request_sets c @ [(?n, rs)], response_sets := response_sets c @ [(?n, ?xs)]\<rparr>"
  note f = sync_ok_fresh[OF assms]
  have q2: "map_find ?n (request_sets ?c2) = Some rs"
    and x2: "map_find ?n (response_sets ?c2) = Some ?xs"
    using f by (simp_all add: map_find_snoc)
  obtain c3 d where d: "download_all exec ?n 0 rs ?c2 = (c3, d)" by (cases "download_all exec ?n 0 rs ?c2")
  have e: "d = andthen (fetch_all exec rs) (\<lambda>_. Inr ())" using download_all_fetch[OF d x2] by simp
  show ?thesis
  proof (cases "fetch_all exec rs")
    case (Inl e')
    with d e q2 f show ?thesis unfolding sync_submit_def by (simp add: Let_def emplace_def)
  next
    case (Inr out)
    with d e have d': "download_all exec ?n 0 rs ?c2 = (c3, Inr ())" by simp
    from download_all_Inr[OF d' x2] obtain out' where o: "list_all2 (sync_answers exec) rs out'"
      "map_find ?n (response_sets c3) = Some out'" by auto
    from o(1) Inr have "out' = out" unfolding fetch_all_Inr[symmetric] by simp
    with d' q2 f o(2) Inr show ?thesis unfolding sync_submit_def
      by (auto simp: Let_def emplace_def split: prod.splits sum.splits)
  qed
qed

end
