(* ===== verification/SgxCollateral.thy ===== *)
theory SgxCollateral
  imports SgxQuote Http
begin

text \<open>
  The collateral of \<open>include/ravl/sgx_impl.h\<close>: \<open>QL_QVE_Collateral\<close> and its binary form, the requests
  that download it and the assembly of the responses.
\<close>

section \<open>\<open>QL_QVE_Collateral\<close>\<close>

record collateral =
  major_version :: u16
  minor_version :: u16
  tee_type :: u32
  root_ca :: string
  pck_crl_issuer_chain :: string
  root_ca_crl :: string
  pck_crl :: string
  tcb_info_issuer_chain :: string
  tcb_info :: string
  qe_identity_issuer_chain :: string
  qe_identity :: string

definition default_collateral :: collateral where
  "default_collateral = \<lparr>major_version = 3, minor_version = 1, tee_type = 0, root_ca = '''',
     pck_crl_issuer_chain = '''', root_ca_crl = '''', pck_crl = '''', tcb_info_issuer_chain = '''',
     tcb_info = '''', qe_identity_issuer_chain = '''', qe_identity = ''''\<rparr>"

definition parse_collateral :: "bytes \<Rightarrow> collateral result" where
  "parse_collateral data =
     andthen (get_word data 0) (\<lambda>(major, pos).
     andthen (get_word data pos) (\<lambda>(minor, pos).
     andthen (get_word data pos) (\<lambda>(tee, pos).
     andthen (get_blob data pos) (\<lambda>(a, pos).
     andthen (get_blob data pos) (\<lambda>(b, pos).
     andthen (get_blob data pos) (\<lambda>(c, pos).
     andthen (get_blob data pos) (\<lambda>(d, pos).
     andthen (get_blob data pos) (\<lambda>(e, pos).
     andthen (get_blob data pos) (\<lambda>(f, pos).
     andthen (get_blob data pos) (\<lambda>(g, pos).
     throw_if (pos \<noteq> length data) (Runtime_Error ''excess collateral data'')
       (Inr \<lparr>major_version = major, minor_version = minor, tee_type = tee, root_ca = '''',
             pck_crl_issuer_chain = string_of a,
             root_ca_crl = string_of b, pck_crl = string_of c,
             tcb_info_issuer_chain = string_of d,
             tcb_info = string_of e,
             qe_identity_issuer_chain = string_of f,
             qe_identity = string_of g\<rparr>)))))))))))"

text \<open>The binary form, as \<open>extract_sgx_attestation\<close> of \<open>oe_impl.h\<close> writes it.\<close>

definition encode_collateral :: "u16 \<Rightarrow> u16 \<Rightarrow> u32 \<Rightarrow> bytes list \<Rightarrow> bytes" where
  "encode_collateral major minor tee items =
     put_word major @ put_word minor @ put_word tee @ concat (map put_blob items)"

text \<open>What the decoder makes of the binary form of any seven strings.\<close>

lemma parse_encode_collateral:
  assumes "data = encode_collateral major minor tee [a, b, c, d, e, f, g]"
    and "length data \<le> vector_max_size"
  shows "parse_collateral data = Inr \<lparr>major_version = major, minor_version = minor, tee_type = tee,
     root_ca = '''', pck_crl_issuer_chain = string_of a, root_ca_crl = string_of b,
     pck_crl = string_of c, tcb_info_issuer_chain = string_of d, tcb_info = string_of e,
     qe_identity_issuer_chain = string_of f, qe_identity = string_of g\<rparr>"
proof -
  let ?h = "put_word major" and ?h2 = "put_word major @ put_word minor"
  let ?h3 = "put_word major @ put_word minor @ put_word tee"
  have data: "data = ?h3 @ put_blob a @ put_blob b @ put_blob c @ put_blob d @ put_blob e
      @ put_blob f @ put_blob g"
    using assms(1) by (simp add: encode_collateral_def)
  note sz = assms(2)
  have B: "get_blob data (length p) = Inr (x, length (p @ put_blob x))"
    if "take (length (p @ put_blob x)) data = p @ put_blob x" for p x
  proof -
    have "data = (p @ put_blob x) @ drop (length (p @ put_blob x)) data"
      using append_take_drop_id[of "length (p @ put_blob x)" data, unfolded that, symmetric] .
    then obtain q where "data = (p @ put_blob x) @ q" by blast
    then have q: "data = p @ put_blob x @ q" by simp
    from sz show ?thesis using blob.dec_enc[where p=p and x=x and q=q] unfolding q by simp
  qed
  have s1: "get_word data 0 = Inr (major, length ?h)"
    using be16.dec_enc[where p="[]" and x=major] sz unfolding data by simp
  have s2: "get_word data (length ?h) = Inr (minor, length ?h2)"
    using be16.dec_enc[where p="?h" and x=minor] sz unfolding data by simp
  have s3: "get_word data (length ?h2) = Inr (tee, length ?h3)"
    using be32.dec_enc[where p="?h2" and x=tee] sz unfolding data by simp
  let ?a = "?h3 @ put_blob a" let ?b = "?a @ put_blob b" let ?c = "?b @ put_blob c"
  let ?d = "?c @ put_blob d" let ?e = "?d @ put_blob e" let ?f = "?e @ put_blob f"
  have "get_blob data (length ?h3) = Inr (a, length ?a)" by (rule B) (simp add: data)
  moreover have "get_blob data (length ?a) = Inr (b, length ?b)" by (rule B) (simp add: data)
  moreover have "get_blob data (length ?b) = Inr (c, length ?c)" by (rule B) (simp add: data)
  moreover have "get_blob data (length ?c) = Inr (d, length ?d)" by (rule B) (simp add: data)
  moreover have "get_blob data (length ?d) = Inr (e, length ?e)" by (rule B) (simp add: data)
  moreover have "get_blob data (length ?e) = Inr (f, length ?f)" by (rule B) (simp add: data)
  moreover have "get_blob data (length ?f) = Inr (g, length (?f @ put_blob g))" by (rule B) (simp add: data)
  moreover have "(length (?f @ put_blob g) \<noteq> length data) = False" unfolding data by simp
  ultimately show ?thesis
    unfolding parse_collateral_def by (simp only: s1 s2 s3 andthen_simps prod.case throw_if_simps)
qed

section \<open>The requests\<close>

definition intel_certificates_url_base :: string where
  "intel_certificates_url_base = ''https://certificates.trustedservices.intel.com''"
definition root_ca_url :: string where
  "root_ca_url = intel_certificates_url_base @ ''/Intel_SGX_Provisioning_Certification_RootCA.pem''"
definition root_crl_url :: string where
  "root_crl_url = intel_certificates_url_base @ ''/IntelSGXRootCA.crl''"
definition api_base_url :: string where
  "api_base_url = ''https://api.trustedservices.intel.com/sgx/certification/v3''"
definition tcb_url :: string where "tcb_url = api_base_url @ ''/tcb''"
definition pck_crl_url :: string where "pck_crl_url = api_base_url @ ''/pckcrl''"
definition qe_identity_url :: string where "qe_identity_url = api_base_url @ ''/qe/identity''"
definition qve_identity_url :: string where "qve_identity_url = api_base_url @ ''/qve/identity''"

definition download_root_ca_pem :: "HTTPRequest list" where
  "download_root_ca_pem = [http_request root_ca_url]"

text \<open>
  \<open>fmt::vformat\<close> is a parameter: the expansion of a template with its arguments, or a format error.
\<close>

type_synonym vformat = "string \<Rightarrow> string list \<Rightarrow> string result"

definition download_collateral ::
  "vformat \<Rightarrow> string \<Rightarrow> string \<Rightarrow> options \<Rightarrow> bool \<Rightarrow> HTTPRequest list result" where
  "download_collateral vformat ca fmspc opts qve =
     (let root = (if root_ca_certificate opts = None then [http_request root_ca_url] else [])
      in case sgx_endorsement_cache_url_template opts of
        None \<Rightarrow> Inr (root
          @ [http_request root_crl_url,
             http_request (tcb_url @ ''?fmspc='' @ fmspc),
             http_request (pck_crl_url @ ''?ca='' @ ca @ ''&encoding=pem''),
             http_request (if \<not> qve then qe_identity_url else qve_identity_url)])
      | Some tmpl \<Rightarrow>
          andthen (vformat tmpl [''pckcrl'', root_crl_url]) (\<lambda>crl.
          andthen (vformat tmpl [''tcb'', tcb_url @ ''&fmspc='' @ fmspc]) (\<lambda>tcb.
          andthen (vformat tmpl [''pckcrl'', intel_certificates_url_base @ ''/intelsgxpck'' @ ca
                                              @ ''.crl'' @ ''&encoding=pem'']) (\<lambda>pck.
          andthen (if \<not> qve then vformat tmpl [''qe/identity'', qe_identity_url]
                   else vformat tmpl [''qve/identity'', qve_identity_url]) (\<lambda>qe.
          Inr (root @ map http_request [crl, tcb, pck, qe]))))))"

section \<open>The responses\<close>

definition check_http_200 :: "HTTPResponse \<Rightarrow> unit result" where
  "check_http_200 response = throw_if (status response \<noteq> 200) (Runtime_Error ''download failed'') (Inr ())"

text \<open>\<open>http_responses[i]\<close>: no bounds check.\<close>

definition response_at :: "HTTPResponse list \<Rightarrow> nat \<Rightarrow> HTTPResponse result" where
  "response_at rs i = (if i < length rs then Inr (rs ! i)
     else Inl (Undefined_Behaviour ''vector index out of range''))"

definition expected_responses :: "options \<Rightarrow> collateral option \<Rightarrow> nat" where
  "expected_responses opts coll =
     (if coll = None
         \<or> (case coll of None \<Rightarrow> False | Some c \<Rightarrow> root_ca c = [] \<and> root_ca_certificate opts = None)
         \<or> fresh_root_ca_certificate opts then 1 else 0)
     + (if coll = None \<or> fresh_endorsements opts then 4 else 0)"

definition consume_root :: "options \<Rightarrow> HTTPResponse list \<Rightarrow> collateral \<Rightarrow> (collateral \<times> nat) result" where
  "consume_root opts rs r =
     (if root_ca_certificate opts = None then
        andthen (response_at rs 0) (\<lambda>x. andthen (check_http_200 x) (\<lambda>_.
          Inr (r\<lparr>root_ca := body x\<rparr>, 1)))
      else Inr (r, 0))"

text \<open>The four responses from index \<open>i\<close> on; the QE and the QVE identity are taken the same way.\<close>

definition consume_fresh :: "HTTPResponse list \<Rightarrow> nat \<Rightarrow> collateral \<Rightarrow> collateral result" where
  "consume_fresh rs i r =
     andthen (response_at rs i) (\<lambda>crl. andthen (check_http_200 crl) (\<lambda>_.
     andthen (response_at rs (i + 1)) (\<lambda>tcb. andthen (check_http_200 tcb) (\<lambda>_.
     andthen (get_header_string tcb ''SGX-TCB-Info-Issuer-Chain'' True) (\<lambda>tcb_chain.
     andthen (response_at rs (i + 2)) (\<lambda>pck. andthen (check_http_200 pck) (\<lambda>_.
     andthen (get_header_string pck ''SGX-PCK-CRL-Issuer-Chain'' True) (\<lambda>pck_chain.
     andthen (response_at rs (i + 3)) (\<lambda>qe. andthen (check_http_200 qe) (\<lambda>_.
     andthen (get_header_string qe ''SGX-Enclave-Identity-Issuer-Chain'' True) (\<lambda>qe_chain.
       Inr (r\<lparr>root_ca_crl := body crl, tcb_info := body tcb, tcb_info_issuer_chain := tcb_chain,
              pck_crl := body pck, pck_crl_issuer_chain := pck_chain,
              qe_identity := body qe, qe_identity_issuer_chain := qe_chain\<rparr>))))))))))))"

definition consume_url_responses ::
  "options \<Rightarrow> HTTPResponse list \<Rightarrow> collateral option \<Rightarrow> collateral result" where
  "consume_url_responses opts rs coll =
     throw_if (length rs \<noteq> expected_responses opts coll)
       (Runtime_Error ''collateral download request set of unexpected size'')
     (let r = (case coll of Some c \<Rightarrow> c | None \<Rightarrow> default_collateral)
      in andthen (consume_root opts rs r) (\<lambda>(r, i).
           if length rs > 4 then consume_fresh rs i r else Inr r))"

section \<open>Requests and responses fit together, or do not\<close>

lemma check_http_200_Inr [result_simps]: "check_http_200 r = Inr u \<longleftrightarrow> status r = 200"
  by (simp add: check_http_200_def throw_if_Inr)

lemma response_at_Inr [result_simps]: "response_at rs i = Inr r \<longleftrightarrow> i < length rs \<and> r = rs ! i"
  by (auto simp: response_at_def)

lemma download_collateral_length:
  "download_collateral vf ca fmspc opts qve = Inr qs \<Longrightarrow>
     length qs = (if root_ca_certificate opts = None then 5 else 4)"
  by (auto simp: download_collateral_def Let_def andthen_Inr split: option.splits if_splits)

lemma get_header_string_safe [simp]: "clean (get_header_string r name u)"
  by (auto simp: get_header_string_def get_header_data_def split: option.splits)

lemma consume_fresh_Inr:
  "consume_fresh rs i r = Inr c \<Longrightarrow> i + 3 < length rs
     \<and> status (rs ! i) = 200 \<and> status (rs ! (i + 1)) = 200 \<and> status (rs ! (i + 2)) = 200
     \<and> status (rs ! (i + 3)) = 200
     \<and> root_ca_crl c = body (rs ! i) \<and> tcb_info c = body (rs ! (i + 1))
     \<and> pck_crl c = body (rs ! (i + 2)) \<and> qe_identity c = body (rs ! (i + 3))
     \<and> get_header_string (rs ! (i + 1)) ''SGX-TCB-Info-Issuer-Chain'' True = Inr (tcb_info_issuer_chain c)
     \<and> get_header_string (rs ! (i + 2)) ''SGX-PCK-CRL-Issuer-Chain'' True = Inr (pck_crl_issuer_chain c)
     \<and> get_header_string (rs ! (i + 3)) ''SGX-Enclave-Identity-Issuer-Chain'' True
         = Inr (qe_identity_issuer_chain c)
     \<and> root_ca c = root_ca r"
  unfolding consume_fresh_def andthen_Inr check_http_200_Inr response_at_Inr
  by (elim exE conjE, hypsubst) (simp only: sum.inject collateral.simps, hypsubst, simp)

text \<open>
  A download with no custom root and no collateral: each field comes from the response to the request
  made for it.
\<close>

lemma consume_download:
  assumes "download_collateral vf ca fmspc opts False = Inr qs"
    and "root_ca_certificate opts = None" and "sgx_endorsement_cache_url_template opts = None"
    and "rs = map answer qs" and "consume_url_responses opts rs None = Inr c"
  shows "root_ca c = body (answer (http_request root_ca_url))"
    and "root_ca_crl c = body (answer (http_request root_crl_url))"
    and "tcb_info c = body (answer (http_request (tcb_url @ ''?fmspc='' @ fmspc)))"
    and "pck_crl c = body (answer (http_request (pck_crl_url @ ''?ca='' @ ca @ ''&encoding=pem'')))"
    and "qe_identity c = body (answer (http_request qe_identity_url))"
proof -
  have qs: "qs = [http_request root_ca_url, http_request root_crl_url,
      http_request (tcb_url @ ''?fmspc='' @ fmspc),
      http_request (pck_crl_url @ ''?ca='' @ ca @ ''&encoding=pem''), http_request qe_identity_url]"
    using assms(1-3) by (simp add: download_collateral_def Let_def)
  then have l: "length rs = 5" using assms(4) by simp
  from assms(5) l assms(2) obtain r where r: "consume_root opts rs default_collateral = Inr (r, 1)"
    and f: "consume_fresh rs 1 r = Inr c"
    unfolding consume_url_responses_def throw_if_Inr andthen_Inr Let_def
    by (auto simp: consume_root_def andthen_Inr)
  have rc: "root_ca r = body (rs ! 0)"
    using r assms(2) by (auto simp: consume_root_def andthen_Inr response_at_Inr)
  from consume_fresh_Inr[OF f] rc
  show "root_ca c = body (answer (http_request root_ca_url))"
    and "root_ca_crl c = body (answer (http_request root_crl_url))"
    and "tcb_info c = body (answer (http_request (tcb_url @ ''?fmspc='' @ fmspc)))"
    and "pck_crl c = body (answer (http_request (pck_crl_url @ ''?ca='' @ ca @ ''&encoding=pem'')))"
    and "qe_identity c = body (answer (http_request qe_identity_url))"
    by (simp_all add: assms(4) qs numeral_2_eq_2 numeral_3_eq_3)
qed

text \<open>
  With a custom root certificate the request for the root is left out, but a response for it is still
  expected: no set of responses to these requests is accepted.
\<close>

lemma custom_root_rejected:
  assumes "download_collateral vf ca fmspc opts False = Inr qs"
    and "root_ca_certificate opts \<noteq> None" and "length rs = length qs"
  shows "consume_url_responses opts rs None =
     Inl (Runtime_Error ''collateral download request set of unexpected size'')"
  using assms download_collateral_length[OF assms(1)]
  by (auto simp: consume_url_responses_def expected_responses_def)

text \<open>
  With fresh endorsements, a custom root and collateral already there, four responses are accepted and
  then ignored: the old collateral is used.
\<close>

lemma fresh_endorsements_ignored:
  assumes "root_ca_certificate opts \<noteq> None" and "fresh_endorsements opts"
    and "\<not> fresh_root_ca_certificate opts" and "length rs = 4"
  shows "consume_url_responses opts rs (Some c) = Inr c"
  using assms by (auto simp: consume_url_responses_def expected_responses_def consume_root_def)

text \<open>
  A response set of the expected size for collateral whose root is empty is never indexed out of range.
\<close>

lemma consume_url_responses_clean:
  assumes "case coll of None \<Rightarrow> True | Some c \<Rightarrow> root_ca c = []"
  shows "clean (consume_url_responses opts rs coll)"
proof -
  have cr: "clean (consume_root opts rs r)" if "length rs = expected_responses opts coll" for r
    using that assms
  proof (cases "root_ca_certificate opts = None")
    case True
    with that assms have "0 < length rs" by (auto simp: expected_responses_def split: option.splits)
    with True show ?thesis
      by (auto simp: consume_root_def response_at_def check_http_200_def intro!: clean_intros)
  next
    case False
    then show ?thesis by (auto simp: consume_root_def)
  qed
  have i: "i \<le> 1" if "consume_root opts rs r = Inr (r', i)" for r r' i
    using that by (auto simp: consume_root_def andthen_Inr split: if_splits)
  have cf: "clean (consume_fresh rs i r)" if "i + 3 < length rs" for i r
    using that unfolding consume_fresh_def
    by (auto simp: response_at_def check_http_200_def intro!: clean_intros)
  show ?thesis
    unfolding consume_url_responses_def Let_def
    by (intro clean_throw_if clean_andthen) (auto intro!: cr cf dest!: i)
qed

end
