(* ===== verification/Printing.thy ===== *)
theory Printing
  imports Crypto
begin

text \<open>
  The reports \<open>to_string_short\<close> of \<open>include/ravl/crypto.h\<close>, and the lines that the verification of a chain
  writes when the option \<open>verbosity\<close> asks for them.  A report may throw: printing a time fails when the
  library cannot, and the next update of a revocation list is printed without asking whether there is one.
\<close>

section \<open>Certificates\<close>

text \<open>\<open>(std::string)x509.subject_key_id()\<close> or \<open>none\<close>, and the same for the authority.\<close>

definition key_id_text :: "'h openssl \<Rightarrow> bool \<Rightarrow> bytes result \<Rightarrow> string result" where
  "key_id_text ssl has key_id = (if has then andthen key_id (\<lambda>k. Inr (i2s_octet_string ssl k)) else Inr ''none'')"

definition x509_to_string_short :: "'h openssl \<Rightarrow> 'h \<Rightarrow> nat \<Rightarrow> string result" where
  "x509_to_string_short ssl x indent =
     (let ins = spaces indent in
      andthen (key_id_text ssl (x509_subject_key_id ssl x \<noteq> None) (subject_key_id ssl x)) (\<lambda>subj_key_id.
      andthen (key_id_text ssl (x509_authority_key_id ssl x \<noteq> None) (authority_key_id ssl x)) (\<lambda>auth_key_id.
      andthen (checknull (x509_not_before_text ssl x)) (\<lambda>not_before.
      andthen (checknull (x509_not_after_text ssl x)) (\<lambda>not_after.
        Inr (ins @ ''- Subject: '' @ x509_subject_text ssl x @ endl
           @ ins @ ''  - Subject key ID: '' @ subj_key_id @ endl
           @ ins @ ''  - Authority key ID: '' @ auth_key_id @ endl
           @ ins @ ''  - CA: '' @ (if is_ca ssl x then ''yes'' else ''no'') @ endl
           @ ins @ ''  - Not before: '' @ not_before @ ''  Not after: '' @ not_after))))))"

fun stack_short_loop :: "'h openssl \<Rightarrow> 'h list \<Rightarrow> nat \<Rightarrow> nat \<Rightarrow> string \<Rightarrow> string result" where
  "stack_short_loop ssl [] i indent ss = Inr ss"
| "stack_short_loop ssl (x # xs) i indent ss =
     andthen (x509_to_string_short ssl x (indent + 2)) (\<lambda>s.
       stack_short_loop ssl xs (Suc i) indent (ss @ (if i \<noteq> 0 then endl else []) @ s))"

definition stack_to_string_short :: "'h openssl \<Rightarrow> 'h list \<Rightarrow> nat \<Rightarrow> string result" where
  "stack_to_string_short ssl stack indent = stack_short_loop ssl stack 0 indent []"

section \<open>Revocation lists\<close>

definition crl_issuer :: "'h openssl \<Rightarrow> 'h \<Rightarrow> string result" where
  "crl_issuer ssl crl = checknull (crl_issuer_text ssl crl)"

definition crl_next_update :: "'h openssl \<Rightarrow> 'h \<Rightarrow> string result" where
  "crl_next_update ssl crl = (case crl_next_update_text ssl crl of
       None \<Rightarrow> Inl (Undefined_Behaviour ''ASN1_TIME_print of a null pointer'') | Some t \<Rightarrow> Inr t)"

definition crl_to_string_short :: "'h openssl \<Rightarrow> 'h \<Rightarrow> nat \<Rightarrow> string result" where
  "crl_to_string_short ssl crl indent =
     (let rkd = crl_revoked_serials ssl crl; ins = spaces indent in
      andthen (crl_issuer ssl crl) (\<lambda>issuer.
      andthen (checknull (crl_last_update_text ssl crl)) (\<lambda>last_update.
      andthen (crl_next_update ssl crl) (\<lambda>next_update.
        Inr (ins @ ''- Issuer: '' @ issuer @ endl
           @ ins @ ''- Revoked serial numbers: '' @ (if rkd = [] then ''none'' else []) @ endl
           @ concat (map (\<lambda>sn. ins @ ''- '' @ sn @ endl) rkd)
           @ ins @ ''- Last update: '' @ last_update @ ''  Next update: '' @ next_update)))))"

section \<open>The lines of a chain\<close>

text \<open>One certificate of \<open>verify_certificate_chain\<close> with its PEM text at \<open>verbosity\<close> 2 and above.\<close>

definition log_certificate :: "'h openssl \<Rightarrow> byte \<Rightarrow> 'h \<Rightarrow> nat \<Rightarrow> unit result" where
  "log_certificate ssl v c indent =
     andthen (x509_to_string_short ssl c indent) (\<lambda>_.
       logged (1 < v) (indented (x509_pem ssl c) (indent + 4)) (Inr ()))"

definition log_chain :: "'h openssl \<Rightarrow> byte \<Rightarrow> 'h list \<Rightarrow> nat \<Rightarrow> unit result" where
  "log_chain ssl v stack indent =
     (if 0 < v then for_each stack (\<lambda>c _. log_certificate ssl v c indent) () else Inr ())"

section \<open>When printing succeeds\<close>

text \<open>A library that can print every certificate and every revocation list it has read.\<close>

definition prints :: "'h openssl \<Rightarrow> bool" where
  "prints ssl \<longleftrightarrow> (\<forall>x. x509_not_before_text ssl x \<noteq> None \<and> x509_not_after_text ssl x \<noteq> None
     \<and> crl_issuer_text ssl x \<noteq> None \<and> crl_last_update_text ssl x \<noteq> None \<and> crl_next_update_text ssl x \<noteq> None)"

lemma key_id_text_simps [simp]:
  "is_ok (key_id_text ssl (x509_subject_key_id ssl x \<noteq> None) (subject_key_id ssl x))"
  "is_ok (key_id_text ssl (x509_authority_key_id ssl x \<noteq> None) (authority_key_id ssl x))"
  by (auto simp: key_id_text_def subject_key_id_def authority_key_id_def split: option.splits)

lemma is_ok_andthen: "is_ok m \<Longrightarrow> (\<And>x. m = Inr x \<Longrightarrow> is_ok (f x)) \<Longrightarrow> is_ok (andthen m f)"
  by (cases m) auto

lemma clean_of_is_ok: "is_ok m \<Longrightarrow> clean m"
  by (cases m) auto

lemma is_ok_logged: "is_ok txt \<Longrightarrow> is_ok k \<Longrightarrow> is_ok (logged on txt k)"
  by (auto simp: logged_def intro: is_ok_andthen)

lemma x509_short_clean [simp]: "clean (x509_to_string_short ssl x indent)"
  unfolding x509_to_string_short_def Let_def
  by (intro clean_andthen clean_of_is_ok[OF key_id_text_simps(1)] clean_of_is_ok[OF key_id_text_simps(2)]) simp_all

lemma log_chain_clean [simp]: "clean (log_chain ssl v stack indent)"
  unfolding log_chain_def log_certificate_def
  by (auto intro!: clean_for_each clean_andthen logged_clean)

lemma x509_short_prints: "prints ssl \<Longrightarrow> is_ok (x509_to_string_short ssl x indent)"
  unfolding x509_to_string_short_def Let_def
  by (intro is_ok_andthen key_id_text_simps) (auto simp: prints_def checknull_def split: option.split)

lemma stack_short_prints: "prints ssl \<Longrightarrow> is_ok (stack_to_string_short ssl stack indent)"
proof -
  assume p: "prints ssl"
  have "is_ok (stack_short_loop ssl stack i indent ss)" for i ss
    using x509_short_prints[OF p] by (induction stack arbitrary: i ss) (auto intro: is_ok_andthen)
  then show ?thesis by (simp add: stack_to_string_short_def)
qed

lemma crl_short_prints: "prints ssl \<Longrightarrow> is_ok (crl_to_string_short ssl crl indent)"
  unfolding crl_to_string_short_def crl_issuer_def crl_next_update_def Let_def
  by (intro is_ok_andthen) (auto simp: prints_def checknull_def split: option.split)

lemma log_chain_off [simp]: "log_chain ssl 0 stack indent = Inr ()"
  by (simp add: log_chain_def)

lemma log_chain_prints: "prints ssl \<Longrightarrow> log_chain ssl v stack indent = Inr ()"
proof -
  assume p: "prints ssl"
  have "log_certificate ssl v c indent = Inr ()" for c
    using x509_short_prints[OF p, of c indent]
    by (auto simp: log_certificate_def is_ok_iff logged_def indented_eq)
  then have "for_each stack (\<lambda>c _. log_certificate ssl v c indent) () = Inr ()" by (induction stack) auto
  then show ?thesis by (simp add: log_chain_def)
qed

end
