(* ===== verification/CertChain.thy ===== *)
theory CertChain
  imports Printing
begin

text \<open>
  \<open>verify_certificate_chain\<close> and \<open>verify_certificate\<close> of \<open>include/ravl/crypto.h\<close>, and the store they
  work on.
\<close>

section \<open>Verifying a certificate chain\<close>

definition missing_aki_cb :: "int \<Rightarrow> bool \<Rightarrow> int" where
  "missing_aki_cb ok ec_is_missing_authority_key_identifier =
     (if ec_is_missing_authority_key_identifier then 1 else ok)"

text \<open>\<open>UqX509_STORE_CTX::verify_cert\<close> returns \<open>bool\<close>; the caller widens it to \<open>int\<close> again.\<close>

definition verify_cert :: "'h openssl \<Rightarrow> 'h \<Rightarrow> bool" where
  "verify_cert ssl ctx = (x509_verify_cert ssl ctx \<noteq> 0)"

definition chain_param :: "cert_validation_options \<Rightarrow> verify_param" where
  "chain_param opts = \<lparr>vp_depth = 2147483647, vp_auth_level = 0,
     vp_flags = [X509_STRICT, CHECK_SS_SIGNATURE, PARTIAL_CHAIN]
       @ (if ignore_time opts then [NO_CHECK_TIME] else [])\<rparr>"

definition set_verification_time :: "'h openssl \<Rightarrow> int option \<Rightarrow> 'h \<Rightarrow> 'h" where
  "set_verification_time ssl t ctx = (case t of None \<Rightarrow> ctx | Some t \<Rightarrow> ctx_set_time ssl t ctx)"

definition chain_ctx :: "'h openssl \<Rightarrow> cert_validation_options \<Rightarrow> 'h \<Rightarrow> 'h" where
  "chain_ctx ssl opts ctx =
     (let ctx = set_verification_time ssl (verification_time opts) ctx;
          ctx = ctx_set0_param ssl (chain_param opts) ctx
      in ctx_set_verify_cb ssl missing_aki_cb ctx)"

text \<open>
  \<open>verify_certificate_chain(store, stack, options, trusted_root)\<close>.  The store is the caller's object:
  a trusted root stays in it, so the updated store is returned with the chain.
\<close>

definition verify_chain_ctx ::
  "'h openssl \<Rightarrow> 'h \<Rightarrow> 'h list \<Rightarrow> cert_validation_options \<Rightarrow> bool \<Rightarrow> ('h \<times> 'h list) result" where
  "verify_chain_ctx ssl store stack opts trusted_root =
     throw_if (length stack \<le> 1) (Runtime_Error ''certificate stack too small'')
     (andthen (if trusted_root
               then andthen (stack_back stack) (\<lambda>r. Inr (store_add_cert ssl r store))
               else Inr store) (\<lambda>store.
      andthen (stack_at stack 0) (\<lambda>target.
      andthen (checknull (ctx_init ssl store target stack)) (\<lambda>ctx.
        let ctx = chain_ctx ssl opts ctx;
            rc = (if verify_cert ssl ctx then 1 else 0 :: int)
        in if rc = 1 then Inr (store, ctx_get1_chain ssl ctx)
           else if rc = 0 then Inl (Runtime_Error ''certificate chain verification failed'')
           else Inl openssl_error))))"

text \<open>
  The overload with logging: the certificates are printed first, outside the \<open>try\<close>; a chain of fewer than
  two certificates is refused, and every exception of the verification becomes a \<open>std::runtime_error\<close>.
\<close>

definition verify_certificate_chain ::
  "'h openssl \<Rightarrow> 'h list \<Rightarrow> 'h \<Rightarrow> cert_validation_options \<Rightarrow> bool \<Rightarrow> byte \<Rightarrow> nat \<Rightarrow> ('h \<times> 'h list) result" where
  "verify_certificate_chain ssl stack store opts trusted_root v indent =
     andthen (log_chain ssl v stack indent) (\<lambda>_.
     rethrow_as Runtime_Error (Runtime_Error ''unknown exception'')
       (andthen (verify_chain_ctx ssl store stack opts trusted_root) (\<lambda>(store, chain).
          throw_if (length chain < 2) (Runtime_Error ''certificate chain is too short'')
            (Inr (store, chain)))))"

definition verify_certificate_chain_pem ::
  "'h openssl \<Rightarrow> bytes \<Rightarrow> 'h \<Rightarrow> cert_validation_options \<Rightarrow> bool \<Rightarrow> byte \<Rightarrow> nat \<Rightarrow> ('h \<times> 'h list) result" where
  "verify_certificate_chain_pem ssl pem store opts trusted_root v indent =
     andthen (stack_of_pem ssl pem)
       (\<lambda>stack. verify_certificate_chain ssl stack store opts trusted_root v indent)"

definition self_signed_param :: "cert_validation_options \<Rightarrow> verify_param" where
  "self_signed_param opts = \<lparr>vp_depth = 2147483647, vp_auth_level = 0,
     vp_flags = [X509_STRICT, CHECK_SS_SIGNATURE] @ (if ignore_time opts then [NO_CHECK_TIME] else [])\<rparr>"

definition verify_certificate ::
  "'h openssl \<Rightarrow> 'h \<Rightarrow> 'h \<Rightarrow> cert_validation_options \<Rightarrow> bool result" where
  "verify_certificate ssl store certificate opts =
     andthen (checknull (ctx_init ssl store certificate [])) (\<lambda>ctx.
       let ctx = set_verification_time ssl (verification_time opts) ctx;
           ctx = ctx_set0_param ssl (self_signed_param opts) ctx;
           rc = (if verify_cert ssl ctx then 1 else 0 :: int)
       in if rc = 1 then Inr True
          else if rc = 0 then Inl (Runtime_Error ''certificate not self-signed or signature invalid'')
          else Inl openssl_error)"

text \<open>\<open>store.add(pem)\<close> and \<open>store.add_crl(pem)\<close>; the latter passes \<open>pem.data()\<close>, a C string.\<close>

definition store_add_pem :: "'h openssl \<Rightarrow> string \<Rightarrow> 'h \<Rightarrow> 'h result" where
  "store_add_pem ssl pem store =
     andthen (x509_of ssl (bytes_of pem) True) (\<lambda>x. Inr (store_add_cert ssl x store))"

definition store_add_crl_pem :: "'h openssl \<Rightarrow> string \<Rightarrow> 'h \<Rightarrow> 'h result" where
  "store_add_crl_pem ssl pem store =
     andthen (crl_of ssl (bytes_of (c_str pem)) True) (\<lambda>c. checknull (store_add_crl ssl c store))"

definition store_add_crl_opt :: "'h openssl \<Rightarrow> 'h option \<Rightarrow> 'h \<Rightarrow> 'h result" where
  "store_add_crl_opt ssl crl store = (case crl of
       None \<Rightarrow> Inr store | Some c \<Rightarrow> checknull (store_add_crl ssl c store))"

lemma verify_chain_ctx_clean [simp]: "clean (verify_chain_ctx ssl store stack opts tr)"
  unfolding verify_chain_ctx_def Let_def
  by (cases tr) (auto intro!: clean_intros)

lemma verify_certificate_chain_clean [simp]: "clean (verify_certificate_chain ssl stack store opts tr v indent)"
  unfolding verify_certificate_chain_def
  by (intro clean_rethrow_as clean_andthen log_chain_clean) (auto intro: clean_throw_if)

lemma stack_of_pem_clean [simp]: "clean (stack_of_pem ssl pem)"
proof -
  have "clean (stack_of_infos is st)" for "is" and st :: "'a list"
    by (induction "is" st rule: stack_of_infos.induct) simp_all
  then show ?thesis by (simp add: stack_of_pem_def)
qed

lemma verify_certificate_chain_pem_clean [simp]:
  "clean (verify_certificate_chain_pem ssl pem store opts tr v indent)"
  unfolding verify_certificate_chain_pem_def by (intro clean_andthen) auto

text \<open>What an accepted chain guarantees.\<close>

lemma verify_certificate_chain_Inr:
  assumes "verify_certificate_chain ssl stack store opts tr v indent = Inr (store', chain)"
  shows "2 \<le> length chain" and "2 \<le> length stack"
    and "store' = (if tr then store_add_cert ssl (last stack) store else store)"
    and "\<exists>ctx. ctx_init ssl store' (hd stack) stack = Some ctx
       \<and> x509_verify_cert ssl (chain_ctx ssl opts ctx) \<noteq> 0
       \<and> chain = ctx_get1_chain ssl (chain_ctx ssl opts ctx)"
proof -
  from assms have v: "verify_chain_ctx ssl store stack opts tr = Inr (store', chain)"
    and "2 \<le> length chain"
    by (auto simp: verify_certificate_chain_def rethrow_as_Inr andthen_Inr throw_if_Inr)
  then show "2 \<le> length chain" by simp
  from v show l: "2 \<le> length stack" by (simp add: verify_chain_ctx_def throw_if_Inr)
  then have ne: "stack \<noteq> []" by auto
  have b: "stack_back stack = Inr (last stack)" and f: "stack_at stack 0 = Inr (hd stack)"
    using ne by (auto simp: stack_back_def stack_at_def last_conv_nth hd_conv_nth not_le)
  define st where "st = (if tr then store_add_cert ssl (last stack) store else store)"
  have st: "(if tr then andthen (stack_back stack) (\<lambda>r. Inr (store_add_cert ssl r store)) else Inr store)
      = Inr st" using b by (simp add: st_def)
  have "verify_chain_ctx ssl store stack opts tr =
      andthen (checknull (ctx_init ssl st (hd stack) stack)) (\<lambda>ctx.
        if verify_cert ssl (chain_ctx ssl opts ctx) then Inr (st, ctx_get1_chain ssl (chain_ctx ssl opts ctx))
        else Inl (Runtime_Error ''certificate chain verification failed''))"
  proof -
    have "(length stack \<le> 1) = False" using l by simp
    then show ?thesis
      by (simp only: verify_chain_ctx_def throw_if_simps st andthen_simps f)
        (rule andthen_cong[OF refl], simp add: Let_def)
  qed
  with v have "andthen (checknull (ctx_init ssl st (hd stack) stack)) (\<lambda>ctx.
        if verify_cert ssl (chain_ctx ssl opts ctx) then Inr (st, ctx_get1_chain ssl (chain_ctx ssl opts ctx))
        else Inl (Runtime_Error ''certificate chain verification failed'')) = Inr (store', chain)" by metis
  then obtain ctx where c: "ctx_init ssl st (hd stack) stack = Some ctx"
    and i: "(if verify_cert ssl (chain_ctx ssl opts ctx) then Inr (st, ctx_get1_chain ssl (chain_ctx ssl opts ctx))
        else Inl (Runtime_Error ''certificate chain verification failed'')) = Inr (store', chain)"
    unfolding andthen_Inr checknull_Inr by blast
  from i have ctx: "store' = st" "verify_cert ssl (chain_ctx ssl opts ctx)"
      "chain = ctx_get1_chain ssl (chain_ctx ssl opts ctx)"
    by (simp_all split: if_splits)
  then show "store' = (if tr then store_add_cert ssl (last stack) store else store)"
    by (simp add: st_def)
  from c ctx show "\<exists>ctx. ctx_init ssl store' (hd stack) stack = Some ctx
       \<and> x509_verify_cert ssl (chain_ctx ssl opts ctx) \<noteq> 0
       \<and> chain = ctx_get1_chain ssl (chain_ctx ssl opts ctx)"
    unfolding verify_cert_def by blast
qed

text \<open>Every failure of the chain check is a \<open>std::runtime_error\<close>.\<close>

lemma log_chain_Inl: "log_chain ssl v stack indent = Inl e \<Longrightarrow> \<exists>s. e = Runtime_Error s"
proof -
  have c: "log_certificate ssl v c indent = Inl e \<Longrightarrow> \<exists>s. e = Runtime_Error s" for c
    by (auto simp: log_certificate_def x509_to_string_short_def key_id_text_def subject_key_id_def authority_key_id_def
        Let_def andthen_Inl checknull_def openssl_error_def logged_def indented_eq split: if_splits option.splits)
  have "for_each stack (\<lambda>c _. log_certificate ssl v c indent) () = Inl e \<Longrightarrow> \<exists>s. e = Runtime_Error s"
    by (induction stack) (auto simp: andthen_Inl dest: c)
  then show "log_chain ssl v stack indent = Inl e \<Longrightarrow> \<exists>s. e = Runtime_Error s"
    by (simp add: log_chain_def split: if_splits)
qed

lemma verify_certificate_chain_Inl:
  assumes "verify_certificate_chain ssl stack store opts tr v indent = Inl e"
  shows "\<exists>s. e = Runtime_Error s"
proof -
  have "clean (andthen (verify_chain_ctx ssl store stack opts tr) (\<lambda>(store, chain).
          throw_if (length chain < 2) (Runtime_Error ''certificate chain is too short'')
            (Inr (store, chain))))"
    by (intro clean_andthen) (auto intro: clean_throw_if)
  from rethrow_as_runtime[OF this] assms log_chain_Inl show ?thesis
    unfolding verify_certificate_chain_def andthen_Inl by blast
qed

text \<open>What \<open>verbosity\<close> changes: only whether the certificates can be printed.\<close>

lemma verify_certificate_chain_quiet:
  "verify_certificate_chain ssl stack store opts tr v i = Inr r \<longleftrightarrow>
     log_chain ssl v stack i = Inr () \<and> verify_certificate_chain ssl stack store opts tr 0 j = Inr r"
  by (auto simp: verify_certificate_chain_def andthen_Inr)

lemma verify_certificate_chain_pem_quiet:
  assumes "verify_certificate_chain_pem ssl pem store opts tr v i = Inr r"
  shows "verify_certificate_chain_pem ssl pem store opts tr 0 j = Inr r"
  using assms verify_certificate_chain_quiet[of ssl _ store opts tr v i r j]
  unfolding verify_certificate_chain_pem_def andthen_Inr by auto

lemma verify_certificate_chain_prints:
  "prints ssl \<Longrightarrow> verify_certificate_chain ssl stack store opts tr v i =
     verify_certificate_chain ssl stack store opts tr 0 j"
  by (simp add: verify_certificate_chain_def log_chain_prints)

lemma verify_certificate_chain_pem_prints:
  assumes "prints ssl"
  shows "verify_certificate_chain_pem ssl pem store opts tr v i = verify_certificate_chain_pem ssl pem store opts tr 0 j"
proof -
  have "verify_certificate_chain ssl stack store opts tr v i = verify_certificate_chain ssl stack store opts tr 0 j"
    for stack by (rule verify_certificate_chain_prints[OF assms])
  then show ?thesis by (simp only: verify_certificate_chain_pem_def)
qed

end
