(* ===== verification/SgxReports.thy ===== *)
theory SgxReports
  imports SgxCollateral CertChain
begin

text \<open>
  What \<open>Attestation::verify\<close> of \<open>include/ravl/sgx_impl.h\<close> prints of the collateral and of the root
  certificate when \<open>verbosity\<close> asks for it.  The texts are written to the standard output and are not part
  of the result, but to print them the code reads the revocation lists and the chains once more, and each
  of these reads may throw.
\<close>

text \<open>A heading, the report below it, and the PEM text at verbosity 2 and above (\<open>pem_head\<close> opens it).\<close>

definition report_item :: "byte \<Rightarrow> string \<Rightarrow> string \<Rightarrow> string result \<Rightarrow> string \<Rightarrow> string \<Rightarrow> string result" where
  "report_item v ins heading report pem_head pem =
     andthen report (\<lambda>r.
     andthen (if 1 < v then andthen (indented pem 8) (\<lambda>p. Inr (ins @ pem_head @ endl @ p @ endl))
              else Inr []) (\<lambda>p.
       Inr (ins @ heading @ endl @ r @ endl @ p)))"

definition pem_heading :: string where
  "pem_heading = ''  - PEM:''"

definition crl_report :: "'h openssl \<Rightarrow> string \<Rightarrow> nat \<Rightarrow> string result" where
  "crl_report ssl pem indent =
     andthen (crl_of ssl (bytes_of pem) True) (\<lambda>crl. crl_to_string_short ssl crl indent)"

definition chain_report :: "'h openssl \<Rightarrow> string \<Rightarrow> nat \<Rightarrow> string result" where
  "chain_report ssl pem indent =
     andthen (stack_of_pem ssl (bytes_of pem)) (\<lambda>st. stack_to_string_short ssl st indent)"

definition collateral_to_string :: "'h openssl \<Rightarrow> collateral \<Rightarrow> byte \<Rightarrow> nat \<Rightarrow> string result" where
  "collateral_to_string ssl c v indent =
     (let ins = spaces (indent + 2);
          head = spaces indent @ ''- SGX Collateral'' @ endl
            @ ins @ ''- Version: '' @ decimal (unat (major_version c)) @ ''.''
            @ decimal (unat (minor_version c)) @ endl
            @ ins @ ''- TEE type: 0x'' @ hex_number_08 (unat (tee_type c)) @ endl
      in if v = 0 then Inr head
         else
           andthen (report_item v ins ''- Root CA CRL:'' (crl_report ssl (root_ca_crl c) (indent + 4))
                      pem_heading (root_ca_crl c)) (\<lambda>a.
           andthen (report_item v ins ''- PCK CRL issuer chain:''
                      (chain_report ssl (pck_crl_issuer_chain c) (indent + 4))
                      pem_heading (pck_crl_issuer_chain c)) (\<lambda>b.
           andthen (report_item v ins ''- PCK CRL:'' (crl_report ssl (pck_crl c) (indent + 4))
                      pem_heading (pck_crl c)) (\<lambda>d.
           andthen (report_item v ins ''- TCB info issuer chain:''
                      (chain_report ssl (tcb_info_issuer_chain c) (indent + 4))
                      pem_heading (tcb_info_issuer_chain c)) (\<lambda>e.
           andthen (report_item v ins ''- QE identity issuer chain:''
                      (chain_report ssl (qe_identity_issuer_chain c) (indent + 4))
                      pem_heading (qe_identity_issuer_chain c)) (\<lambda>f.
             Inr (head @ a @ b @ d @ e @ ins @ ''- TCB info: '' @ tcb_info c @ endl
                @ f @ ins @ ''- QE identity: '' @ qe_identity c)))))))"

text \<open>
  The root certificate after the first chain: the chain's own root when it is trusted for want of another,
  otherwise the collateral's, read once more.
\<close>

definition root_report :: "'h openssl \<Rightarrow> collateral \<Rightarrow> bool \<Rightarrow> 'h list \<Rightarrow> byte \<Rightarrow> nat \<Rightarrow> string result" where
  "root_report ssl c trusted_root chain v indent =
     andthen (if trusted_root then stack_back chain else x509_of ssl (bytes_of (root_ca c)) True) (\<lambda>root.
     andthen (x509_to_string_short ssl root (indent + 4)) (\<lambda>short.
     andthen (if 1 < v then if trusted_root then indented (x509_pem ssl root) (indent + 6)
                else Inr (spaces (indent + 6) @ root_ca c)
              else Inr []) (\<lambda>pem.
       Inr (spaces (indent + 2) @ (if trusted_root then ''- Root CA Certificate (auto-trusted):'' else ''- Root CA Certificate:'') @ endl @ short @ endl
          @ (if 1 < v then spaces (indent + 4) @ '' PEM:'' @ endl @ pem @ endl else [])))))"

lemma report_item_is_ok: "is_ok (report_item v ins h r ph pem) \<longleftrightarrow> is_ok r"
  by (cases r) (auto simp: report_item_def indented_eq)

lemma root_report_prints:
  assumes "prints ssl" and "chain \<noteq> []"
    and "\<not> tr \<Longrightarrow> is_ok (x509_of ssl (bytes_of (root_ca c)) True)"
  shows "is_ok (root_report ssl c tr chain v indent)"
proof -
  have "is_ok (stack_back chain)" using assms(2) by (cases chain rule: rev_cases) (auto simp: stack_back_def stack_at_def)
  then show ?thesis
    unfolding root_report_def using assms(3) x509_short_prints[OF assms(1)]
    by (auto intro!: is_ok_andthen)
qed

lemma chain_report_prints:
  "prints ssl \<Longrightarrow> is_ok (stack_of_pem ssl (bytes_of pem)) \<Longrightarrow> is_ok (chain_report ssl pem indent)"
  unfolding chain_report_def by (auto intro: is_ok_andthen stack_short_prints)

lemma crl_report_prints:
  "prints ssl \<Longrightarrow> is_ok (crl_of ssl (bytes_of pem) True) \<Longrightarrow> is_ok (crl_report ssl pem indent)"
  unfolding crl_report_def by (auto intro: is_ok_andthen crl_short_prints)

text \<open>The report can be printed when every text of the collateral can be read.\<close>

lemma collateral_to_string_prints:
  assumes "prints ssl"
    and "is_ok (crl_of ssl (bytes_of (root_ca_crl c)) True)" "is_ok (crl_of ssl (bytes_of (pck_crl c)) True)"
    and "is_ok (stack_of_pem ssl (bytes_of (pck_crl_issuer_chain c)))"
    and "is_ok (stack_of_pem ssl (bytes_of (tcb_info_issuer_chain c)))"
    and "is_ok (stack_of_pem ssl (bytes_of (qe_identity_issuer_chain c)))"
  shows "is_ok (collateral_to_string ssl c v indent)"
proof -
  note crl = crl_report_prints[OF assms(1)] and chain = chain_report_prints[OF assms(1)]
  show ?thesis
    unfolding collateral_to_string_def Let_def
    by (auto intro!: is_ok_andthen simp: report_item_is_ok crl[OF assms(2)] crl[OF assms(3)]
        chain[OF assms(4)] chain[OF assms(5)] chain[OF assms(6)])
qed

end
