(* ===== verification/Json.thy ===== *)
theory Json
  imports StdMap
begin

text \<open>
  The JSON values of \<open>include/ravl/json.h\<close> and the accessors of \<open>nlohmann::basic_json\<close> the code uses
  on them.  Parsing and printing are parameters; the accessors are written out with the failure each
  one has.  A floating-point number is kept as its truncation toward zero, which is all a conversion
  to an integer type reads of it.
\<close>

section \<open>Values\<close>

datatype json =
    J_Null
  | J_Bool bool
  | J_Int int
  | J_Float int
  | J_String string
  | J_Array "json list"
  | J_Object "(string, json) std_map"
  | J_Binary bytes

fun is_null :: "json \<Rightarrow> bool" where
  "is_null J_Null = True"
| "is_null _ = False"

section \<open>Element access\<close>

definition json_type_error :: failure where
  "json_type_error = Json_Error ''type_error''"

definition json_out_of_range :: failure where
  "json_out_of_range = Json_Error ''out_of_range''"

text \<open>\<open>j.at(key)\<close>.\<close>

definition json_at :: "json \<Rightarrow> string \<Rightarrow> json result" where
  "json_at j k = (case j of
       J_Object m \<Rightarrow> (case map_find k m of Some v \<Rightarrow> Inr v | None \<Rightarrow> Inl json_out_of_range)
     | _ \<Rightarrow> Inl json_type_error)"

text \<open>\<open>j.contains(key)\<close> and \<open>j.find(key) != j.end()\<close>; both are false on a value that is no object.\<close>

definition json_contains :: "json \<Rightarrow> string \<Rightarrow> bool" where
  "json_contains j k = (case j of J_Object m \<Rightarrow> map_find k m \<noteq> None | _ \<Rightarrow> False)"

text \<open>
  \<open>j[key]\<close> on a mutable value: a null value becomes an object, a missing key is inserted with the value
  null.  The code reads the copy it gets, so the result is the value read.
\<close>

definition json_sub :: "json \<Rightarrow> string \<Rightarrow> json result" where
  "json_sub j k = (case j of
       J_Object m \<Rightarrow> Inr (case map_find k m of Some v \<Rightarrow> v | None \<Rightarrow> J_Null)
     | J_Null \<Rightarrow> Inr J_Null
     | _ \<Rightarrow> Inl json_type_error)"

text \<open>\<open>j[key]\<close> on a constant value: the key must be present.\<close>

definition json_sub_const :: "json \<Rightarrow> string \<Rightarrow> json result" where
  "json_sub_const j k = (case j of
       J_Object m \<Rightarrow> (case map_find k m of Some v \<Rightarrow> Inr v
          | None \<Rightarrow> Inl (Undefined_Behaviour ''operator[] on a missing key of a const json''))
     | _ \<Rightarrow> Inl json_type_error)"

text \<open>
  \<open>for (auto& x : j)\<close>: the elements of an array, the values of an object, the value itself for any
  other value but null.
\<close>

definition json_elements :: "json \<Rightarrow> json list" where
  "json_elements j = (case j of
       J_Null \<Rightarrow> []
     | J_Array xs \<Rightarrow> xs
     | J_Object m \<Rightarrow> map snd m
     | _ \<Rightarrow> [j])"

section \<open>Conversions\<close>

text \<open>
  \<open>j.get<T>()\<close> for an integer type: a number is cast, which reduces it modulo \<open>2 ^ LENGTH('w)\<close>.  The
  overload for types other than the JSON number types takes a boolean too, that for \<open>uint64_t\<close> does not.
\<close>

definition json_get_word :: "json \<Rightarrow> ('w::len word) result" where
  "json_get_word j = (case j of
       J_Int i \<Rightarrow> Inr (of_int i)
     | J_Float i \<Rightarrow> Inr (of_int i)
     | J_Bool b \<Rightarrow> Inr (of_bool b)
     | _ \<Rightarrow> Inl json_type_error)"

definition json_get_u64 :: "json \<Rightarrow> u64 result" where
  "json_get_u64 j = (case j of
       J_Int i \<Rightarrow> Inr (of_int i)
     | J_Float i \<Rightarrow> Inr (of_int i)
     | _ \<Rightarrow> Inl json_type_error)"

definition json_get_string :: "json \<Rightarrow> string result" where
  "json_get_string j = (case j of J_String s \<Rightarrow> Inr s | _ \<Rightarrow> Inl json_type_error)"

text \<open>\<open>j.get<std::vector<uint8_t>>()\<close>.\<close>

definition json_get_bytes :: "json \<Rightarrow> bytes result" where
  "json_get_bytes j = (case j of
       J_Array xs \<Rightarrow> for_each xs (\<lambda>x acc. andthen (json_get_word x) (\<lambda>b. Inr (acc @ [b]))) []
     | _ \<Rightarrow> Inl json_type_error)"

definition json_of_bytes :: "bytes \<Rightarrow> json" where
  "json_of_bytes v = J_Array (map (\<lambda>b. J_Int (uint b)) v)"

section \<open>What the accessors can do\<close>

lemma json_at_object [simp]:
  "json_at (J_Object m) k = (case map_find k m of Some v \<Rightarrow> Inr v | None \<Rightarrow> Inl json_out_of_range)"
  by (simp add: json_at_def)

lemma json_at_Inr: "json_at j k = Inr v \<longleftrightarrow> (\<exists>m. j = J_Object m \<and> map_find k m = Some v)"
  by (cases j) (auto simp: json_at_def split: option.splits)

lemma json_contains_at: "json_contains j k \<longleftrightarrow> is_ok (json_at j k)"
  by (cases j) (auto simp: json_contains_def json_at_def is_ok_def split: option.splits)

lemma json_sub_of_at: "json_at j k = Inr v \<Longrightarrow> json_sub j k = Inr v \<and> json_sub_const j k = Inr v"
  by (auto simp: json_at_Inr json_sub_def json_sub_const_def)

lemma json_errors_catchable [simp]: "catchable json_type_error" "catchable json_out_of_range"
  "is_std_exception json_type_error" "is_std_exception json_out_of_range"
  by (simp_all add: json_type_error_def json_out_of_range_def)

lemma json_at_safe [simp]: "\<not> undefined_behaviour (json_at j k)"
  by (cases j) (auto simp: json_at_def split: option.splits)

lemma json_sub_safe [simp]: "\<not> undefined_behaviour (json_sub j k)"
  by (cases j) (auto simp: json_sub_def split: option.splits)

lemma json_get_word_safe [simp]: "\<not> undefined_behaviour (json_get_word j)"
  by (cases j) (simp_all add: json_get_word_def)

lemma json_get_u64_safe [simp]: "\<not> undefined_behaviour (json_get_u64 j)"
  by (cases j) (simp_all add: json_get_u64_def)

lemma json_get_string_safe [simp]: "\<not> undefined_behaviour (json_get_string j)"
  by (cases j) (simp_all add: json_get_string_def)

lemma json_get_string_Inr: "json_get_string j = Inr s \<longleftrightarrow> j = J_String s"
  by (cases j) (auto simp: json_get_string_def)

text \<open>A constant \<open>operator[]\<close> is undefined exactly on an object without the key.\<close>

lemma json_sub_const_undefined:
  "undefined_behaviour (json_sub_const j k) \<longleftrightarrow> (\<exists>m. j = J_Object m \<and> map_find k m = None)"
  by (cases j) (auto simp: json_sub_const_def split: option.splits)

lemma json_get_bytes_of_bytes: "json_get_bytes (json_of_bytes v) = Inr v"
proof -
  have "for_each (map (\<lambda>b. J_Int (uint b)) v)
      (\<lambda>x acc. andthen (json_get_word x) (\<lambda>b. Inr (acc @ [b]))) acc = Inr (acc @ v)" for acc :: bytes
    by (induction v arbitrary: acc) (simp_all add: json_get_word_def)
  then show ?thesis by (simp add: json_get_bytes_def json_of_bytes_def)
qed

text \<open>An integer outside the target type is reduced, not refused.\<close>

lemma json_get_word_reduces:
  "json_get_word (J_Int i) = Inr (w :: 'w::len word) \<Longrightarrow> uint w = i mod 2 ^ LENGTH('w)"
  by (auto simp: json_get_word_def uint_word_of_int)

end
