(* ===== verification/SgxTcb.thy ===== *)
theory SgxTcb
  imports Asn1 SgxReports Json
begin

text \<open>
  The SGX extension of a PCK certificate, the TCB info and the QE identity of
  \<open>include/ravl/sgx_impl.h\<close>: \<open>CertificateExtension\<close>, \<open>verify_tcb_json\<close>, \<open>verify_tcb\<close> and
  \<open>verify_qe_id\<close>.  \<open>json::parse\<close> and \<open>strptime\<close> are parameters.  The two searches for a TCB level share
  the locale \<open>level_search\<close>.
\<close>

unbundle bit_operations_syntax

section \<open>\<open>CertificateExtension\<close>\<close>

definition sgx_ext_oid :: string where "sgx_ext_oid = ''1.2.840.113741.1.13.1''"
definition sgx_ext_ppid_oid :: string where "sgx_ext_ppid_oid = sgx_ext_oid @ ''.1''"
definition sgx_ext_tcb_oid :: string where "sgx_ext_tcb_oid = sgx_ext_oid @ ''.2''"
definition sgx_ext_pceid_oid :: string where "sgx_ext_pceid_oid = sgx_ext_oid @ ''.3''"
definition sgx_ext_fmspc_oid :: string where "sgx_ext_fmspc_oid = sgx_ext_oid @ ''.4''"
definition sgx_ext_type_oid :: string where "sgx_ext_type_oid = sgx_ext_oid @ ''.5''"
definition sgx_ext_platform_instance_oid :: string where
  "sgx_ext_platform_instance_oid = sgx_ext_oid @ ''.6''"
definition sgx_ext_configuration_oid :: string where
  "sgx_ext_configuration_oid = sgx_ext_oid @ ''.7''"

record tcb_ext =
  comp_svn :: bytes
  pce_svn :: u16
  cpu_svn :: bytes

record ext_configuration =
  dynamic_platform :: bool
  cached_keys :: bool
  smt_enabled :: bool

record certificate_extension =
  ppid :: bytes
  ext_tcb :: tcb_ext
  pceid :: bytes
  fmspc :: bytes
  sgx_type :: byte
  platform_instance_id :: "bytes option"
  configuration :: "ext_configuration option"

definition new_tcb_ext :: tcb_ext where
  "new_tcb_ext = \<lparr>comp_svn = replicate 16 0, pce_svn = 0, cpu_svn = replicate 16 0\<rparr>"

text \<open>One round of the loop over the 18 elements of the TCB sequence.\<close>

definition tcb_ext_step :: "'h openssl \<Rightarrow> asn1 list \<Rightarrow> nat \<Rightarrow> tcb_ext \<Rightarrow> tcb_ext result" where
  "tcb_ext_step ssl sss i r =
     (let expected_oid_i = sgx_ext_tcb_oid @ ''.'' @ decimal (i + 1)
      in if i < 16 then
           andthen (get_uint8 ssl sss i expected_oid_i) (\<lambda>b. Inr (r\<lparr>comp_svn := (comp_svn r)[i := b]\<rparr>))
         else if i = 16 then
           andthen (get_uint16 ssl sss i expected_oid_i) (\<lambda>w. Inr (r\<lparr>pce_svn := w\<rparr>))
         else if i = 17 then
           andthen (get_octet_string ssl sss i expected_oid_i) (\<lambda>t.
             throw_if (length t \<noteq> 16)
               (Runtime_Error ''SGX X509 TCB extension: ASN.1 octet string of invalid size'')
               (Inr (r\<lparr>cpu_svn := t\<rparr>)))
         else Inl (Runtime_Error ''unreachable''))"

definition get_tcb_ext :: "'h openssl \<Rightarrow> asn1 list \<Rightarrow> nat \<Rightarrow> string \<Rightarrow> tcb_ext result" where
  "get_tcb_ext ssl seq index expected_oid =
     andthen (get_seq ssl seq index expected_oid) (\<lambda>sss.
     throw_if (length sss \<noteq> 18) (Runtime_Error ''SGX X509 TCB extension: sequence of invalid length'')
       (for_each [0..<length sss] (tcb_ext_step ssl sss) new_tcb_ext))"

definition parse_configuration :: "'h openssl \<Rightarrow> asn1 list \<Rightarrow> ext_configuration result" where
  "parse_configuration ssl config_seq =
     throw_if (length config_seq \<noteq> 3)
       (Runtime_Error ''SGX X509 extension configuration sequence has invalid size'')
     (andthen (get_bool ssl config_seq 0 (sgx_ext_configuration_oid @ ''.1'')) (\<lambda>dyn.
      andthen (get_bool ssl config_seq 1 (sgx_ext_configuration_oid @ ''.2'')) (\<lambda>keys.
      andthen (get_bool ssl config_seq 2 (sgx_ext_configuration_oid @ ''.3'')) (\<lambda>smt.
        Inr \<lparr>dynamic_platform = dyn, cached_keys = keys, smt_enabled = smt\<rparr>))))"

definition new_certificate_extension :: "'h openssl \<Rightarrow> 'h \<Rightarrow> certificate_extension result" where
  "new_certificate_extension ssl certificate =
     (case x509_ext_data ssl certificate sgx_ext_oid of
        None \<Rightarrow> Inl (Runtime_Error ''PCK certificate does not contain the SGX extension'')
      | Some os \<Rightarrow>
          andthen (asn1_sequence ssl os) (\<lambda>seq.
          throw_if (length seq \<noteq> 5 \<and> length seq \<noteq> 7)
            (Runtime_Error ''SGX X509 extension sequence has invalid size'')
          (andthen (get_octet_string ssl seq 0 sgx_ext_ppid_oid) (\<lambda>ppid'.
           andthen (get_tcb_ext ssl seq 1 sgx_ext_tcb_oid) (\<lambda>tcb'.
           andthen (get_octet_string ssl seq 2 sgx_ext_pceid_oid) (\<lambda>pceid'.
           andthen (get_octet_string ssl seq 3 sgx_ext_fmspc_oid) (\<lambda>fmspc'.
           andthen (get_enum ssl seq 4 sgx_ext_type_oid) (\<lambda>type'.
           let ext = \<lparr>ppid = ppid', ext_tcb = tcb', pceid = pceid', fmspc = fmspc',
                      sgx_type = of_bool (type' \<noteq> 0), platform_instance_id = None, configuration = None\<rparr>
           in if length seq > 5 then
                andthen (get_octet_string ssl seq 5 sgx_ext_platform_instance_oid) (\<lambda>pid.
                andthen (get_seq ssl seq 6 sgx_ext_configuration_oid) (\<lambda>config_seq.
                andthen (parse_configuration ssl config_seq) (\<lambda>config.
                  Inr (ext\<lparr>platform_instance_id := Some pid, configuration := Some config\<rparr>))))
              else Inr ext))))))))"

section \<open>Searching the TCB levels\<close>

text \<open>
  A loop over JSON levels with an accumulator: every level is decoded, and while nothing is chosen yet
  a level that is good is taken.  A level whose status is the empty string does not count as chosen.
\<close>

locale level_search =
  fixes body :: "json \<Rightarrow> 's \<Rightarrow> 's result"
    and parse_level :: "json \<Rightarrow> 'l result"
    and good :: "'l \<Rightarrow> bool"
    and take_level :: "'l \<Rightarrow> 's result"
    and chosen :: "'s \<Rightarrow> bool"
    and named :: "'l \<Rightarrow> bool"
  assumes body_eq: "body j s =
      andthen (parse_level j) (\<lambda>l. if \<not> chosen s \<and> good l then take_level l else Inr s)"
    and take_chosen: "take_level l = Inr s \<Longrightarrow> chosen s \<longleftrightarrow> named l"
begin

lemma search_keeps:
  "for_each js body s = Inr s' \<Longrightarrow> chosen s \<Longrightarrow> s' = s"
  by (induction js) (auto simp: body_eq andthen_Inr)

lemma search_parses:
  "for_each js body s = Inr s' \<Longrightarrow> j \<in> set js \<Longrightarrow> \<exists>l. parse_level j = Inr l"
proof (induction js arbitrary: s)
  case Nil
  then show ?case by simp
next
  case (Cons a js)
  from Cons.prems(1) obtain t where "body a s = Inr t" "for_each js body t = Inr s'"
    by (auto simp: andthen_Inr)
  with Cons show ?case by (auto simp: body_eq andthen_Inr)
qed

text \<open>What is chosen is the first level that is good and has a status.\<close>

lemma search_first:
  "for_each js body s = Inr s' \<Longrightarrow> \<not> chosen s \<Longrightarrow> chosen s' \<Longrightarrow>
   \<exists>i l. i < length js \<and> parse_level (js ! i) = Inr l \<and> good l \<and> named l \<and> take_level l = Inr s'
     \<and> (\<forall>k < i. \<exists>m. parse_level (js ! k) = Inr m \<and> \<not> (good m \<and> named m))"
proof (induction js arbitrary: s)
  case Nil
  then show ?case by simp
next
  case (Cons a js)
  from Cons.prems(1) obtain t where t: "body a s = Inr t" "for_each js body t = Inr s'"
    by (auto simp: andthen_Inr)
  from t(1) obtain l where l: "parse_level a = Inr l"
    and tl: "(if good l then take_level l else Inr s) = Inr t"
    using Cons.prems(2) by (auto simp: body_eq andthen_Inr)
  show ?case
  proof (cases "chosen t")
    case True
    with tl Cons.prems(2) have "good l" "take_level l = Inr t" by (auto split: if_splits)
    moreover have "s' = t" using search_keeps[OF t(2) True] .
    ultimately show ?thesis using l True take_chosen by (intro exI[of _ 0]) auto
  next
    case False
    from Cons.IH[OF t(2) False Cons.prems(3)] obtain i m where
      i: "i < length js" "parse_level (js ! i) = Inr m" "good m" "named m" "take_level m = Inr s'"
      "\<forall>k<i. \<exists>n. parse_level (js ! k) = Inr n \<and> \<not> (good n \<and> named n)" by blast
    have "\<not> (good l \<and> named l)" using tl False take_chosen by (auto split: if_splits)
    with i l have "\<forall>k<Suc i. \<exists>n. parse_level ((a # js) ! k) = Inr n \<and> \<not> (good n \<and> named n)"
      by (auto simp: less_Suc_eq_0_disj)
    with i show ?thesis by (intro exI[of _ "Suc i"]) auto
  qed
qed

end

section \<open>\<open>verify_tcb_json\<close>\<close>

type_synonym json_parse = "string \<Rightarrow> json result"

definition datetime_format :: string where "datetime_format = ''%Y-%m-%dT%H:%M:%SZ''"
definition sgx_earliest_tcb_crl_date :: string where "sgx_earliest_tcb_crl_date = ''2017-03-17T00:00:00Z''"

definition check_datetime :: "strptime \<Rightarrow> string \<Rightarrow> string \<Rightarrow> unit result" where
  "check_datetime strptime date_s name =
     andthen (parse_time_point strptime sgx_earliest_tcb_crl_date datetime_format) (\<lambda>earliest_permitted.
     andthen (parse_time_point strptime date_s datetime_format) (\<lambda>issue_timepoint.
     throw_if (issue_timepoint < earliest_permitted) (Runtime_Error (name @ '' earlier than permitted''))
       (Inr ())))"

text \<open>\<open>json_vector_eq\<close> subscripts a constant value; \<open>optional\<close> is always \<open>false\<close>.\<close>

definition json_vector_eq :: "json \<Rightarrow> string \<Rightarrow> bytes \<Rightarrow> bool \<Rightarrow> bool result" where
  "json_vector_eq tcbinfo_j key ref optional =
     andthen (json_sub_const tcbinfo_j key) (\<lambda>vj.
     if is_null vj then (if optional then Inr True else Inl (Runtime_Error ''missing json object''))
     else andthen (json_get_string vj) (\<lambda>vv. andthen (from_hex vv) (\<lambda>b. Inr (b = ref))))"

record tcb_level =
  lv_comp_svn :: bytes
  lv_pce_svn :: u16
  lv_status :: string
  lv_date :: string
  lv_advisory_ids :: "string list"

definition no_tcb_level :: tcb_level where
  "no_tcb_level = \<lparr>lv_comp_svn = replicate 16 0, lv_pce_svn = 0, lv_status = [], lv_date = [], lv_advisory_ids = []\<rparr>"

definition parse_comp_svn :: "json \<Rightarrow> nat \<Rightarrow> bytes \<Rightarrow> bytes result" where
  "parse_comp_svn tcb i acc =
     andthen (json_sub_const tcb (''sgxtcbcomp'' @ decimal_02 (i + 1) @ ''svn'')) (\<lambda>v.
     andthen (json_get_word v) (\<lambda>b. Inr (acc @ [b])))"

text \<open>The decoding part of the loop body; the loop variable is a constant reference.\<close>

definition parse_tcb_level :: "json \<Rightarrow> tcb_level result" where
  "parse_tcb_level tcb_level_j =
     andthen (json_sub_const tcb_level_j ''tcbDate'') (\<lambda>d. andthen (json_get_string d) (\<lambda>tcb_date.
     andthen (json_sub_const tcb_level_j ''tcbStatus'') (\<lambda>s. andthen (json_get_string s) (\<lambda>tcb_status.
     andthen (json_sub_const tcb_level_j ''tcb'') (\<lambda>tcb.
     andthen (for_each [0..<16] (parse_comp_svn tcb) []) (\<lambda>comp.
     andthen (json_sub_const tcb ''pcesvn'') (\<lambda>p. andthen (json_get_word p) (\<lambda>pce.
       Inr \<lparr>lv_comp_svn = comp, lv_pce_svn = pce, lv_status = tcb_status, lv_date = tcb_date,
          lv_advisory_ids = []\<rparr>))))))))"

text \<open>\<open>good\<close>: every component of the platform and its PCE are at least the level's.\<close>

definition tcb_level_reached :: "tcb_ext \<Rightarrow> tcb_level \<Rightarrow> bool" where
  "tcb_level_reached ext l =
     (list_all (\<lambda>i. lv_comp_svn l ! i \<le> comp_svn ext ! i) [0..<16] \<and> lv_pce_svn l \<le> pce_svn ext)"

definition tcb_level_body :: "tcb_ext \<Rightarrow> json \<Rightarrow> tcb_level \<Rightarrow> tcb_level result" where
  "tcb_level_body ext tcb_level_j platform_tcb_level =
     andthen (parse_tcb_level tcb_level_j) (\<lambda>l.
       if lv_status platform_tcb_level = [] then
         (if tcb_level_reached ext l then Inr l else Inr platform_tcb_level)
       else Inr platform_tcb_level)"

text \<open>The \<open>try\<close> block: the platform's level and the signature of the document.\<close>

definition tcb_checks ::
  "json_parse \<Rightarrow> strptime \<Rightarrow> string \<Rightarrow> certificate_extension \<Rightarrow> (tcb_level \<times> bytes) result" where
  "tcb_checks parse strptime tcb_info_s pck_ext =
     andthen (parse tcb_info_s) (\<lambda>col_tcb_info_j.
     andthen (json_sub col_tcb_info_j ''tcbInfo'') (\<lambda>tcbinfo_j.
     throw_if (\<not> json_contains tcbinfo_j ''version'') (Runtime_Error ''unsupported tcbInfo version'')
     (andthen (json_sub tcbinfo_j ''version'') (\<lambda>v. andthen (json_get_word v) (\<lambda>version :: u32.
      throw_if (version \<noteq> 2) (Runtime_Error ''unsupported tcbInfo version'')
      (andthen (json_sub tcbinfo_j ''issueDate'') (\<lambda>i. andthen (json_get_string i) (\<lambda>id'.
       andthen (check_datetime strptime id' ''TCB issue date'') (\<lambda>_.
       andthen (json_sub tcbinfo_j ''nextUpdate'') (\<lambda>n. andthen (json_get_string n) (\<lambda>nu.
       andthen (check_datetime strptime nu ''TCB next update'') (\<lambda>_.
       andthen (json_vector_eq tcbinfo_j ''fmspc'' (fmspc pck_ext) False) (\<lambda>eq.
       throw_if (\<not> eq) (Runtime_Error ''fmspc mismatch'')
       (andthen (json_vector_eq tcbinfo_j ''pceId'' (pceid pck_ext) False) (\<lambda>eq.
        throw_if (\<not> eq) (Runtime_Error ''pceid mismatch'')
        (andthen (json_sub tcbinfo_j ''tcbType'') (\<lambda>t. andthen (json_get_u64 t) (\<lambda>tcb_type.
         throw_if (tcb_type \<noteq> 0) (Runtime_Error ''tcbType not supported'')
         (andthen (json_sub tcbinfo_j ''tcbLevels'') (\<lambda>levels.
          andthen (for_each (json_elements levels) (tcb_level_body (ext_tcb pck_ext)) no_tcb_level) (\<lambda>level.
          throw_if (lv_status level = []) (Runtime_Error ''no matching TCB level found'')
          (andthen (json_sub col_tcb_info_j ''signature'') (\<lambda>sig_j.
           andthen (json_get_string sig_j) (\<lambda>s. andthen (from_hex s) (\<lambda>signature.
             Inr (level, signature))))))))))))))))))))))))))"

text \<open>
  The part of the text that was signed: from the first occurrence of \<open>pre\<close> to the last of \<open>post\<close>.  A
  span whose end lies before its start is undefined.
\<close>

definition signed_part :: "string \<Rightarrow> string \<Rightarrow> string \<Rightarrow> failure \<Rightarrow> bytes result" where
  "signed_part s pre post no_signature =
     (case (str_find s pre 0, str_rfind s post) of
        (Some l, Some r) \<Rightarrow>
          if r < l + length pre then Inl (Undefined_Behaviour ''span with end before start'')
          else Inr (bytes_of (take (r - (l + length pre)) (drop (l + length pre) s)))
      | _ \<Rightarrow> Inl no_signature)"

definition tcb_pre :: string where "tcb_pre = ''{\"tcbInfo\":''"
definition tcb_post :: string where "tcb_post = '',\"signature\"''"

definition incorrectly_formatted :: "string \<Rightarrow> 'a result \<Rightarrow> 'a result" where
  "incorrectly_formatted what m =
     rethrow_as (\<lambda>ex. Runtime_Error (''incorrectly formatted '' @ what @ '': '' @ ex))
       (Runtime_Error (''incorrectly formatted '' @ what)) m"

definition verify_tcb_json ::
  "'h openssl \<Rightarrow> json_parse \<Rightarrow> strptime \<Rightarrow> string \<Rightarrow> certificate_extension \<Rightarrow> 'h \<Rightarrow> tcb_level result" where
  "verify_tcb_json ssl parse strptime tcb_info_s pck_ext signer_pubkey =
     andthen (incorrectly_formatted ''SGX TCB'' (tcb_checks parse strptime tcb_info_s pck_ext))
       (\<lambda>(platform_tcb_level, signature).
     andthen (signed_part tcb_info_s tcb_pre tcb_post (Runtime_Error ''tcbInfo does not contain signature''))
       (\<lambda>signed_msg.
     andthen (verify_signature ssl signer_pubkey signed_msg signature) (\<lambda>ok.
     throw_if (\<not> ok) (Runtime_Error ''tcbInfo signature verification failed'')
       (Inr platform_tcb_level))))"

definition intel_root_public_key_pem :: string where
  "intel_root_public_key_pem =
     ''-----BEGIN PUBLIC KEY-----'' @ [CHR 0x0A]
     @ ''MFkwEwYHKoZIzj0CAQYIKoZIzj0DAQcDQgAEC6nEwMDIYZOj/iPWsCzaEKi71OiO'' @ [CHR 0x0A]
     @ ''SLRFhWGjbnBVJfVnkY4u3IjkDYYL0MxO4mqsyYjlBalTVYxFP2sJBK5zlA=='' @ [CHR 0x0A]
     @ ''-----END PUBLIC KEY-----'' @ [CHR 0x0A]"

text \<open>
  The chain of an issuer, the key of its leaf and the check of its root; \<open>verify_tcb\<close> and
  \<open>verify_qe_id\<close> both start so, and \<open>verify\<close> calls both with an indent of 2, to which they add 4.  The
  store is not changed, because the root is not trusted here.
\<close>

definition verify_issuer ::
  "'h openssl \<Rightarrow> string \<Rightarrow> 'h \<Rightarrow> options \<Rightarrow> string \<Rightarrow> 'h result" where
  "verify_issuer ssl issuer_chain store opts what =
     andthen (verify_certificate_chain_pem ssl (bytes_of issuer_chain) store
                (certificate_verification opts) False (verbosity opts) 6) (\<lambda>(_, chain).
     andthen (stack_front chain) (\<lambda>leaf.
     andthen (stack_back chain) (\<lambda>root.
     andthen (pkey_of_x509 ssl leaf) (\<lambda>leaf_pubkey.
     andthen (if check_root_certificate_manufacturer_key opts
              then has_public_key ssl root intel_root_public_key_pem else Inr True) (\<lambda>root_ok.
     throw_if (\<not> root_ok) (Runtime_Error (what @ '' issuer root certificate does not use the expected Intel SGX public key''))
       (Inr leaf_pubkey))))))"

definition verify_tcb ::
  "'h openssl \<Rightarrow> json_parse \<Rightarrow> strptime \<Rightarrow> string \<Rightarrow> string \<Rightarrow> certificate_extension \<Rightarrow> 'h \<Rightarrow> options \<Rightarrow>
   tcb_level result" where
  "verify_tcb ssl parse strptime issuer_chain tcb_info_s pck_ext store opts =
     andthen (verify_issuer ssl issuer_chain store opts ''TCB'') (\<lambda>tcb_issuer_leaf_pubkey.
       verify_tcb_json ssl parse strptime tcb_info_s pck_ext tcb_issuer_leaf_pubkey)"

section \<open>\<open>verify_qe_id\<close>\<close>

record qe_level =
  ql_isv_svn :: u16
  ql_status :: string
  ql_date :: json

text \<open>The three variables the loop over the QE's levels sets.\<close>

record qe_tcb =
  qe_status :: string
  qe_date :: string
  qe_isv_svn :: u16

definition no_qe_tcb :: qe_tcb where
  "no_qe_tcb = \<lparr>qe_status = [], qe_date = [], qe_isv_svn = 0\<rparr>"

definition parse_qe_level :: "json \<Rightarrow> qe_level result" where
  "parse_qe_level tcb_level =
     andthen (json_sub_const tcb_level ''tcb'') (\<lambda>tcb_j.
     andthen (json_sub tcb_j ''isvsvn'') (\<lambda>v. andthen (json_get_word v) (\<lambda>svn.
     andthen (json_sub_const tcb_level ''tcbDate'') (\<lambda>tcb_date.
     andthen (json_sub_const tcb_level ''tcbStatus'') (\<lambda>s. andthen (json_get_string s) (\<lambda>tcb_status.
       Inr \<lparr>ql_isv_svn = svn, ql_status = tcb_status, ql_date = tcb_date\<rparr>))))))"

text \<open>The date is converted to a string only when the level is taken.\<close>

definition take_qe_level :: "qe_level \<Rightarrow> qe_tcb result" where
  "take_qe_level l = andthen (json_get_string (ql_date l)) (\<lambda>d.
     Inr \<lparr>qe_status = ql_status l, qe_date = d, qe_isv_svn = ql_isv_svn l\<rparr>)"

definition qe_level_body :: "u16 \<Rightarrow> json \<Rightarrow> qe_tcb \<Rightarrow> qe_tcb result" where
  "qe_level_body isv_svn tcb_level s =
     andthen (parse_qe_level tcb_level) (\<lambda>l.
       if qe_status s = [] then
         (if isv_svn \<ge> ql_isv_svn l then take_qe_level l else Inr s)
       else Inr s)"

definition json_field_string :: "json \<Rightarrow> string \<Rightarrow> string result" where
  "json_field_string j k = andthen (json_sub j k) json_get_string"

text \<open>The attributes of the enclave identity against those of the report.\<close>

definition qe_attribute_checks :: "json \<Rightarrow> sgx_report_body \<Rightarrow> unit result" where
  "qe_attribute_checks ei rb =
     andthen (json_field_string ei ''miscselectMask'') (\<lambda>s. andthen (from_hex_t s True) (\<lambda>msel_mask :: u32.
     andthen (json_field_string ei ''miscselect'') (\<lambda>s. andthen (from_hex_t s True) (\<lambda>msel :: u32.
     throw_if (rb_misc_select rb AND msel_mask \<noteq> msel) (Runtime_Error ''misc select mismatch'')
     (andthen (json_field_string ei ''attributes'') (\<lambda>attribute_flags_xfrm_s.
      andthen (json_field_string ei ''attributesMask'') (\<lambda>attribute_flags_xfrm_mask_s.
      throw_if (length attribute_flags_xfrm_s \<noteq> 32 \<or> length attribute_flags_xfrm_mask_s \<noteq> 32)
        (Runtime_Error ''unexpected attribute value sizes'')
      (andthen (from_hex_t (take 16 attribute_flags_xfrm_s) True) (\<lambda>flags :: u64.
       andthen (from_hex_t (drop 16 attribute_flags_xfrm_s) True) (\<lambda>xfrm :: u64.
       andthen (from_hex_t (take 16 attribute_flags_xfrm_mask_s) True) (\<lambda>flags_mask :: u64.
       andthen (from_hex_t (drop 16 attribute_flags_xfrm_mask_s) True) (\<lambda>xfrm_mask :: u64.
       throw_if (rb_flags rb AND flags_mask \<noteq> flags) (Runtime_Error ''attribute flags mismatch'')
       (throw_if (rb_xfrm rb AND xfrm_mask \<noteq> xfrm) (Runtime_Error ''attribute xfrm mismatch'')
       (throw_if (rb_flags rb AND SGX_FLAGS_DEBUG \<noteq> 0)
          (Runtime_Error ''report purported to be from debug QE'')
          (Inr ())))))))))))))))"

definition qe_id_checks ::
  "json_parse \<Rightarrow> strptime \<Rightarrow> string \<Rightarrow> sgx_report_body \<Rightarrow> options \<Rightarrow> bytes result" where
  "qe_id_checks parse strptime qe_identity_s rb opts =
     andthen (parse qe_identity_s) (\<lambda>qe_id_j.
     andthen (json_sub qe_id_j ''enclaveIdentity'') (\<lambda>ei.
     andthen (json_sub ei ''version'') (\<lambda>v. andthen (json_get_u64 v) (\<lambda>version.
     throw_if (version \<noteq> 2) (Runtime_Error ''enclaveIdentity version not supported'')
     (andthen (json_field_string ei ''id'') (\<lambda>eid_id.
      throw_if (eid_id \<noteq> ''QE'' \<and> eid_id \<noteq> ''QVE'') (Runtime_Error ''QE identity type not supported'')
      (andthen (json_sub ei ''tcbLevels'') (\<lambda>levels.
       andthen (for_each (json_elements levels) (qe_level_body (rb_isv_svn rb)) no_qe_tcb) (\<lambda>level.
       throw_if (qe_status level = []) (Runtime_Error ''no matching QE TCB level found'')
       (andthen (json_field_string ei ''issueDate'') (\<lambda>id'.
        andthen (check_datetime strptime id' ''QE TCB issue date'') (\<lambda>_.
        andthen (json_field_string ei ''nextUpdate'') (\<lambda>nu.
        andthen (check_datetime strptime nu ''QE TCB next update'') (\<lambda>_.
        andthen (json_field_string ei ''mrsigner'') (\<lambda>m. andthen (from_hex m) (\<lambda>mrsigner.
        throw_if (mrsigner \<noteq> rb_mr_signer rb) (Runtime_Error ''QE mrsigner mismatch'')
        (andthen (json_sub ei ''isvprodid'') (\<lambda>p. andthen (json_get_word p) (\<lambda>prodid.
         throw_if (prodid \<noteq> rb_isv_prod_id rb) (Runtime_Error ''QE isv prod id mismatch'')
         (throw_if (\<not> historical opts \<and> qe_isv_svn level \<ge> rb_isv_svn rb)
           (Runtime_Error ''QE isv svn too small'')
         (andthen (qe_attribute_checks ei rb) (\<lambda>_.
          andthen (json_field_string qe_id_j ''signature'') (\<lambda>s. from_hex s)))))))))))))))))))))))"

definition qe_pre :: string where "qe_pre = ''\"enclaveIdentity\":''"
definition qe_post :: string where "qe_post = '',\"signature\":\"''"

definition verify_qe_id ::
  "'h openssl \<Rightarrow> json_parse \<Rightarrow> strptime \<Rightarrow> string \<Rightarrow> string \<Rightarrow> bytes \<Rightarrow> 'h \<Rightarrow> options \<Rightarrow> bool result" where
  "verify_qe_id ssl parse strptime issuer_chain qe_identity_s qe_report_body_s store opts =
     andthen (verify_issuer ssl issuer_chain store opts ''QE identity'') (\<lambda>qe_id_issuer_leaf_pubkey.
     andthen (incorrectly_formatted ''SGX QE ID''
               (qe_id_checks parse strptime qe_identity_s (report_body_of qe_report_body_s) opts)) (\<lambda>signature.
     andthen (signed_part qe_identity_s qe_pre qe_post
               (Runtime_Error ''QE identity does not contain signature'')) (\<lambda>signed_msg.
     andthen (verify_signature ssl qe_id_issuer_leaf_pubkey signed_msg signature) (\<lambda>ok.
     throw_if (\<not> ok) (Runtime_Error ''QE identity signature verification failed'') (Inr True)))))"

section \<open>The levels chosen\<close>

interpretation tcb_levels: level_search "tcb_level_body ext" parse_tcb_level "tcb_level_reached ext" Inr
    "\<lambda>l. lv_status l \<noteq> []" "\<lambda>l. lv_status l \<noteq> []" for ext
  by unfold_locales (auto simp: tcb_level_body_def intro!: andthen_cong)

interpretation qe_levels: level_search "qe_level_body svn" parse_qe_level "\<lambda>l. ql_isv_svn l \<le> svn"
    take_qe_level "\<lambda>s. qe_status s \<noteq> []" "\<lambda>l. ql_status l \<noteq> []" for svn
  by unfold_locales (auto simp: qe_level_body_def take_qe_level_def andthen_Inr intro!: andthen_cong)

text \<open>An accepted TCB info: what was checked, and of what.\<close>

lemma tcb_checks_Inr:
  assumes "tcb_checks parse strptime s ext = Inr (level, signature)"
  shows "\<exists>doc info levels. parse s = Inr doc \<and> json_sub doc ''tcbInfo'' = Inr info
     \<and> json_sub info ''tcbLevels'' = Inr levels
     \<and> for_each (json_elements levels) (tcb_level_body (ext_tcb ext)) no_tcb_level = Inr level
     \<and> lv_status level \<noteq> []
     \<and> json_vector_eq info ''fmspc'' (fmspc ext) False = Inr True
     \<and> json_vector_eq info ''pceId'' (pceid ext) False = Inr True"
  using assms unfolding tcb_checks_def andthen_Inr throw_if_Inr
  by (elim exE conjE) auto

lemma incorrectly_formatted_Inr [result_simps]: "incorrectly_formatted w m = Inr y \<longleftrightarrow> m = Inr y"
  by (simp add: incorrectly_formatted_def rethrow_as_Inr)

lemma verify_tcb_json_Inr:
  assumes "verify_tcb_json ssl parse strptime s ext key = Inr level"
  shows "\<exists>signature msg. tcb_checks parse strptime s ext = Inr (level, signature)
     \<and> signed_part s tcb_pre tcb_post (Runtime_Error ''tcbInfo does not contain signature'') = Inr msg
     \<and> verify_signature ssl key msg signature = Inr True"
  using assms unfolding verify_tcb_json_def andthen_Inr throw_if_Inr incorrectly_formatted_Inr
  by (auto simp: result_simps)

text \<open>The level \<open>verify_tcb_json\<close> returns is the first one the platform reaches.\<close>

lemma verify_tcb_json_level:
  assumes "verify_tcb_json ssl parse strptime s ext key = Inr level"
  obtains doc info levels i where "parse s = Inr doc" and "json_sub doc ''tcbInfo'' = Inr info"
    and "json_sub info ''tcbLevels'' = Inr levels" and "i < length (json_elements levels)"
    and "parse_tcb_level (json_elements levels ! i) = Inr level"
    and "tcb_level_reached (ext_tcb ext) level" and "lv_status level \<noteq> []"
    and "\<And>k. k < i \<Longrightarrow> \<exists>m. parse_tcb_level (json_elements levels ! k) = Inr m
           \<and> \<not> (tcb_level_reached (ext_tcb ext) m \<and> lv_status m \<noteq> [])"
proof -
  from verify_tcb_json_Inr[OF assms] obtain signature where
    "tcb_checks parse strptime s ext = Inr (level, signature)" by blast
  from tcb_checks_Inr[OF this] obtain doc info levels where d: "parse s = Inr doc"
      "json_sub doc ''tcbInfo'' = Inr info" "json_sub info ''tcbLevels'' = Inr levels"
    and f: "for_each (json_elements levels) (tcb_level_body (ext_tcb ext)) no_tcb_level = Inr level"
    and n: "lv_status level \<noteq> []" by blast
  have "\<not> lv_status no_tcb_level \<noteq> []" by (simp add: no_tcb_level_def)
  from tcb_levels.search_first[OF f this n] that[OF d] show thesis by fastforce
qed

text \<open>What the text between the markers is.\<close>

lemma signed_part_between:
  assumes "s = a @ pre @ g @ post @ b"
    and "\<And>j. j < length a \<Longrightarrow> \<not> occurs_at s pre j"
    and "\<And>j. length (a @ pre @ g) < j \<Longrightarrow> \<not> occurs_at s post j"
  shows "signed_part s pre post e = Inr (bytes_of g)"
proof -
  have o1: "occurs_at s pre (length a)" and o2: "occurs_at s post (length (a @ pre @ g))"
    using assms(1) by (simp_all add: occurs_at_def)
  have f: "str_find s pre 0 = Some (length a)"
    by (rule str_find_eq) (use o1 assms(2) in auto)
  obtain r where r: "str_rfind s post = Some r"
  proof (cases "str_rfind s post")
    case None
    have len: "length post \<le> length s" using assms(1) by simp
    have "str_rfind_from s post n = None \<Longrightarrow> j \<le> n \<Longrightarrow> \<not> occurs_at s post j" for n j
      by (induction n) (auto split: if_splits simp: le_Suc_eq)
    with None len have "j \<le> length s - length post \<Longrightarrow> \<not> occurs_at s post j" for j
      by (auto simp: str_rfind_def split: if_splits)
    moreover have "length (a @ pre @ g) \<le> length s - length post" using assms(1) by simp
    ultimately show ?thesis using o2 by blast
  qed
  from str_rfind_Some[OF r] o2 assms(3) have "r = length (a @ pre @ g)"
    by (metis linorder_neqE_nat)
  with f r assms(1) show ?thesis by (simp add: signed_part_def)
qed

text \<open>An accepted QE identity: the report is strictly above its level unless history is asked for.\<close>

lemma qe_id_checks_Inr:
  assumes "qe_id_checks parse strptime s rb opts = Inr signature"
  shows "\<exists>doc ei levels level. parse s = Inr doc \<and> json_sub doc ''enclaveIdentity'' = Inr ei
     \<and> json_sub ei ''tcbLevels'' = Inr levels
     \<and> for_each (json_elements levels) (qe_level_body (rb_isv_svn rb)) no_qe_tcb = Inr level
     \<and> qe_status level \<noteq> []
     \<and> (historical opts \<or> qe_isv_svn level < rb_isv_svn rb)
     \<and> (\<exists>m. json_field_string ei ''mrsigner'' = Inr m \<and> from_hex m = Inr (rb_mr_signer rb))
     \<and> (\<exists>p. json_sub ei ''isvprodid'' = Inr p \<and> json_get_word p = Inr (rb_isv_prod_id rb))
     \<and> qe_attribute_checks ei rb = Inr ()"
  using assms unfolding qe_id_checks_def andthen_Inr throw_if_Inr
  by (elim exE conjE) (auto simp: not_le)

lemma qe_attribute_checks_Inr:
  "qe_attribute_checks ei rb = Inr u \<Longrightarrow> rb_flags rb AND SGX_FLAGS_DEBUG = 0"
  unfolding qe_attribute_checks_def andthen_Inr throw_if_Inr by (elim exE conjE) simp

lemma verify_qe_id_Inr:
  assumes "verify_qe_id ssl parse strptime chain s rbs store opts = Inr r"
  shows "r = True" and "\<exists>key signature msg. verify_issuer ssl chain store opts ''QE identity'' = Inr key
     \<and> qe_id_checks parse strptime s (report_body_of rbs) opts = Inr signature
     \<and> signed_part s qe_pre qe_post (Runtime_Error ''QE identity does not contain signature'') = Inr msg
     \<and> verify_signature ssl key msg signature = Inr True"
  using assms unfolding verify_qe_id_def andthen_Inr throw_if_Inr incorrectly_formatted_Inr
  by auto

text \<open>What an accepted issuer chain says.\<close>

lemma verify_issuer_Inr:
  assumes "verify_issuer ssl pem store opts what = Inr key"
  shows "\<exists>store' chain. verify_certificate_chain_pem ssl (bytes_of pem) store
       (certificate_verification opts) False (verbosity opts) 6 = Inr (store', chain)
     \<and> x509_pubkey ssl (hd chain) = Some key
     \<and> (check_root_certificate_manufacturer_key opts \<longrightarrow>
          (\<exists>root. stack_back chain = Inr root \<and> has_public_key ssl root intel_root_public_key_pem = Inr True))"
  using assms unfolding verify_issuer_def andthen_Inr throw_if_Inr
  by (auto simp: andthen_Inr throw_if_Inr stack_front_Inr pkey_of_x509_Inr split: if_splits)

end
