(* ===== verification/Sgx.thy ===== *)
theory Sgx
  imports SgxTcb
begin

text \<open>
  \<open>sgx::Attestation\<close> of \<open>include/ravl/sgx.h\<close> and \<open>sgx_impl.h\<close>: preparing the endorsement requests,
  verification, partial verification and the claims.  At a verbosity above 0 the functions also make
  reports; the default, and the only value the C API can ask for, is 0.
\<close>

section \<open>Claims\<close>

record sgx_endorsements =
  e_major_version :: u16
  e_minor_version :: u16
  e_tee_type :: u32
  e_root_ca :: string
  e_pck_crl_issuer_chain :: string
  e_root_ca_crl :: string
  e_pck_crl :: string
  e_tcb_info_issuer_chain :: string
  e_tcb_info :: string
  e_qe_identity_issuer_chain :: string
  e_qe_identity :: string

record sgx_signature_claims =
  sc_signature :: bytes
  sc_attest_pub_key :: bytes
  sc_qe_report :: sgx_report_body
  sc_qe_report_sig :: bytes
  sc_auth_data :: bytes

record sgx_claims =
  q_version :: u16
  q_sign_type :: u16
  q_epid_group_id :: bytes
  q_qe_svn :: u16
  q_pce_svn :: u16
  q_xeid :: u32
  q_basename :: bytes
  q_report_body :: sgx_report_body
  q_signature_data :: sgx_signature_claims
  q_endorsements :: "sgx_endorsements option"

text \<open>
  \<open>make_claims(raw, signature_data)\<close>: the quote structure and the QE report behind it, read as wholes.
\<close>

definition make_claims :: "bytes \<Rightarrow> signature_data \<Rightarrow> sgx_claims result" where
  "make_claims evidence sd =
     andthen (peek evidence 0 sgx_quote_t_size) (\<lambda>raw.
     andthen (peek evidence (sgx_quote_t_size + 128) sgx_report_body_t_size) (\<lambda>qe_report.
       Inr \<lparr>
         q_version = le_word (sub 0 2 raw),
         q_sign_type = le_word (sub 2 2 raw),
         q_epid_group_id = sub 4 4 raw,
         q_qe_svn = le_word (sub 8 2 raw),
         q_pce_svn = le_word (sub 10 2 raw),
         q_xeid = le_word (sub 12 4 raw),
         q_basename = sub 16 32 raw,
         q_report_body = report_body_of (sub report_body_offset sgx_report_body_t_size raw),
         q_signature_data = \<lparr>
           sc_signature = span_bytes (sd_quote_signature sd) evidence,
           sc_attest_pub_key = span_bytes (sd_public_key sd) evidence,
           sc_qe_report = report_body_of qe_report,
           sc_qe_report_sig = span_bytes (sd_report_signature sd) evidence,
           sc_auth_data = span_bytes (sd_auth_data sd) evidence\<rparr>,
         q_endorsements = None\<rparr>))"

text \<open>The field \<open>tcb_info\<close> is initialised from the issuer chain.\<close>

definition endorsements_of :: "collateral \<Rightarrow> sgx_endorsements" where
  "endorsements_of c = \<lparr>
     e_major_version = major_version c,
     e_minor_version = minor_version c,
     e_tee_type = tee_type c,
     e_root_ca = root_ca c,
     e_pck_crl_issuer_chain = pck_crl_issuer_chain c,
     e_root_ca_crl = root_ca_crl c,
     e_pck_crl = pck_crl c,
     e_tcb_info_issuer_chain = tcb_info_issuer_chain c,
     e_tcb_info = tcb_info_issuer_chain c,
     e_qe_identity_issuer_chain = qe_identity_issuer_chain c,
     e_qe_identity = qe_identity c\<rparr>"

definition make_claims_with_endorsements ::
  "bytes \<Rightarrow> signature_data \<Rightarrow> collateral \<Rightarrow> sgx_claims result" where
  "make_claims_with_endorsements evidence sd c =
     andthen (make_claims evidence sd) (\<lambda>claims. Inr (claims\<lparr>q_endorsements := Some (endorsements_of c)\<rparr>))"

section \<open>Preparing the requests\<close>

definition prepare_endorsements ::
  "'h openssl \<Rightarrow> vformat \<Rightarrow> bytes \<Rightarrow> bytes \<Rightarrow> options \<Rightarrow> HTTPRequest list option result" where
  "prepare_endorsements ssl vformat evidence endorsements opts =
     (if (endorsements \<noteq> [] \<and> \<not> fresh_endorsements opts \<and> \<not> fresh_root_ca_certificate opts)
         \<or> partial_verification opts then Inr None
      else
        andthen (parse_quote evidence) (\<lambda>quote.
        andthen (new_signature_data ssl quote evidence) (\<lambda>sd.
          if endorsements \<noteq> [] \<and> \<not> fresh_endorsements opts then
            (if root_ca_certificate opts = None then Inr (Some download_root_ca_pem) else Inr None)
          else
            (let pck_pem = fst (extract_pem_certificate (string_of (sd_certification_data sd)))
             in andthen (x509_of ssl (bytes_of pck_pem) True) (\<lambda>pck_leaf.
                andthen (new_certificate_extension ssl pck_leaf) (\<lambda>pck_ext.
                let have_pid = (case platform_instance_id pck_ext of
                                  None \<Rightarrow> False | Some p \<Rightarrow> \<not> is_all_zero p);
                    ca_type = (if have_pid then ''platform'' else ''processor'');
                    fmspc_hex = to_hex (fmspc pck_ext)
                in andthen (download_collateral vformat ca_type fmspc_hex opts False) (\<lambda>r. Inr (Some r))))))))"

section \<open>Verification\<close>

definition pck_cert_common_name :: string where
  "pck_cert_common_name = ''Intel SGX PCK Certificate''"

definition verify_hash_match :: "'h openssl \<Rightarrow> bytes list \<Rightarrow> bytes \<Rightarrow> bool" where
  "verify_hash_match ssl inputs expected =
     (let hash = md_sha256 ssl (concat (filter (\<lambda>i. length i > 0) inputs))
      in if length hash \<noteq> length expected then False
         else list_all (\<lambda>i. hash ! i = expected ! i) [0..<length hash])"

text \<open>
  The statements \<open>verify\<close> and \<open>partial_verify\<close> share: the checks of the PCK chain, the two signatures
  and the hash that binds the attestation key to the QE report.
\<close>

definition check_pck_chain :: "'h openssl \<Rightarrow> 'h list \<Rightarrow> options \<Rightarrow> 'h result" where
  "check_pck_chain ssl pck_cert_chain opts =
     andthen (stack_front pck_cert_chain) (\<lambda>pck_leaf.
     andthen (stack_back pck_cert_chain) (\<lambda>pck_root.
     throw_if (\<not> has_common_name ssl pck_leaf pck_cert_common_name)
       (Runtime_Error ''PCK certificate does not have expected common name'')
     (andthen (if check_root_certificate_manufacturer_key opts
               then has_public_key ssl pck_root intel_root_public_key_pem else Inr True) (\<lambda>root_ok.
      throw_if (\<not> root_ok)
        (Runtime_Error ''root CA certificate does not have the expected Intel SGX public key'')
      (throw_if (\<not> is_ca ssl pck_root) (Runtime_Error ''root certificate is not from a CA'')
        (Inr pck_leaf))))))"

definition check_quote :: "'h openssl \<Rightarrow> bytes \<Rightarrow> span \<Rightarrow> signature_data \<Rightarrow> 'h \<Rightarrow> unit result" where
  "check_quote ssl evidence quote sd pck_leaf =
     (let at = (\<lambda>sp. span_bytes sp evidence) in
      andthen (pkey_of_x509 ssl pck_leaf) (\<lambda>qe_leaf_pubkey.
      andthen (verify_signature ssl qe_leaf_pubkey (at (sd_report sd)) (at (sd_report_signature sd))) (\<lambda>qe_sig_ok.
      throw_if (\<not> qe_sig_ok) (Runtime_Error ''QE signature verification failed'')
      (andthen (pkey_P256 ssl (at (sd_public_key sd))) (\<lambda>attest_key.
       andthen (verify_signature ssl attest_key (at quote) (at (sd_quote_signature sd))) (\<lambda>quote_sig_ok.
       throw_if (\<not> quote_sig_ok) (Runtime_Error ''quote signature verification failed'')
       (throw_if (\<not> verify_hash_match ssl [at (sd_public_key sd), at (sd_auth_data sd)]
                    (sub 0 32 (at (sd_report_data sd))))
          (Runtime_Error ''QE authentication message hash mismatch'')
          (Inr ()))))))))"

definition new_store :: "'h openssl \<Rightarrow> 'h" where
  "new_store ssl = store_set_flags ssl [CRL_CHECK, CRL_CHECK_ALL] (store_new ssl)"

definition partial_verify :: "'h openssl \<Rightarrow> bytes \<Rightarrow> options \<Rightarrow> sgx_claims result" where
  "partial_verify ssl evidence opts =
     andthen (parse_quote evidence) (\<lambda>quote.
     andthen (new_signature_data ssl quote evidence) (\<lambda>sd.
     andthen (verify_certificate_chain_pem ssl (sd_certification_data sd) (new_store ssl)
                (certificate_verification opts) True (verbosity opts) 4) (\<lambda>(_, pck_cert_chain).
     andthen (check_pck_chain ssl pck_cert_chain opts) (\<lambda>pck_leaf.
     andthen (check_quote ssl evidence quote sd pck_leaf) (\<lambda>_.
       make_claims evidence sd)))))"

text \<open>The collateral \<open>verify\<close> works on.\<close>

definition gather_collateral ::
  "bytes \<Rightarrow> options \<Rightarrow> HTTPResponse list option \<Rightarrow> collateral result" where
  "gather_collateral endorsements opts http_responses =
     throw_if (endorsements = [] \<and> (case http_responses of None \<Rightarrow> True | Some rs \<Rightarrow> rs = []))
       (Runtime_Error ''missing endorsements'')
     (andthen (if endorsements \<noteq> [] then andthen (parse_collateral endorsements) (\<lambda>c. Inr (Some c))
               else Inr None) (\<lambda>coll.
      case http_responses of
        Some (r # rs) \<Rightarrow> consume_url_responses opts (r # rs) coll
      | _ \<Rightarrow> (case coll of Some c \<Rightarrow> Inr c
                | None \<Rightarrow> Inl (Undefined_Behaviour ''null collateral''))))"

text \<open>The store: both CRLs, and the collateral's root if it has one.\<close>

definition prepare_store :: "'h openssl \<Rightarrow> collateral \<Rightarrow> ('h \<times> bool) result" where
  "prepare_store ssl c =
     andthen (store_add_crl_pem ssl (root_ca_crl c) (new_store ssl)) (\<lambda>store.
     andthen (store_add_crl_pem ssl (pck_crl c) store) (\<lambda>store.
       if root_ca c \<noteq> [] then andthen (store_add_pem ssl (root_ca c) store) (\<lambda>store. Inr (store, False))
       else Inr (store, True)))"

definition verify ::
  "'h openssl \<Rightarrow> json_parse \<Rightarrow> strptime \<Rightarrow> bytes \<Rightarrow> bytes \<Rightarrow> options \<Rightarrow> HTTPResponse list option \<Rightarrow>
   sgx_claims result" where
  "verify ssl parse strptime evidence endorsements opts http_responses =
     (if partial_verification opts then partial_verify ssl evidence opts
      else
        andthen (gather_collateral endorsements opts http_responses) (\<lambda>c.
        andthen (parse_quote evidence) (\<lambda>quote.
        andthen (new_signature_data ssl quote evidence) (\<lambda>sd.
        logged (0 < verbosity opts) (collateral_to_string ssl c (verbosity opts) 2) (
        andthen (prepare_store ssl c) (\<lambda>(store, trusted_root).
        andthen (verify_certificate_chain_pem ssl (bytes_of (pck_crl_issuer_chain c)) store
                   (certificate_verification opts) trusted_root (verbosity opts) 4) (\<lambda>(store, crl_chain).
        logged (0 < verbosity opts) (root_report ssl c trusted_root crl_chain (verbosity opts) 0) (
        andthen (verify_certificate_chain_pem ssl (sd_certification_data sd) store
                   (certificate_verification opts) False (verbosity opts) 4) (\<lambda>(store, pck_cert_chain).
        andthen (check_pck_chain ssl pck_cert_chain opts) (\<lambda>pck_leaf.
        andthen (check_quote ssl evidence quote sd pck_leaf) (\<lambda>_.
        andthen (new_certificate_extension ssl pck_leaf) (\<lambda>pck_x509_ext.
        andthen (verify_tcb ssl parse strptime (tcb_info_issuer_chain c) (tcb_info c) pck_x509_ext store opts) (\<lambda>_.
        andthen (verify_qe_id ssl parse strptime (qe_identity_issuer_chain c) (qe_identity c)
                   (span_bytes (sd_report sd) evidence) store opts) (\<lambda>qe_id_ok.
          make_claims_with_endorsements evidence sd c))))))))))))))"

section \<open>What an accepted quote guarantees\<close>

text \<open>
  The specification of the quote checks, over the evidence and the attested certificate: the QE report
  is signed by the PCK key, the quote by the attestation key, and the QE report commits to that key and
  the authentication data.
\<close>

definition quote_attested :: "'h openssl \<Rightarrow> bytes \<Rightarrow> 'h \<Rightarrow> bool" where
  "quote_attested ssl ev pck_leaf \<longleftrightarrow>
     (\<exists>pck_key attest_key.
        x509_pubkey ssl pck_leaf = Some pck_key
      \<and> verify_signature ssl pck_key (sub 564 384 ev) (sub 948 64 ev) = Inr True
      \<and> pkey_p256 ssl (be_nat (sub 500 32 ev)) (be_nat (sub 532 32 ev)) = Some attest_key
      \<and> verify_signature ssl attest_key (sub 0 432 ev) (sub 436 64 ev) = Inr True
      \<and> md_sha256 ssl (sub 500 64 ev @ sub 1014 (auth_size ev) ev) = sub 884 32 ev)"

definition pck_chain_accepted :: "'h openssl \<Rightarrow> 'h list \<Rightarrow> options \<Rightarrow> 'h \<Rightarrow> bool" where
  "pck_chain_accepted ssl chain opts leaf \<longleftrightarrow> chain \<noteq> [] \<and> leaf = hd chain
     \<and> has_common_name ssl leaf pck_cert_common_name
     \<and> (\<exists>root. stack_back chain = Inr root \<and> is_ca ssl root
          \<and> (check_root_certificate_manufacturer_key opts \<longrightarrow>
               has_public_key ssl root intel_root_public_key_pem = Inr True))"

lemma check_pck_chain_Inr:
  "check_pck_chain ssl chain opts = Inr leaf \<Longrightarrow> pck_chain_accepted ssl chain opts leaf"
  unfolding check_pck_chain_def pck_chain_accepted_def andthen_Inr throw_if_Inr stack_front_Inr
  by (auto split: if_splits)

lemma verify_hash_match_iff: "verify_hash_match ssl inputs e \<longleftrightarrow> md_sha256 ssl (concat inputs) = e"
proof -
  have "concat (filter (\<lambda>i. length i > 0) inputs) = concat inputs"
    by (induction inputs) auto
  then show ?thesis
    by (auto simp: verify_hash_match_def Let_def list_all_iff intro: nth_equalityI)
qed

lemma check_quote_Inr:
  assumes "check_quote ssl ev (0, 432) (signature_data_at ev cd) leaf = Inr u"
    and "signature_data_ok ev"
  shows "quote_attested ssl ev leaf"
proof -
  have l: "1014 \<le> length ev" using assms(2) by (auto simp: signature_data_ok_def cd_offset_def)
  have pk: "take 32 (sub 500 64 ev) = sub 500 32 ev" "take 32 (drop 32 (sub 500 64 ev)) = sub 532 32 ev"
    "sub 0 32 (sub 884 64 ev) = sub 884 32 ev"
    by (simp_all add: sub_def drop_take take_take)
  have p: "peek (sub 500 64 ev) 0 32 = Inr (sub 500 32 ev)" "peek (sub 500 64 ev) 32 32 = Inr (sub 532 32 ev)"
    using l pk by (simp_all add: peek_def)
  have sb: "span_bytes (o', n) ev = sub o' n ev" for o' n by (simp add: span_bytes_def sub_def)
  from assms(1) show ?thesis
    unfolding check_quote_def quote_attested_def Let_def andthen_Inr throw_if_Inr
      signature_data_at_def verify_hash_match_iff
    by (auto simp: sb p pk pkey_of_x509_Inr pkey_P256_def checknull_Inr andthen_Inr)
qed

text \<open>The claims are the bytes of the evidence.\<close>

lemma make_claims_record:
  assumes "make_claims ev (signature_data_at ev cd) = Inr claims"
  shows "claims = \<lparr>q_version = le_word (sub 0 2 ev), q_sign_type = le_word (sub 2 2 ev),
      q_epid_group_id = sub 4 4 ev, q_qe_svn = le_word (sub 8 2 ev), q_pce_svn = le_word (sub 10 2 ev),
      q_xeid = le_word (sub 12 4 ev), q_basename = sub 16 32 ev,
      q_report_body = report_body_of (sub 48 384 ev),
      q_signature_data = \<lparr>sc_signature = sub 436 64 ev, sc_attest_pub_key = sub 500 64 ev,
        sc_qe_report = report_body_of (sub 564 384 ev), sc_qe_report_sig = sub 948 64 ev,
        sc_auth_data = sub 1014 (auth_size ev) ev\<rparr>, q_endorsements = None\<rparr>"
proof -
  have "sub i n (take m ev) = sub i n ev" if "i + n \<le> m" for i n m
    using that by (rule sub_take)
  then show ?thesis
    using assms unfolding make_claims_def andthen_Inr peek_Inr
    by (auto simp: sgx_layout signature_data_at_def span_bytes_def sub_def[symmetric])
qed

lemma make_claims_Inr:
  assumes "make_claims ev (signature_data_at ev cd) = Inr claims"
  shows "q_version claims = le_word (sub 0 2 ev)" and "q_report_body claims = report_body_of (sub 48 384 ev)"
    and "sc_qe_report (q_signature_data claims) = report_body_of (sub 564 384 ev)"
    and "sc_attest_pub_key (q_signature_data claims) = sub 500 64 ev"
    and "sc_signature (q_signature_data claims) = sub 436 64 ev"
    and "sc_auth_data (q_signature_data claims) = sub 1014 (auth_size ev) ev"
    and "q_endorsements claims = None"
  by (simp_all add: make_claims_record[OF assms])

text \<open>An accepted evidence, with its certification data after the conversion to PEM.\<close>

definition evidence_accepted :: "'h openssl \<Rightarrow> bytes \<Rightarrow> bytes \<Rightarrow> bool" where
  "evidence_accepted ssl ev cd \<longleftrightarrow> quote_header_ok ev \<and> signature_data_ok ev
     \<and> normalise_certification_data ssl (raw_certification_data ev) = Inr cd"

lemma parse_evidence_Inr:
  assumes "parse_quote ev = Inr q" and "new_signature_data ssl q ev = Inr sd"
  shows "q = (0, 432)" and "\<exists>cd. evidence_accepted ssl ev cd \<and> sd = signature_data_at ev cd"
proof -
  from assms(1) show q: "q = (0, 432)" by (auto simp: parse_quote_Inr sgx_layout)
  from assms show "\<exists>cd. evidence_accepted ssl ev cd \<and> sd = signature_data_at ev cd"
    unfolding q parse_quote_Inr new_signature_data_Inr evidence_accepted_def by auto
qed

text \<open>Everything \<open>verify\<close> has checked when it returns claims.\<close>

lemma verify_Inr:
  assumes "verify ssl parse strptime ev endorsements opts rs = Inr claims"
    and "\<not> partial_verification opts"
  obtains c cd store tr crl_chain store1 chain leaf ext level base where
    "gather_collateral endorsements opts rs = Inr c"
    "evidence_accepted ssl ev cd"
    "prepare_store ssl c = Inr (store, tr)"
    "verify_certificate_chain_pem ssl (bytes_of (pck_crl_issuer_chain c)) store
       (certificate_verification opts) tr (verbosity opts) 4 = Inr (store1, crl_chain)"
    "verify_certificate_chain_pem ssl cd store1 (certificate_verification opts) False
       (verbosity opts) 4 = Inr (store1, chain)"
    "pck_chain_accepted ssl chain opts leaf"
    "quote_attested ssl ev leaf"
    "new_certificate_extension ssl leaf = Inr ext"
    "verify_tcb ssl parse strptime (tcb_info_issuer_chain c) (tcb_info c) ext store1 opts = Inr level"
    "verify_qe_id ssl parse strptime (qe_identity_issuer_chain c) (qe_identity c) (sub 564 384 ev) store1 opts = Inr True"
    "make_claims ev (signature_data_at ev cd) = Inr base"
    "claims = base\<lparr>q_endorsements := Some (endorsements_of c)\<rparr>"
proof -
  from assms obtain c q sd p p1 p2 leaf ext level b where
    v: "gather_collateral endorsements opts rs = Inr c" "parse_quote ev = Inr q"
      "new_signature_data ssl q ev = Inr sd" "prepare_store ssl c = Inr p"
      "verify_certificate_chain_pem ssl (bytes_of (pck_crl_issuer_chain c)) (fst p)
         (certificate_verification opts) (snd p) (verbosity opts) 4 = Inr p1"
      "verify_certificate_chain_pem ssl (sd_certification_data sd) (fst p1)
         (certificate_verification opts) False (verbosity opts) 4 = Inr p2"
      "check_pck_chain ssl (snd p2) opts = Inr leaf" "check_quote ssl ev q sd leaf = Inr ()"
      "new_certificate_extension ssl leaf = Inr ext"
      "verify_tcb ssl parse strptime (tcb_info_issuer_chain c) (tcb_info c) ext (fst p2) opts = Inr level"
      "verify_qe_id ssl parse strptime (qe_identity_issuer_chain c) (qe_identity c)
         (span_bytes (sd_report sd) ev) (fst p2) opts = Inr b"
    and m: "make_claims_with_endorsements ev sd c = Inr claims"
    unfolding verify_def by (auto simp: andthen_Inr logged_Inr)
  from parse_evidence_Inr[OF v(2,3)] obtain cd where q: "q = (0, 432)"
    and cd: "evidence_accepted ssl ev cd" "sd = signature_data_at ev cd" by blast
  have s2: "fst p2 = fst p1"
    using v(6) verify_certificate_chain_Inr(3)[of ssl _ "fst p1" "certificate_verification opts" False
      "verbosity opts" 4 "fst p2" "snd p2"]
    unfolding verify_certificate_chain_pem_def andthen_Inr by auto
  have b: "b = True" using verify_qe_id_Inr(1)[OF v(11)] .
  from m obtain base where base: "make_claims ev sd = Inr base"
      "claims = base\<lparr>q_endorsements := Some (endorsements_of c)\<rparr>"
    unfolding make_claims_with_endorsements_def andthen_Inr by auto
  have sp: "span_bytes (sd_report sd) ev = sub 564 384 ev"
    by (simp add: cd(2) signature_data_at_def span_bytes_def sub_def)
  have at: "quote_attested ssl ev leaf"
    using check_quote_Inr[of ssl ev cd leaf "()"] v(8) cd unfolding q evidence_accepted_def by simp
  have f4: "prepare_store ssl c = Inr (fst p, snd p)" using v(4) by simp
  have f5: "verify_certificate_chain_pem ssl (bytes_of (pck_crl_issuer_chain c)) (fst p)
       (certificate_verification opts) (snd p) (verbosity opts) 4 = Inr (fst p1, snd p1)" using v(5) by simp
  have "sd_certification_data sd = cd" by (simp add: cd(2) signature_data_at_def)
  then have f6: "verify_certificate_chain_pem ssl cd (fst p1) (certificate_verification opts) False
       (verbosity opts) 4 = Inr (fst p1, snd p2)" using v(6) s2 by (metis prod.collapse)
  show thesis
    by (rule that[OF v(1) cd(1) f4 f5 f6 check_pck_chain_Inr[OF v(7)] at v(9)
        v(10)[unfolded s2] v(11)[unfolded s2 b sp] base(1)[unfolded cd(2)] base(2)])
qed

end
