(* ===== verification/Layout.thy ===== *)
theory Layout
  imports SgxQuote
begin

text \<open>
  Structures as lists of members with their sizes.  The code reads evidence through pointers to packed
  structures; here the offsets the model uses are derived from the members the headers declare.  A
  structure that is not packed is laid out with the padding of its alignment first.
\<close>

section \<open>Packed structures\<close>

type_synonym layout = "(string \<times> nat) list"

fun layout_offset :: "layout \<Rightarrow> string \<Rightarrow> nat" where
  "layout_offset [] k = 0"
| "layout_offset ((n, s) # l) k = (if n = k then 0 else s + layout_offset l k)"

fun layout_width :: "layout \<Rightarrow> string \<Rightarrow> nat" where
  "layout_width [] k = 0"
| "layout_width ((n, s) # l) k = (if n = k then s else layout_width l k)"

definition layout_size :: "layout \<Rightarrow> nat" where
  "layout_size l = sum_list (map snd l)"

definition member :: "layout \<Rightarrow> string \<Rightarrow> bytes \<Rightarrow> bytes" where
  "member l k bs = sub (layout_offset l k) (layout_width l k) bs"

definition byte_member :: "layout \<Rightarrow> string \<Rightarrow> bytes \<Rightarrow> byte" where
  "byte_member l k bs = member l k bs ! 0"

text \<open>A member lies inside the structure.\<close>

lemma layout_fits: "layout_offset l k + layout_width l k \<le> layout_size l"
  by (induction l k rule: layout_offset.induct) (auto simp: layout_size_def)

lemma sub_1_nth: "i < length bs \<Longrightarrow> sub i (Suc 0) bs ! 0 = bs ! i"
  by (simp add: sub_def)

lemma sub_sub: "off + n \<le> m \<Longrightarrow> sub off n (sub o' m bs) = sub (o' + off) n bs"
  by (simp add: sub_def drop_take take_take add.commute)

text \<open>Members that do not overlap: each begins where the one before it ends.\<close>

lemma layout_disjoint:
  assumes "distinct (map fst l)" and "j \<in> fst ` set l" "k \<in> fst ` set l" and "j \<noteq> k"
  shows "layout_offset l j + layout_width l j \<le> layout_offset l k
    \<or> layout_offset l k + layout_width l k \<le> layout_offset l j"
  using assms
proof (induction l)
  case (Cons m l)
  obtain n s where m: "m = (n, s)" by (cases m)
  show ?case
  proof (cases "n = j \<or> n = k")
    case True
    then show ?thesis using m Cons.prems(4) by auto
  next
    case False
    with Cons.prems m have "j \<in> fst ` set l" "k \<in> fst ` set l" "distinct (map fst l)" by auto
    from Cons.IH[OF this(3,1,2) Cons.prems(4)] False m show ?thesis by auto
  qed
qed simp

section \<open>Structures with alignment\<close>

text \<open>
  A member with its size and its alignment; \<open>padding_to a o'\<close> is what is left out after offset \<open>o'\<close> so that
  the next member is aligned.  The size of the structure is a multiple of the largest alignment.
\<close>

type_synonym aligned_layout = "(string \<times> nat \<times> nat) list"

definition padding_to :: "nat \<Rightarrow> nat \<Rightarrow> nat" where
  "padding_to a o' = (a - o' mod a) mod a"

fun padded :: "aligned_layout \<Rightarrow> nat \<Rightarrow> layout" where
  "padded [] o' = []"
| "padded ((n, s, a) # l) o' =
     (let p = padding_to a o' in ([], p) # (n, s) # padded l (o' + p + s))"

definition aligned_struct :: "aligned_layout \<Rightarrow> layout" where
  "aligned_struct l =
     (let p = padded l 0; a = fold (\<lambda>(_, _, a). max a) l 1
      in p @ [([], padding_to a (layout_size p))])"

lemma padding_to_aligns: "0 < a \<Longrightarrow> (o' + padding_to a o') mod a = 0"
proof -
  assume a: "0 < a"
  have "(o' + (a - o' mod a)) mod a = 0"
  proof -
    have "o' + (a - o' mod a) = (o' div a) * a + a"
      using a by (metis add.assoc add_diff_inverse_nat div_mult_mod_eq mod_less_divisor not_less_iff_gr_or_eq)
    then show ?thesis by simp
  qed
  then show ?thesis by (simp add: padding_to_def mod_add_right_eq)
qed

text \<open>Every member of a structure with alignment begins at a multiple of its alignment.\<close>

lemma padded_aligned:
  assumes "(k, s, a) \<in> set l" and "distinct (map fst l)" and "[] \<notin> fst ` set l" and "0 < a"
  shows "(o' + layout_offset (padded l o') k) mod a = 0"
  using assms
proof (induction l arbitrary: o')
  case (Cons m l)
  obtain n s' a' where m: "m = (n, s', a')" by (cases m)
  show ?case
  proof (cases "n = k")
    case True
    with Cons.prems m have "a = a'" by force
    with True Cons.prems(3,4) m show ?thesis by (auto simp: Let_def padding_to_aligns)
  next
    case False
    with Cons.prems m have "(k, s, a) \<in> set l" "k \<noteq> []" by force+
    with Cons.prems m have "distinct (map fst l)" "[] \<notin> fst ` set l" by auto
    from Cons.IH[OF \<open>(k, s, a) \<in> set l\<close> this Cons.prems(4), of "o' + padding_to a' o' + s'"] False m \<open>k \<noteq> []\<close>
    show ?thesis by (simp add: Let_def add.assoc)
  qed
qed simp

end
