(* ===== verification/SgxLayout.thy ===== *)
theory SgxLayout
  imports Sgx Layout
begin

text \<open>
  The packed structures of \<open>sgx_defs.h\<close>, with the sizes the header asserts, and the claims of a quote as
  members of them.
\<close>

section \<open>The structures\<close>

definition sgx_attributes_layout :: layout where
  "sgx_attributes_layout = [(''flags'', 8), (''xfrm'', 8)]"

definition sgx_report_body_layout :: layout where
  "sgx_report_body_layout = [
     (''cpu_svn'', 16), (''misc_select'', 4), (''reserved1'', 12), (''isv_ext_prod_id'', 16),
     (''attributes'', layout_size sgx_attributes_layout), (''mr_enclave'', 32), (''reserved2'', 32),
     (''mr_signer'', 32), (''reserved3'', 32), (''config_id'', 64), (''isv_prod_id'', 2),
     (''isv_svn'', 2), (''config_svn'', 2), (''reserved4'', 42), (''isv_family_id'', 16),
     (''report_data'', 64)]"

definition sgx_quote_layout :: layout where
  "sgx_quote_layout = [
     (''version'', 2), (''sign_type'', 2), (''epid_group_id'', 4), (''qe_svn'', 2), (''pce_svn'', 2),
     (''xeid'', 4), (''basename'', 32), (''report_body'', layout_size sgx_report_body_layout),
     (''signature_len'', 4), (''signature'', 0)]"

definition sgx_auth_data_layout :: layout where
  "sgx_auth_data_layout = [(''size'', 2), (''auth_data'', 0)]"

definition sgx_certification_data_layout :: layout where
  "sgx_certification_data_layout = [(''cert_key_type'', 2), (''size'', 4), (''certification_data'', 0)]"

definition sgx_sig_data_layout :: layout where
  "sgx_sig_data_layout = [
     (''sig'', 64), (''attest_pub_key'', 64), (''qe_report'', layout_size sgx_report_body_layout),
     (''qe_report_sig'', 64), (''auth_certification_data'', 0)]"

text \<open>The pointers of the collateral structure have eight bytes.\<close>

definition sgx_collateral_layout :: layout where
  "sgx_collateral_layout = [(''version'', 4), (''tee_type'', 4)]
     @ concat (map (\<lambda>n. [(n, 8), (n @ ''_size'', 4)])
         [''pck_crl_issuer_chain'', ''root_ca_crl'', ''pck_crl'', ''tcb_info_issuer_chain'', ''tcb_info'',
          ''qe_identity_issuer_chain'', ''qe_identity''])"

datatype sgx_ql_attestation_algorithm_id = SGX_QL_ALG_EPID | SGX_QL_ALG_RESERVED_1 | SGX_QL_ALG_ECDSA_P256_id
  | SGX_QL_ALG_ECDSA_P384 | SGX_QL_ALG_MAX

text \<open>What \<open>EXPECT_SIZE\<close> asserts, and the offsets of the model.\<close>

lemma sgx_layout_sizes:
  "layout_size sgx_attributes_layout = 16" "layout_size sgx_report_body_layout = sgx_report_body_t_size"
  "layout_size sgx_quote_layout = sgx_quote_t_size" "layout_size sgx_auth_data_layout = sgx_ql_auth_data_t_size"
  "layout_size sgx_certification_data_layout = sgx_ql_certification_data_t_size"
  "layout_size sgx_sig_data_layout = sgx_ql_ecdsa_sig_data_t_size"
  "layout_size sgx_collateral_layout = 7 * 8 + 9 * 4"
  by code_simp+

lemma sgx_layout_offsets:
  "layout_offset sgx_quote_layout ''signature_len'' = signature_len_offset"
  "layout_offset sgx_quote_layout ''report_body'' = report_body_offset"
  "layout_offset sgx_quote_layout ''signature'' = sgx_quote_t_size"
  "layout_offset sgx_sig_data_layout ''auth_certification_data'' = sgx_ql_ecdsa_sig_data_t_size"
  by code_simp+

lemma sgx_attributes_members:
  "member sgx_attributes_layout ''flags'' bs = sub 0 8 bs" "member sgx_attributes_layout ''xfrm'' bs = sub 8 8 bs"
  by (simp_all add: member_def sgx_attributes_layout_def)

lemma sgx_report_body_members:
  "member sgx_report_body_layout ''cpu_svn'' bs = sub 0 16 bs"
  "member sgx_report_body_layout ''misc_select'' bs = sub 16 4 bs"
  "member sgx_report_body_layout ''isv_ext_prod_id'' bs = sub 32 16 bs"
  "member sgx_report_body_layout ''attributes'' bs = sub 48 16 bs"
  "member sgx_report_body_layout ''mr_enclave'' bs = sub 64 32 bs"
  "member sgx_report_body_layout ''mr_signer'' bs = sub 128 32 bs"
  "member sgx_report_body_layout ''config_id'' bs = sub 192 64 bs"
  "member sgx_report_body_layout ''isv_prod_id'' bs = sub 256 2 bs"
  "member sgx_report_body_layout ''isv_svn'' bs = sub 258 2 bs"
  "member sgx_report_body_layout ''config_svn'' bs = sub 260 2 bs"
  "member sgx_report_body_layout ''isv_family_id'' bs = sub 304 16 bs"
  "member sgx_report_body_layout ''report_data'' bs = sub 320 64 bs"
  by (simp_all add: member_def sgx_report_body_layout_def sgx_layout_sizes(1))

lemma sgx_quote_members:
  "member sgx_quote_layout ''version'' bs = sub 0 2 bs"
  "member sgx_quote_layout ''sign_type'' bs = sub 2 2 bs"
  "member sgx_quote_layout ''epid_group_id'' bs = sub 4 4 bs"
  "member sgx_quote_layout ''qe_svn'' bs = sub 8 2 bs"
  "member sgx_quote_layout ''pce_svn'' bs = sub 10 2 bs"
  "member sgx_quote_layout ''xeid'' bs = sub 12 4 bs"
  "member sgx_quote_layout ''basename'' bs = sub 16 32 bs"
  "member sgx_quote_layout ''report_body'' bs = sub 48 384 bs"
  by (simp_all add: member_def sgx_quote_layout_def sgx_layout_sizes(2) sgx_report_body_t_size_def)

lemma sgx_sig_data_members:
  "member sgx_sig_data_layout ''sig'' bs = sub 0 64 bs"
  "member sgx_sig_data_layout ''attest_pub_key'' bs = sub 64 64 bs"
  "member sgx_sig_data_layout ''qe_report'' bs = sub 128 384 bs"
  "member sgx_sig_data_layout ''qe_report_sig'' bs = sub 512 64 bs"
  by (simp_all add: member_def sgx_sig_data_layout_def sgx_layout_sizes(2) sgx_report_body_t_size_def)

section \<open>The claims as members\<close>

definition report_body_by_layout :: "bytes \<Rightarrow> sgx_report_body" where
  "report_body_by_layout b = (let attributes = member sgx_report_body_layout ''attributes'' b in \<lparr>
     rb_cpu_svn = member sgx_report_body_layout ''cpu_svn'' b,
     rb_misc_select = le_word (member sgx_report_body_layout ''misc_select'' b),
     rb_isv_ext_prod_id = member sgx_report_body_layout ''isv_ext_prod_id'' b,
     rb_flags = le_word (member sgx_attributes_layout ''flags'' attributes),
     rb_xfrm = le_word (member sgx_attributes_layout ''xfrm'' attributes),
     rb_mr_enclave = member sgx_report_body_layout ''mr_enclave'' b,
     rb_mr_signer = member sgx_report_body_layout ''mr_signer'' b,
     rb_config_id = member sgx_report_body_layout ''config_id'' b,
     rb_isv_prod_id = le_word (member sgx_report_body_layout ''isv_prod_id'' b),
     rb_isv_svn = le_word (member sgx_report_body_layout ''isv_svn'' b),
     rb_config_svn = le_word (member sgx_report_body_layout ''config_svn'' b),
     rb_isv_family_id = member sgx_report_body_layout ''isv_family_id'' b,
     rb_report_data = member sgx_report_body_layout ''report_data'' b\<rparr>)"

text \<open>The quote, the signature data behind it, and the authentication data behind that.\<close>

definition quote_claims_by_layout :: "bytes \<Rightarrow> sgx_claims" where
  "quote_claims_by_layout ev =
     (let sig_data = drop (layout_offset sgx_quote_layout ''signature'') ev;
          auth = drop (layout_offset sgx_sig_data_layout ''auth_certification_data'') sig_data
      in \<lparr>q_version = le_word (member sgx_quote_layout ''version'' ev),
          q_sign_type = le_word (member sgx_quote_layout ''sign_type'' ev),
          q_epid_group_id = member sgx_quote_layout ''epid_group_id'' ev,
          q_qe_svn = le_word (member sgx_quote_layout ''qe_svn'' ev),
          q_pce_svn = le_word (member sgx_quote_layout ''pce_svn'' ev),
          q_xeid = le_word (member sgx_quote_layout ''xeid'' ev),
          q_basename = member sgx_quote_layout ''basename'' ev,
          q_report_body = report_body_by_layout (member sgx_quote_layout ''report_body'' ev),
          q_signature_data = \<lparr>sc_signature = member sgx_sig_data_layout ''sig'' sig_data,
            sc_attest_pub_key = member sgx_sig_data_layout ''attest_pub_key'' sig_data,
            sc_qe_report = report_body_by_layout (member sgx_sig_data_layout ''qe_report'' sig_data),
            sc_qe_report_sig = member sgx_sig_data_layout ''qe_report_sig'' sig_data,
            sc_auth_data = sub (layout_offset sgx_auth_data_layout ''auth_data'')
              (le_nat (member sgx_auth_data_layout ''size'' auth)) auth\<rparr>,
          q_endorsements = None\<rparr>)"

lemma report_body_by_layout_eq: "report_body_by_layout b = report_body_of b"
  by (simp add: report_body_by_layout_def Let_def sgx_report_body_members sgx_attributes_members
      report_body_of_def sub_sub)

lemma sub_drop: "sub o' n (drop m b) = sub (m + o') n b"
  by (simp add: sub_def add.commute)

lemma make_claims_by_layout:
  assumes "make_claims ev (signature_data_at ev cd) = Inr claims"
  shows "claims = quote_claims_by_layout ev"
proof -
  have a: "member sgx_auth_data_layout ''size'' bs = sub 0 2 bs"
    "layout_offset sgx_auth_data_layout ''auth_data'' = 2" for bs
    by (simp_all add: member_def sgx_auth_data_layout_def)
  show ?thesis
    by (simp add: make_claims_record[OF assms] quote_claims_by_layout_def Let_def sgx_quote_members
        sgx_sig_data_members sgx_layout_offsets sgx_layout report_body_by_layout_eq sub_drop a auth_size_def)
qed

text \<open>Every accepted quote, verified in full or in part.\<close>

lemma verify_by_layout:
  assumes "verify ssl parse strptime ev endorsements opts rs = Inr claims"
  shows "claims\<lparr>q_endorsements := None\<rparr> = quote_claims_by_layout ev"
    and "\<exists>leaf. quote_attested ssl ev leaf" and "quote_header_ok ev"
proof -
  have "claims\<lparr>q_endorsements := None\<rparr> = quote_claims_by_layout ev \<and> (\<exists>leaf. quote_attested ssl ev leaf)
    \<and> quote_header_ok ev"
  proof (cases "partial_verification opts")
    case True
    with assms obtain q sd leaf where p: "parse_quote ev = Inr q" "new_signature_data ssl q ev = Inr sd"
      and k: "check_quote ssl ev q sd leaf = Inr ()" and m: "make_claims ev sd = Inr claims"
      by (auto simp: verify_def partial_verify_def andthen_Inr)
    from parse_evidence_Inr[OF p] obtain cd where cd: "q = (0, 432)" "evidence_accepted ssl ev cd"
      "sd = signature_data_at ev cd" by blast
    with check_quote_Inr[of ssl ev cd leaf] k have "quote_attested ssl ev leaf"
      by (simp add: evidence_accepted_def)
    with m cd make_claims_by_layout show ?thesis
      by (fastforce simp: quote_claims_by_layout_def Let_def evidence_accepted_def)
  next
    case False
    from verify_Inr[OF assms this] obtain cd base en leaf where
      "make_claims ev (signature_data_at ev cd) = Inr base" "claims = base\<lparr>q_endorsements := Some en\<rparr>"
      "quote_attested ssl ev leaf" "evidence_accepted ssl ev cd" by metis
    with make_claims_by_layout[of ev cd base] show ?thesis
      by (auto simp: quote_claims_by_layout_def Let_def evidence_accepted_def)
  qed
  then show "claims\<lparr>q_endorsements := None\<rparr> = quote_claims_by_layout ev" "\<exists>leaf. quote_attested ssl ev leaf"
    "quote_header_ok ev" by auto
qed

end
