(* ===== verification/SgxExample.thy ===== *)
theory SgxExample
  imports Sgx
begin

text \<open>
  A small concrete platform on which the SGX verifier accepts: an OpenSSL whose handles are numbers and
  whose checks succeed, a PCK certificate with the SGX extension, a quote and its collateral.  It shows
  that the hypotheses of the properties can hold.
\<close>

text \<open>The SGX extension: the content octets only name the sequences.\<close>

definition ex_obj :: "string \<Rightarrow> asn1 \<Rightarrow> asn1 list option" where
  "ex_obj oid v = Some [A_Object oid, v]"

definition ex_d2i_sequence :: "bytes \<Rightarrow> asn1 list option" where
  "ex_d2i_sequence b =
     (if b = [0] then Some (map (\<lambda>i. A_Sequence [of_nat i]) [1..<6])
      else if b = [1] then ex_obj sgx_ext_ppid_oid (A_Octet_String [9])
      else if b = [2] then ex_obj sgx_ext_tcb_oid (A_Sequence [6])
      else if b = [3] then ex_obj sgx_ext_pceid_oid (A_Octet_String [0, 0])
      else if b = [4] then ex_obj sgx_ext_fmspc_oid (A_Octet_String [0, 0x90])
      else if b = [5] then ex_obj sgx_ext_type_oid (A_Enumerated 0)
      else if b = [6] then Some (map (\<lambda>i. A_Sequence [7, of_nat i]) [0..<18])
      else (case b of
          [s, i] \<Rightarrow>
            (let oid = sgx_ext_tcb_oid @ ''.'' @ decimal (unat i + 1)
             in if unat i = 17 then ex_obj oid (A_Octet_String (replicate 16 3)) else ex_obj oid (A_Integer 3))
        | _ \<Rightarrow> None))"

definition ex_ssl :: "nat openssl" where
  "ex_ssl = \<lparr>
     pem_read_bio_x509 = (\<lambda>d. if length d < 6 then None else Some (5, length d)),
     d2i_x509_bio = (\<lambda>d. if length d < 6 then None else Some (5, length d)),
     pem_x509_info = (\<lambda>_. [Some 5, Some 6]),
     pem_read_crl = (\<lambda>_. Some 3),
     d2i_crl = (\<lambda>_. Some 3),
     crl_pem = (\<lambda>_. ''crl''),
     x509_pem = (\<lambda>_. ''-----BEGIN''),
     x509_der = (\<lambda>_. replicate 6 0x30),
     x509_check_ca = (\<lambda>h. if h = 6 then 1 else 0),
     x509_common_names = (\<lambda>_. [pck_cert_common_name]),
     x509_subject_key_id = (\<lambda>_. None),
     x509_authority_key_id = (\<lambda>_. None),
     x509_subject_text = (\<lambda>_. ''CN=x''),
     x509_not_before_text = (\<lambda>_. Some ''then''),
     x509_not_after_text = (\<lambda>_. Some ''later''),
     i2s_octet_string = to_hex,
     crl_issuer_text = (\<lambda>_. Some ''CN=x''),
     crl_revoked_serials = (\<lambda>_. []),
     crl_last_update_text = (\<lambda>_. Some ''then''),
     crl_next_update_text = (\<lambda>_. Some ''later''),
     x509_ext_data = (\<lambda>_ oid. if oid = sgx_ext_oid then Some [0] else None),
     x509_pubkey = (\<lambda>h. Some (h + 10)),
     d2i_sequence_any = ex_d2i_sequence,
     pem_read_pubkey = (\<lambda>_. Some 16),
     pkey_eq = (\<lambda>a b. if a = b then 1 else 0),
     pkey_p256 = (\<lambda>_ _. Some 20),
     pkey_rsa = (\<lambda>_ _. Some 21),
     evp_pkey_verify = (\<lambda>_ _ _. 1),
     md_sha256 = (\<lambda>_. replicate 32 0),
     md_sha384 = (\<lambda>_. replicate 48 0),
     md_sha512 = (\<lambda>_. replicate 64 0),
     i2d_ecdsa_sig = (\<lambda>_ _. []),
     bio_base64_read = (\<lambda>s. Some (bytes_of s)),
     bio_base64_write = string_of,
     store_new = 0,
     store_set_flags = (\<lambda>_ s. s),
     store_add_cert = (\<lambda>_ s. s),
     store_add_crl = (\<lambda>_ s. Some s),
     ctx_init = (\<lambda>s _ _. Some s),
     ctx_set_time = (\<lambda>_ c. c),
     ctx_set0_param = (\<lambda>_ c. c),
     ctx_set_verify_cb = (\<lambda>_ c. c),
     x509_verify_cert = (\<lambda>_. 1),
     ctx_get1_chain = (\<lambda>_. [5, 6])\<rparr>"

text \<open>The quote: version 3, ECDSA-P256, an enclave and a quoting enclave with security version 2.\<close>

definition ex_report_body :: "byte \<Rightarrow> bytes" where
  "ex_report_body svn = replicate 258 0 @ [svn] @ replicate 125 0"

definition ex_quote :: "bytes \<Rightarrow> bytes" where
  "ex_quote cd = le_bytes 2 3 @ le_bytes 2 2 @ replicate 44 0 @ ex_report_body 7
     @ le_bytes 4 (576 + 3 + 6 + length cd)
     @ replicate 64 1 @ replicate 64 2 @ ex_report_body 2 @ replicate 64 4
     @ le_bytes 2 1 @ [8] @ le_bytes 2 5 @ le_bytes 4 (length cd) @ cd"

definition ex_evidence :: bytes where
  "ex_evidence = ex_quote (bytes_of ''-----BEGIN CERTIFICATE-----x-----END CERTIFICATE-----'')"

text \<open>The collateral: the JSON texts matter only for the search of the signed part.\<close>

definition ex_tcb_info :: string where
  "ex_tcb_info = ''{\"tcbInfo\":{},\"signature\":\"00\"}''"

definition ex_qe_identity :: string where
  "ex_qe_identity = ''{\"enclaveIdentity\":{},\"signature\":\"00\"}''"

definition ex_endorsements :: bytes where
  "ex_endorsements = encode_collateral 3 1 0 (map bytes_of
     [''chain'', ''crl'', ''crl'', ''chain'', ex_tcb_info, ''chain'', ex_qe_identity])"

definition ex_tcb_level :: "int \<Rightarrow> string \<Rightarrow> json" where
  "ex_tcb_level svn st = J_Object [(''tcbDate'', J_String ''d''), (''tcbStatus'', J_String st),
     (''tcb'', J_Object ((''pcesvn'', J_Int svn)
        # map (\<lambda>i. (''sgxtcbcomp'' @ decimal_02 (i + 1) @ ''svn'', J_Int svn)) [0..<16]))]"

definition ex_tcb_doc :: json where
  "ex_tcb_doc = J_Object [(''tcbInfo'', J_Object [(''version'', J_Int 2), (''issueDate'', J_String ''d''),
      (''nextUpdate'', J_String ''d''), (''fmspc'', J_String ''0090''), (''pceId'', J_String ''0000''),
      (''tcbType'', J_Int 0),
      (''tcbLevels'', J_Array [ex_tcb_level 4 ''UpToDate'', ex_tcb_level 2 ''OutOfDate''])]),
     (''signature'', J_String ''00'')]"

definition ex_qe_doc :: json where
  "ex_qe_doc = J_Object [(''enclaveIdentity'', J_Object [(''version'', J_Int 2), (''id'', J_String ''QE''),
      (''issueDate'', J_String ''d''), (''nextUpdate'', J_String ''d''),
      (''mrsigner'', J_String (replicate 64 (CHR ''0''))), (''isvprodid'', J_Int 0),
      (''miscselect'', J_String ''00000000''), (''miscselectMask'', J_String ''ffffffff''),
      (''attributes'', J_String (replicate 32 (CHR ''0''))),
      (''attributesMask'', J_String (replicate 32 (CHR ''f''))),
      (''tcbLevels'', J_Array [J_Object [(''tcb'', J_Object [(''isvsvn'', J_Int 1)]),
          (''tcbDate'', J_String ''d''), (''tcbStatus'', J_String ''UpToDate'')]])]),
     (''signature'', J_String ''00'')]"

definition ex_parse :: json_parse where
  "ex_parse s = (if s = ex_tcb_info then Inr ex_tcb_doc
     else if s = ex_qe_identity then Inr ex_qe_doc else Inl (Json_Error ''parse_error''))"

definition ex_strptime :: strptime where
  "ex_strptime s f = Some (0, 0, [])"

section \<open>The quote\<close>

lemma ex_quote_fields:
  "sub 432 4 (ex_quote cd) = le_bytes 4 (576 + 3 + 6 + length cd)"
  "sub 0 2 (ex_quote cd) = le_bytes 2 3" "sub 2 2 (ex_quote cd) = le_bytes 2 2"
  "sub 1012 2 (ex_quote cd) = le_bytes 2 1" "sub 1015 2 (ex_quote cd) = le_bytes 2 5"
  "sub 1017 4 (ex_quote cd) = le_bytes 4 (length cd)" "sub 1021 (length cd) (ex_quote cd) = cd"
  "sub 48 384 (ex_quote cd) = ex_report_body 7" "sub 564 384 (ex_quote cd) = ex_report_body 2"
  "sub 884 32 (ex_quote cd) = replicate 32 0" "length (ex_quote cd) = 1021 + length cd"
  by (simp_all add: sub_def ex_quote_def ex_report_body_def)

lemma le_nat_le_bytes_num:
  "le_nat (le_bytes 2 3) = 3" "le_nat (le_bytes 2 2) = 2" "le_nat (le_bytes 2 (Suc 0)) = Suc 0" "le_nat (le_bytes 2 5) = 5"
  "n < 1000 \<Longrightarrow> le_nat (le_bytes 4 n) = n"
  by (simp_all add: le_nat_le_bytes)

text \<open>A quote with any short certification data is well formed.\<close>

lemma ex_quote_ok:
  assumes "0 < length cd" and "length cd < 400"
  shows "quote_header_ok (ex_quote cd)" and "signature_data_ok (ex_quote cd)"
    and "auth_size (ex_quote cd) = 1" and "raw_certification_data (ex_quote cd) = cd"
    and "cd_offset (ex_quote cd) = 1015"
proof -
  show a: "auth_size (ex_quote cd) = 1"
    by (simp add: auth_size_def ex_quote_fields le_nat_le_bytes_num)
  then show o: "cd_offset (ex_quote cd) = 1015" by (simp add: cd_offset_def)
  have s: "cd_size (ex_quote cd) = length cd"
    using assms by (simp add: cd_size_def o ex_quote_fields le_nat_le_bytes_num)
  show "raw_certification_data (ex_quote cd) = cd"
    by (simp add: raw_certification_data_def o s ex_quote_fields)
  show "quote_header_ok (ex_quote cd)"
    using assms by (simp add: quote_header_ok_def sgx_layout ex_quote_fields le_nat_le_bytes_num
        SGX_QUOTE_VERSION_def SGX_QL_ALG_ECDSA_P256_def)
  show "signature_data_ok (ex_quote cd)"
    using assms by (simp add: signature_data_ok_def a o s ex_quote_fields le_nat_le_bytes_num PCK_CERT_CHAIN_def)
qed

definition ex_cd :: bytes where
  "ex_cd = bytes_of ''-----BEGIN CERTIFICATE-----x-----END CERTIFICATE-----''"

lemma ex_evidence_eq: "ex_evidence = ex_quote ex_cd"
  by (simp add: ex_evidence_def ex_cd_def)

lemma ex_cd_length: "length ex_cd = 53" "starts_with_dashes ex_cd"
  by (simp_all add: ex_cd_def starts_with_dashes_def bytes_of_def)

lemmas ex_evidence_ok = ex_quote_ok[of ex_cd, unfolded ex_cd_length ex_evidence_eq[symmetric], simplified]

lemma ex_parse_quote: "parse_quote ex_evidence = Inr (0, 432)"
  using ex_evidence_ok(1) by (simp add: parse_quote_Inr sgx_layout)

lemma ex_signature_data:
  "new_signature_data ex_ssl (0, 432) ex_evidence = Inr (signature_data_at ex_evidence ex_cd)"
  using ex_evidence_ok ex_cd_length
  by (simp add: new_signature_data_Inr normalise_certification_data_def)

lemma ex_report: "sub 564 384 ex_evidence = ex_report_body 2"
  by (simp add: ex_evidence_eq ex_quote_fields)

section \<open>The collateral and the verification\<close>

definition ex_collateral :: collateral where
  "ex_collateral = \<lparr>major_version = 3, minor_version = 1, tee_type = 0, root_ca = [],
     pck_crl_issuer_chain = ''chain'', root_ca_crl = ''crl'', pck_crl = ''crl'',
     tcb_info_issuer_chain = ''chain'', tcb_info = ex_tcb_info,
     qe_identity_issuer_chain = ''chain'', qe_identity = ex_qe_identity\<rparr>"

lemma ex_endorsements_parse: "parse_collateral ex_endorsements = Inr ex_collateral"
proof -
  have "length ex_endorsements \<le> vector_max_size"
    by (simp add: ex_endorsements_def encode_collateral_def put_blob_def ex_tcb_info_def ex_qe_identity_def
        vector_max_size_def)
  then show ?thesis
    using parse_encode_collateral[OF _ , of ex_endorsements 3 1 0 "bytes_of ''chain''" "bytes_of ''crl''"
        "bytes_of ''crl''" "bytes_of ''chain''" "bytes_of ex_tcb_info" "bytes_of ''chain''" "bytes_of ex_qe_identity"]
    by (simp add: ex_endorsements_def ex_collateral_def)
qed

lemma ex_gather: "gather_collateral ex_endorsements default_options None = Inr ex_collateral"
proof -
  have "ex_endorsements \<noteq> []"
    by (simp add: ex_endorsements_def encode_collateral_def put_word_def)
  then show ?thesis by (simp add: gather_collateral_def ex_endorsements_parse)
qed

lemma ex_ssl_store: "prepare_store ex_ssl ex_collateral = Inr (0, True)"
  by (simp add: prepare_store_def ex_collateral_def new_store_def store_add_crl_pem_def crl_of_def ex_ssl_def)

lemma ex_prints: "prints ex_ssl"
  by (simp add: prints_def ex_ssl_def)

lemma ex_chain: "verify_certificate_chain_pem ex_ssl pem 0 opts tr v i = Inr (0, [5, 6])"
  by (simp add: verify_certificate_chain_pem_def verify_certificate_chain_def log_chain_prints ex_prints)
    (simp add: stack_of_pem_def verify_chain_ctx_def stack_back_def stack_at_def chain_ctx_def verify_cert_def Let_def
      set_verification_time_def ex_ssl_def throw_if_def split: option.split)

lemma ex_pck_chain: "check_pck_chain ex_ssl [5, 6] default_options = Inr 5"
  by code_simp

lemma ex_check_quote: "check_quote ex_ssl ex_evidence (0, 432) (signature_data_at ex_evidence ex_cd) 5 = Inr ()"
proof -
  have "1074 \<le> length ex_evidence" by (simp add: ex_evidence_eq ex_quote_fields ex_cd_length)
  moreover have "sub 0 32 (span_bytes (884, 64) ex_evidence) = replicate 32 0"
    using ex_quote_fields(10)[of ex_cd]
    by (simp add: ex_evidence_eq span_bytes_def sub_def take_take)
  ultimately show ?thesis
    by (simp add: check_quote_def signature_data_at_def verify_hash_match_iff verify_signature_def
        convert_signature_to_der_def convert_rs_to_der_def pkey_verify_signature_def pkey_of_x509_def
        pkey_P256_def Let_def throw_if_def ex_ssl_def) (simp add: span_bytes_def)
qed

definition ex_ext :: certificate_extension where
  "ex_ext = \<lparr>ppid = [9], ext_tcb = \<lparr>comp_svn = replicate 16 3, pce_svn = 3, cpu_svn = replicate 16 3\<rparr>,
     pceid = [0, 0], fmspc = [0, 0x90], sgx_type = 0, platform_instance_id = None, configuration = None\<rparr>"

lemma ex_certificate_extension: "new_certificate_extension ex_ssl 5 = Inr ex_ext"
  by code_simp

lemma ex_issuer: "verify_issuer ex_ssl chain 0 default_options what = Inr 15"
proof -
  have "stack_front [5, 6 :: nat] = Inr 5" "stack_back [5, 6 :: nat] = Inr 6"
    by (simp_all add: stack_front_def stack_back_def stack_at_def)
  then show ?thesis
    by (simp add: verify_issuer_def ex_chain pkey_of_x509_def has_public_key_def throw_if_def) (simp add: ex_ssl_def)
qed

definition ex_level :: tcb_level where
  "ex_level = \<lparr>lv_comp_svn = replicate 16 2, lv_pce_svn = 2, lv_status = ''OutOfDate'', lv_date = ''d'', lv_advisory_ids = []\<rparr>"

lemma ex_tcb_checks: "tcb_checks ex_parse ex_strptime ex_tcb_info ex_ext = Inr (ex_level, [0])"
  by code_simp

lemma ex_tcb_signed: "signed_part ex_tcb_info tcb_pre tcb_post e = Inr (bytes_of ''{}'')"
  by code_simp

lemma ex_qe_checks:
  "qe_id_checks ex_parse ex_strptime ex_qe_identity (report_body_of (ex_report_body 2)) default_options = Inr [0]"
  by code_simp

lemma ex_qe_signed: "signed_part ex_qe_identity qe_pre qe_post e = Inr (bytes_of ''{}'')"
  by code_simp

lemma ex_signature: "verify_signature ex_ssl k m s = Inr True"
  by (simp add: verify_signature_def convert_signature_to_der_def convert_rs_to_der_def
      pkey_verify_signature_def Let_def ex_ssl_def)

lemma ex_verify_tcb_json:
  "verify_tcb_json ex_ssl ex_parse ex_strptime ex_tcb_info ex_ext 15 = Inr ex_level"
  by (simp add: verify_tcb_json_def ex_tcb_checks incorrectly_formatted_def ex_tcb_signed ex_signature)

lemma ex_verifies: "is_ok (verify ex_ssl ex_parse ex_strptime ex_evidence ex_endorsements default_options None)"
proof -
  have np: "\<not> partial_verification default_options" "verbosity default_options = 0"
    by (simp_all add: default_options_def)
  have sd: "sd_certification_data (signature_data_at ex_evidence ex_cd) = ex_cd"
    "span_bytes (sd_report (signature_data_at ex_evidence ex_cd)) ex_evidence = ex_report_body 2"
    using ex_report by (simp_all add: signature_data_at_def span_bytes_def sub_def)
  have col: "tcb_info ex_collateral = ex_tcb_info" "qe_identity ex_collateral = ex_qe_identity"
    by (simp_all add: ex_collateral_def)
  have q: "verify_qe_id ex_ssl ex_parse ex_strptime chain ex_qe_identity (ex_report_body 2) 0 default_options = Inr True" for chain
    by (simp add: verify_qe_id_def ex_issuer ex_qe_checks incorrectly_formatted_def ex_qe_signed ex_signature)
  have m: "is_ok (make_claims_with_endorsements ex_evidence (signature_data_at ex_evidence ex_cd) ex_collateral)"
    by (simp add: make_claims_with_endorsements_def make_claims_def sgx_layout ex_evidence_eq ex_quote_fields ex_cd_length)
  show ?thesis
    unfolding verify_def
    by (simp add: np ex_gather ex_parse_quote ex_signature_data ex_ssl_store ex_chain sd ex_pck_chain
        ex_check_quote ex_certificate_extension verify_tcb_def ex_issuer ex_verify_tcb_json col q m)
qed

section \<open>A library that satisfies the certificate encoding laws\<close>

text \<open>One certificate, whose DER form has six bytes and whose PEM text has 53.\<close>

definition ex_der :: bytes where "ex_der = [0x30, 4, 1, 2, 3, 4]"

definition ex_io_ssl :: "unit openssl" where
  "ex_io_ssl = \<lparr>
     pem_read_bio_x509 = (\<lambda>d. if take 53 d = ex_cd then Some ((), 53) else None),
     d2i_x509_bio = (\<lambda>d. if take 6 d = ex_der then Some ((), 6) else None),
     pem_x509_info = (\<lambda>_. []), pem_read_crl = (\<lambda>_. None), d2i_crl = (\<lambda>_. None), crl_pem = (\<lambda>_. []),
     x509_pem = (\<lambda>_. string_of ex_cd), x509_der = (\<lambda>_. ex_der), x509_check_ca = (\<lambda>_. 0),
     x509_common_names = (\<lambda>_. []), x509_subject_key_id = (\<lambda>_. None), x509_authority_key_id = (\<lambda>_. None),
     x509_subject_text = (\<lambda>_. []), x509_not_before_text = (\<lambda>_. None), x509_not_after_text = (\<lambda>_. None),
     i2s_octet_string = to_hex, crl_issuer_text = (\<lambda>_. None), crl_revoked_serials = (\<lambda>_. []),
     crl_last_update_text = (\<lambda>_. None), crl_next_update_text = (\<lambda>_. None),
     x509_ext_data = (\<lambda>_ _. None), x509_pubkey = (\<lambda>_. None), d2i_sequence_any = (\<lambda>_. None),
     pem_read_pubkey = (\<lambda>_. None), pkey_eq = (\<lambda>_ _. 0), pkey_p256 = (\<lambda>_ _. None),
     pkey_rsa = (\<lambda>_ _. None), evp_pkey_verify = (\<lambda>_ _ _. 0), md_sha256 = (\<lambda>_. []),
     md_sha384 = (\<lambda>_. []), md_sha512 = (\<lambda>_. []), i2d_ecdsa_sig = (\<lambda>_ _. []),
     bio_base64_read = (\<lambda>_. None), bio_base64_write = string_of, store_new = (),
     store_set_flags = (\<lambda>_ s. s), store_add_cert = (\<lambda>_ s. s), store_add_crl = (\<lambda>_ s. Some s),
     ctx_init = (\<lambda>s _ _. Some s), ctx_set_time = (\<lambda>_ c. c), ctx_set0_param = (\<lambda>_ c. c),
     ctx_set_verify_cb = (\<lambda>_ c. c), x509_verify_cert = (\<lambda>_. 0), ctx_get1_chain = (\<lambda>_. [])\<rparr>"

lemma ex_io_laws: "x509_io_laws ex_io_ssl" "pem_io_law ex_io_ssl"
proof -
  have "53 \<le> length d" if "take 53 d = ex_cd" for d using that ex_cd_length(1) by (metis length_take min.cobounded1)
  then show "x509_io_laws ex_io_ssl" by (auto simp: x509_io_laws_def ex_io_ssl_def ex_der_def)
  show "pem_io_law ex_io_ssl" using ex_cd_length by (simp add: pem_io_law_def ex_io_ssl_def)
qed

lemma ex_evidence_size:
  "length ex_evidence = 436 + le_nat (sub 432 4 ex_evidence)" "length ex_evidence \<le> vector_max_size"
  by (simp_all add: ex_evidence_eq ex_quote_fields ex_cd_length le_nat_le_bytes_num vector_max_size_def)

lemma ex_compresses: "is_ok (compress_pck_certificate_chain ex_io_ssl ex_evidence True)"
proof -
  have "is_ok (pem_to_der_loop ex_io_ssl 53 ex_cd [])"
    using ex_cd_length
    by (simp add: pem_to_der_loop.simps[of _ "53"] pem_to_der_loop.simps[of _ _ "[]"] x509_read_def ex_io_ssl_def
        split: nat.split)
  then show ?thesis
    using compress_returns[OF ex_io_laws(1) ex_evidence_ok(1,2)] ex_evidence_ok(4) ex_cd_length ex_evidence_size by simp
qed

end
