(* ===== verification/SgxProps.thy ===== *)
theory SgxProps
  imports SgxLayout SgxExample
begin

text \<open>
  The properties of the SGX verifier, each with the concrete platform of \<open>SgxExample\<close> as its witness
  where it has hypotheses.
\<close>

text \<open>
  C1.  What \<open>sgx::Attestation::verify\<close> has established when it returns claims (full verification): the
  evidence is a well-formed version 3 ECDSA-P256 quote whose signature data lies inside it; OpenSSL
  accepted the PCK chain carried in it, its leaf is a PCK certificate and its root, when the option
  says so, has Intel's key; the QE report is signed by the PCK key, the quote by the attestation key, and
  the QE report commits to that key; a TCB level of the signed TCB info is reached; the QE identity
  matches the QE report; and the claims are the fields of the quote that was checked.
\<close>

theorem sgx_verify_sound:
  assumes "verify ssl parse strptime ev endorsements opts rs = Inr claims"
    and "\<not> partial_verification opts"
  shows "\<exists>c cd store chain leaf ext level.
     gather_collateral endorsements opts rs = Inr c
   \<and> quote_header_ok ev \<and> signature_data_ok ev
   \<and> normalise_certification_data ssl (raw_certification_data ev) = Inr cd
   \<and> verify_certificate_chain_pem ssl cd store (certificate_verification opts) False
       (verbosity opts) 4 = Inr (store, chain)
   \<and> pck_chain_accepted ssl chain opts leaf
   \<and> quote_attested ssl ev leaf
   \<and> new_certificate_extension ssl leaf = Inr ext
   \<and> verify_tcb ssl parse strptime (tcb_info_issuer_chain c) (tcb_info c) ext store opts = Inr level
   \<and> verify_qe_id ssl parse strptime (qe_identity_issuer_chain c) (qe_identity c)
       (sub 564 384 ev) store opts = Inr True
   \<and> q_report_body claims = report_body_of (sub 48 384 ev)
   \<and> sc_qe_report (q_signature_data claims) = report_body_of (sub 564 384 ev)
   \<and> q_endorsements claims = Some (endorsements_of c)"
proof (rule verify_Inr[OF assms], goal_cases)
  case (1 c cd store tr crl_chain store1 chain leaf ext level base)
  note m = make_claims_Inr[OF 1(11)]
  from 1 m show ?case unfolding evidence_accepted_def
    by (intro exI[of _ c] exI[of _ cd] exI[of _ store1] exI[of _ chain] exI[of _ leaf] exI[of _ ext]
        exI[of _ level] conjI) simp_all
qed

lemma sgx_verify_sound_witness:
  "\<exists>leaf. quote_attested ex_ssl ex_evidence leaf \<and> pck_chain_accepted ex_ssl [leaf, 6] default_options leaf"
proof -
  obtain claims where "verify ex_ssl ex_parse ex_strptime ex_evidence ex_endorsements default_options None = Inr claims"
    using ex_verifies by (auto simp: is_ok_iff)
  moreover have "\<not> partial_verification default_options" by (simp add: default_options_def)
  ultimately obtain cd store chain leaf where
    l: "verify_certificate_chain_pem ex_ssl cd store (certificate_verification default_options) False
       (verbosity default_options) 4 = Inr (store, chain)"
    "pck_chain_accepted ex_ssl chain default_options leaf" "quote_attested ex_ssl ex_evidence leaf"
    using sgx_verify_sound by blast
  have "chain = [5, 6]"
    using l(1) by (auto simp: verify_certificate_chain_pem_def verify_certificate_chain_def andthen_Inr
        rethrow_as_Inr throw_if_Inr verify_chain_ctx_def Let_def ex_ssl_def split: if_splits)
  moreover have "leaf = hd chain" using l(2) by (simp add: pck_chain_accepted_def)
  ultimately show ?thesis using l by auto
qed

text \<open>
  C13.  The TCB level \<open>verify_tcb_json\<close> returns is the first level of the document that the platform
  reaches (every component SVN and the PCE SVN at least the level's) and whose status is not empty;
  every level before it was decoded and is not such a level.
\<close>

theorem tcb_level_is_first_reached:
  assumes "verify_tcb_json ssl parse strptime s ext key = Inr level"
  shows "\<exists>doc info levels i. parse s = Inr doc \<and> json_sub doc ''tcbInfo'' = Inr info
     \<and> json_sub info ''tcbLevels'' = Inr levels \<and> i < length (json_elements levels)
     \<and> parse_tcb_level (json_elements levels ! i) = Inr level
     \<and> tcb_level_reached (ext_tcb ext) level \<and> lv_status level \<noteq> []
     \<and> (\<forall>k < i. \<exists>m. parse_tcb_level (json_elements levels ! k) = Inr m
           \<and> \<not> (tcb_level_reached (ext_tcb ext) m \<and> lv_status m \<noteq> []))"
  by (rule verify_tcb_json_level[OF assms]) blast

lemma tcb_level_is_first_reached_witness:
  "tcb_level_reached (ext_tcb ex_ext) ex_level"
  using tcb_level_is_first_reached[OF ex_verify_tcb_json] by blast

text \<open>
  C16.  Compressing the PCK certificate chain of a quote that carries it as PEM keeps the quote: the signed
  part is untouched, the evidence gets shorter and carries the DER forms of exactly the certificates that
  are read from the PEM text, in their order, and it parses as the same quote with the same spans and the
  PEM text of these certificates as its chain.  (For a chain that is DER already see
  \<open>compress_again_truncates\<close>.)
\<close>

theorem compress_keeps_quote:
  assumes "x509_io_laws ssl"
    and "compress_pck_certificate_chain ssl ev True = Inr ev'"
    and "starts_with_dashes (raw_certification_data ev)" "5 < length (raw_certification_data ev)"
    and "length ev = 436 + le_nat (sub 432 4 ev)" "length ev \<le> vector_max_size"
  shows "\<exists>xs. certificates_in (pem_read_bio_x509 ssl) (raw_certification_data ev) xs
     \<and> xs \<noteq> [] \<and> raw_certification_data ev' = der_all ssl xs
     \<and> length ev' < length ev \<and> sub 0 432 ev' = sub 0 432 ev
     \<and> parse_quote ev' = parse_quote ev
     \<and> new_signature_data ssl (0, 432) ev' =
         Inr (signature_data_at ev (bytes_of (stack_pem ssl xs)))"
  by (rule compress_correct[OF assms])

lemma compress_keeps_quote_witness:
  "\<exists>ev' xs. length ev' < length ex_evidence \<and> parse_quote ev' = parse_quote ex_evidence
     \<and> certificates_in (pem_read_bio_x509 ex_io_ssl) ex_cd xs"
proof -
  obtain ev' where "compress_pck_certificate_chain ex_io_ssl ex_evidence True = Inr ev'"
    using ex_compresses by (auto simp: is_ok_iff)
  moreover have "starts_with_dashes (raw_certification_data ex_evidence)"
    "5 < length (raw_certification_data ex_evidence)"
    using ex_evidence_ok(4) ex_cd_length by simp_all
  ultimately show ?thesis
    using compress_keeps_quote[OF ex_io_laws(1) _ _ _ ex_evidence_size, of ev'] ex_evidence_ok(4) by auto
qed

text \<open>
  C39.  Compressing is not idempotent: for a quote that ends with its chain in DER form, as compression
  leaves it, the bytes saved are computed from the PEM text that the constructor of \<open>SignatureData\<close> has
  made of the chain.  The chain stays as it is, and as many bytes are cut off the end of the evidence,
  which is no longer a quote.
\<close>

theorem compress_again_truncates:
  assumes "x509_io_laws ssl" and "pem_io_law ssl" and "quote_header_ok ev" and "signature_data_ok ev"
    and "raw_certification_data ev = der_all ssl xs"
    and "length ev = 436 + le_nat (sub 432 4 ev)" "length ev \<le> vector_max_size"
    and "length ev = cd_offset ev + 6 + cd_size ev"
    and "k = length (stack_pem ssl xs) - cd_size ev" "k < le_nat (sub 432 4 ev)"
  shows "0 < k \<and> (\<exists>ev'. compress_pck_certificate_chain ssl ev True = Inr ev' \<and> length ev' = length ev - k
     \<and> \<not> is_ok (new_signature_data ssl (0, 432) ev'))"
  by (rule compress_der_truncates[OF assms])

lemma compress_again_truncates_witness:
  "\<exists>ev'. compress_pck_certificate_chain ex_io_ssl (ex_quote ex_der) True = Inr ev' \<and> length ev' = 980"
proof -
  have d: "length ex_der = 6" by (simp add: ex_der_def)
  note ok = ex_quote_ok[of ex_der, unfolded d, simplified]
  have r: "raw_certification_data (ex_quote ex_der) = der_all ex_io_ssl [()]"
    using ok by (simp add: ex_io_ssl_def)
  have l: "length (ex_quote ex_der) = 1027" by (simp add: ex_quote_fields d)
  have f: "le_nat (sub 432 4 (ex_quote ex_der)) = 591" by (simp add: ex_quote_fields d le_nat_le_bytes_num)
  have s: "cd_size (ex_quote ex_der) = 6" "cd_offset (ex_quote ex_der) = 1015"
    by (simp_all add: cd_size_def cd_offset_def auth_size_def ex_quote_fields d le_nat_le_bytes_num)
  have k: "47 = length (stack_pem ex_io_ssl [()]) - cd_size (ex_quote ex_der)"
    using ex_cd_length s by (simp add: stack_pem_def ex_io_ssl_def string_of_def)
  show ?thesis
    using compress_again_truncates[OF ex_io_laws ok(1,2) r _ _ _ k] by (auto simp: l f s vector_max_size_def)
qed

text \<open>
  C38.  \<open>parse_quote\<close> on every input: it reads outside the evidence exactly when that has fewer than 436
  bytes, and otherwise accepts exactly the well-formed headers.
\<close>

theorem parse_quote_decides:
  "(undefined_behaviour (parse_quote ev) \<longleftrightarrow> length ev < 436)
   \<and> (is_ok (parse_quote ev) \<longleftrightarrow> 436 \<le> length ev
        \<and> 436 + le_nat (sub 432 4 ev) \<le> length ev \<and> le_nat (sub 0 2 ev) = 3 \<and> le_nat (sub 2 2 ev) = 2)"
  by (auto simp: parse_quote_undefined parse_quote_Inr is_ok_iff quote_header_ok_def sgx_layout
      SGX_QUOTE_VERSION_def SGX_QL_ALG_ECDSA_P256_def)



text \<open>
  C27.  The collateral format round-trips: what is written as three integers and seven length-prefixed
  strings is parsed back field by field.
\<close>

theorem collateral_roundtrip:
  assumes "length (encode_collateral major minor tee (map bytes_of [a, b, c, d, e, f, g])) \<le> vector_max_size"
  shows "parse_collateral (encode_collateral major minor tee (map bytes_of [a, b, c, d, e, f, g])) =
     Inr \<lparr>major_version = major, minor_version = minor, tee_type = tee, root_ca = [],
          pck_crl_issuer_chain = a, root_ca_crl = b, pck_crl = c, tcb_info_issuer_chain = d, tcb_info = e,
          qe_identity_issuer_chain = f, qe_identity = g\<rparr>"
  using parse_encode_collateral[OF refl assms[simplified]] by simp

lemma collateral_roundtrip_witness:
  "parse_collateral (encode_collateral 3 1 0 (map bytes_of [''a'', [], [], [], [], [], ''b''])) =
     Inr (default_collateral\<lparr>pck_crl_issuer_chain := ''a'', qe_identity := ''b''\<rparr>)"
  by (subst collateral_roundtrip)
    (simp_all add: encode_collateral_def put_blob_def vector_max_size_def default_collateral_def)

text \<open>
  C26.  The signature of a TCB info is checked over the text between the first \<open>{"tcbInfo":\<close> and the last
  \<open>,"signature"\<close>, whatever the parser found under \<open>tcbInfo\<close>.  A document in which these markers delimit
  a genuine signed text \<open>g\<close> while its \<open>tcbInfo\<close> member is a different object is accepted with the
  levels of that object.
\<close>

theorem tcb_info_signature_detached:
  assumes "s = a @ tcb_pre @ g @ tcb_post @ b"
    and "\<forall>j < length a. \<not> occurs_at s tcb_pre j"
    and "\<forall>j. length (a @ tcb_pre @ g) < j \<longrightarrow> \<not> occurs_at s tcb_post j"
    and "tcb_checks parse strptime s ext = Inr (level, signature)"
    and "verify_signature ssl key (bytes_of g) signature = Inr True"
  shows "verify_tcb_json ssl parse strptime s ext key = Inr level"
proof -
  have "signed_part s tcb_pre tcb_post e = Inr (bytes_of g)" for e
    by (rule signed_part_between[OF assms(1)]) (use assms(2,3) in auto)
  with assms(4,5) show ?thesis
    by (simp add: verify_tcb_json_def incorrectly_formatted_def)
qed

definition ex_wrapped_pre :: string where
  "ex_wrapped_pre = ''{ \"tcbInfo\" : {}, \"a\" : ''"

definition ex_wrapped :: string where
  "ex_wrapped = ex_wrapped_pre @ tcb_pre @ ''{}'' @ tcb_post @ '':\"\"}, \"signature\" : \"00\"}''"

lemma tcb_info_signature_detached_witness:
  "verify_tcb_json ex_ssl (\<lambda>_. Inr ex_tcb_doc) ex_strptime ex_wrapped ex_ext 15 = Inr ex_level"
proof (rule tcb_info_signature_detached)
  show "ex_wrapped = ex_wrapped_pre @ tcb_pre @ ''{}'' @ tcb_post @ '':\"\"}, \"signature\" : \"00\"}''"
    by (simp add: ex_wrapped_def)
  have "list_all (\<lambda>j. \<not> occurs_at ex_wrapped tcb_pre j) [0..<length ex_wrapped_pre]" by code_simp
  then show "\<forall>j < length ex_wrapped_pre. \<not> occurs_at ex_wrapped tcb_pre j" by (simp add: list_all_iff)
  let ?l = "length (ex_wrapped_pre @ tcb_pre @ ''{}'')"
  have "list_all (\<lambda>j. \<not> occurs_at ex_wrapped tcb_post j) [Suc ?l..<Suc (length ex_wrapped)]" by code_simp
  then have n: "j \<in> {Suc ?l..<Suc (length ex_wrapped)} \<Longrightarrow> \<not> occurs_at ex_wrapped tcb_post j" for j
    unfolding list_all_iff set_upt by blast
  show "\<forall>j. ?l < j \<longrightarrow> \<not> occurs_at ex_wrapped tcb_post j"
  proof (intro allI impI notI)
    fix j assume j: "?l < j" and o: "occurs_at ex_wrapped tcb_post j"
    from o have "j < Suc (length ex_wrapped)" by (auto simp: occurs_at_def)
    with j n[of j] o show False by simp
  qed
  show "tcb_checks (\<lambda>_. Inr ex_tcb_doc) ex_strptime ex_wrapped ex_ext = Inr (ex_level, [0])" by code_simp
  show "verify_signature ex_ssl 15 (bytes_of ''{}'') [0] = Inr True" by (rule ex_signature)
qed

text \<open>
    A custom root certificate makes fresh collateral impossible: the request set leaves the root out
  and no response set of its size is accepted.
\<close>

theorem custom_root_needs_five_responses:
  assumes "download_collateral vf ca fmspc_hex opts False = Inr qs"
    and "root_ca_certificate opts \<noteq> None" and "length rs = length qs"
  shows "consume_url_responses opts rs None =
     Inl (Runtime_Error ''collateral download request set of unexpected size'')"
  by (rule custom_root_rejected[OF assms])

lemma custom_root_needs_five_responses_witness:
  "consume_url_responses (default_options\<lparr>root_ca_certificate := Some ''pem''\<rparr>)
     (replicate 4 \<lparr>status = 200, headers = [], body = []\<rparr>) None =
     Inl (Runtime_Error ''collateral download request set of unexpected size'')"
  by (rule custom_root_needs_five_responses[where vf = "\<lambda>_ _. Inr []" and ca = "[]" and fmspc_hex = "[]"
        and qs = "[http_request root_crl_url, http_request (tcb_url @ ''?fmspc=''),
             http_request (pck_crl_url @ ''?ca='' @ ''&encoding=pem''), http_request qe_identity_url]"])
    (simp_all add: download_collateral_def default_options_def)

text \<open>
  A fresh download without a custom root fills each field of the collateral from the response to the
  request that was made for it.
\<close>

theorem download_fills_collateral:
  assumes "download_collateral vf ca fmspc_hex opts False = Inr qs"
    and "root_ca_certificate opts = None" and "sgx_endorsement_cache_url_template opts = None"
    and "consume_url_responses opts (map answer qs) None = Inr c"
  shows "root_ca c = body (answer (http_request root_ca_url))
   \<and> root_ca_crl c = body (answer (http_request root_crl_url))
   \<and> tcb_info c = body (answer (http_request (tcb_url @ ''?fmspc='' @ fmspc_hex)))
   \<and> pck_crl c = body (answer (http_request (pck_crl_url @ ''?ca='' @ ca @ ''&encoding=pem'')))
   \<and> qe_identity c = body (answer (http_request qe_identity_url))"
  using consume_download[OF assms(1-3) refl assms(4)] by simp

lemma download_fills_collateral_witness:
  "\<exists>c. root_ca c = root_ca_url
     \<and> consume_url_responses default_options
         (map (\<lambda>q. \<lparr>status = 200, headers = [(''SGX-TCB-Info-Issuer-Chain'', ''x''),
            (''SGX-PCK-CRL-Issuer-Chain'', ''y''), (''SGX-Enclave-Identity-Issuer-Chain'', ''z'')],
            body = url q\<rparr>)
           [http_request root_ca_url, http_request root_crl_url, http_request (tcb_url @ ''?fmspc=''),
            http_request (pck_crl_url @ ''?ca='' @ ''&encoding=pem''), http_request qe_identity_url]) None = Inr c"
  (is "\<exists>c. _ \<and> consume_url_responses _ (map ?answer ?qs) None = Inr c")
proof -
  have "is_ok (consume_url_responses default_options (map ?answer ?qs) None)"
    by (simp add: consume_url_responses_def expected_responses_def default_options_def consume_root_def
        response_at_def check_http_200_def consume_fresh_def get_header_string_def get_header_data_def Let_def
        numeral_2_eq_2 numeral_3_eq_3)
  then obtain c where c: "consume_url_responses default_options (map ?answer ?qs) None = Inr c"
    by (auto simp: is_ok_iff)
  have "download_collateral (\<lambda>_ _. Inr []) [] [] default_options False = Inr ?qs"
    by (simp add: download_collateral_def default_options_def)
  from download_fills_collateral[OF this _ _ c] c show ?thesis
    by (simp add: default_options_def http_request_def)
qed

text \<open>
  C18.  An accepted QE identity: the QE report's signer and product are the identity's, it is not a debug
  enclave, and unless historical verification is asked for its security version is strictly above the
  chosen level's, so that a quoting enclave exactly at its level is rejected.
\<close>

theorem qe_identity_sound:
  assumes "verify_qe_id ssl parse strptime chain s rbs store opts = Inr r"
  defines "rb \<equiv> report_body_of rbs"
  shows "\<exists>doc ei levels level.
     parse s = Inr doc \<and> json_sub doc ''enclaveIdentity'' = Inr ei
   \<and> json_sub ei ''tcbLevels'' = Inr levels
   \<and> for_each (json_elements levels) (qe_level_body (rb_isv_svn rb)) no_qe_tcb = Inr level
   \<and> (\<exists>m. json_field_string ei ''mrsigner'' = Inr m \<and> from_hex m = Inr (rb_mr_signer rb))
   \<and> (\<exists>p. json_sub ei ''isvprodid'' = Inr p \<and> json_get_word p = Inr (rb_isv_prod_id rb))
   \<and> and (rb_flags rb) SGX_FLAGS_DEBUG = 0
   \<and> (historical opts \<or> qe_isv_svn level < rb_isv_svn rb)"
proof -
  from verify_qe_id_Inr(2)[OF assms(1)] obtain signature where
    "qe_id_checks parse strptime s rb opts = Inr signature" unfolding rb_def by blast
  from qe_id_checks_Inr[OF this] show ?thesis
    using qe_attribute_checks_Inr by blast
qed

lemma qe_identity_sound_witness:
  "and (rb_flags (report_body_of (ex_report_body 2))) SGX_FLAGS_DEBUG = 0"
proof -
  have "verify_qe_id ex_ssl ex_parse ex_strptime [] ex_qe_identity (ex_report_body 2) 0 default_options = Inr True"
    by (simp add: verify_qe_id_def ex_issuer ex_qe_checks incorrectly_formatted_def ex_qe_signed ex_signature)
  from qe_identity_sound[OF this] show ?thesis by blast
qed

text \<open>
  C15.  The claims of an accepted SGX quote, verified in full or in part, are the members of the packed
  structures of \<open>sgx_defs.h\<close> at the offsets that the sizes of their members give, and the attestation key
  has signed exactly what precedes the length of the signature.
\<close>

theorem sgx_claims_follow_layout:
  assumes "verify ssl parse strptime ev endorsements opts rs = Inr claims"
  shows "layout_size sgx_quote_layout \<le> length ev
   \<and> claims\<lparr>q_endorsements := None\<rparr> = quote_claims_by_layout ev
   \<and> (\<exists>attest_key. verify_signature ssl attest_key (take (layout_offset sgx_quote_layout ''signature_len'') ev)
        (sc_signature (q_signature_data claims)) = Inr True)"
proof -
  note v = verify_by_layout[OF assms]
  have "sc_signature (q_signature_data claims) = sc_signature (q_signature_data (quote_claims_by_layout ev))"
    unfolding v(1)[symmetric] by simp
  then have s: "sc_signature (q_signature_data claims) = sub 436 64 ev"
    by (simp add: quote_claims_by_layout_def Let_def sgx_sig_data_members sgx_layout_offsets sgx_layout sub_drop)
  have "sub 0 432 ev = take (layout_offset sgx_quote_layout ''signature_len'') ev"
    by (simp add: sub_def sgx_layout_offsets sgx_layout)
  then show ?thesis
    using v unfolding s quote_attested_def quote_header_ok_def sgx_layout_sizes by auto
qed

lemma sgx_claims_follow_layout_witness:
  "\<exists>en. is_ok (verify ex_ssl ex_parse ex_strptime ex_evidence en default_options None) \<and>
     (\<exists>claims :: sgx_claims. claims\<lparr>q_endorsements := None\<rparr> = quote_claims_by_layout ex_evidence)"
proof -
  obtain claims where "verify ex_ssl ex_parse ex_strptime ex_evidence ex_endorsements default_options None = Inr claims"
    using ex_verifies by (auto simp: is_ok_iff)
  from sgx_claims_follow_layout[OF this] ex_verifies show ?thesis by blast
qed

end
