(* ===== verification/SevSnp.thy ===== *)
theory SevSnp
  imports SgxTcb
begin

text \<open>
  \<open>sev_snp::Attestation\<close> of \<open>include/ravl/sev_snp.h\<close> and \<open>sev_snp_impl.h\<close>: the layout of an SEV-SNP
  attestation report, the endorsement requests and their answers, and the verification, with the reports
  of a verbosity above 0.  The functions whose names the SGX verifier uses too carry the prefix
  \<open>snp_\<close>.
\<close>

section \<open>Layout of the report\<close>

definition snp_signature_offset :: nat where "snp_signature_offset = 0x2A0"
definition snp_signature_size :: nat where "snp_signature_size = 512"
definition ecdsa_p384_sha384 :: nat where "ecdsa_p384_sha384 = 1"

record snp_tcb_version =
  boot_loader :: byte
  tee :: byte
  snp :: byte
  microcode :: byte

definition snp_tcb_version_of :: "bytes \<Rightarrow> snp_tcb_version" where
  "snp_tcb_version_of b = \<lparr>boot_loader = b ! 0, tee = b ! 1, snp = b ! 6, microcode = b ! 7\<rparr>"

record snp_endorsements =
  se_root_ca_certificate :: string
  se_vcek_certificate_chain :: string
  se_vcek_issuer_chain_crl :: "string option"

record snp_claims =
  sn_version :: u32
  sn_guest_svn :: u32
  sn_policy :: u64
  sn_family_id :: bytes
  sn_image_id :: bytes
  sn_vmpl :: u32
  sn_signature_algo :: u32
  sn_platform_version :: snp_tcb_version
  sn_platform_info :: u64
  sn_flags :: u32
  sn_report_data :: bytes
  sn_measurement :: bytes
  sn_host_data :: bytes
  sn_id_key_digest :: bytes
  sn_author_key_digest :: bytes
  sn_report_id :: bytes
  sn_report_id_ma :: bytes
  sn_reported_tcb :: snp_tcb_version
  sn_chip_id :: bytes
  sn_committed_tcb :: snp_tcb_version
  sn_current_minor :: byte
  sn_current_build :: byte
  sn_current_major :: byte
  sn_committed_build :: byte
  sn_committed_minor :: byte
  sn_committed_major :: byte
  sn_launch_tcb :: snp_tcb_version
  sn_signature_r :: bytes
  sn_signature_s :: bytes
  sn_endorsements :: snp_endorsements

text \<open>The fields of a report at the offsets of \<open>snp::Attestation\<close> (packed).\<close>

definition snp_claims_of :: "bytes \<Rightarrow> snp_endorsements \<Rightarrow> snp_claims" where
  "snp_claims_of a e = \<lparr>
     sn_version = le_word (sub 0x000 4 a),
     sn_guest_svn = le_word (sub 0x004 4 a),
     sn_policy = le_word (sub 0x008 8 a),
     sn_family_id = sub 0x010 16 a,
     sn_image_id = sub 0x020 16 a,
     sn_vmpl = le_word (sub 0x030 4 a),
     sn_signature_algo = le_word (sub 0x034 4 a),
     sn_platform_version = snp_tcb_version_of (sub 0x038 8 a),
     sn_platform_info = le_word (sub 0x040 8 a),
     sn_flags = le_word (sub 0x048 4 a),
     sn_report_data = sub 0x050 64 a,
     sn_measurement = sub 0x090 48 a,
     sn_host_data = sub 0x0C0 32 a,
     sn_id_key_digest = sub 0x0E0 48 a,
     sn_author_key_digest = sub 0x110 48 a,
     sn_report_id = sub 0x140 32 a,
     sn_report_id_ma = sub 0x160 32 a,
     sn_reported_tcb = snp_tcb_version_of (sub 0x180 8 a),
     sn_chip_id = sub 0x1A0 64 a,
     sn_committed_tcb = snp_tcb_version_of (sub 0x1E0 8 a),
     sn_current_minor = a ! 0x1E8,
     sn_current_build = a ! 0x1E9,
     sn_current_major = a ! 0x1EA,
     sn_committed_build = a ! 0x1EC,
     sn_committed_minor = a ! 0x1ED,
     sn_committed_major = a ! 0x1EE,
     sn_launch_tcb = snp_tcb_version_of (sub 0x1F0 8 a),
     sn_signature_r = sub snp_signature_offset 72 a,
     sn_signature_s = sub (snp_signature_offset + 72) 72 a,
     sn_endorsements = e\<rparr>"

section \<open>Endorsements\<close>

definition kds_url :: string where "kds_url = ''https://kdsintf.amd.com''"

definition amd_milan_root_signing_public_key :: string where
  "amd_milan_root_signing_public_key = ''-----BEGIN PUBLIC KEY-----
MIICIjANBgkqhkiG9w0BAQEFAAOCAg8AMIICCgKCAgEA0Ld52RJOdeiJlqK2JdsV
mD7FktuotWwX1fNgW41XY9Xz1HEhSUmhLz9Cu9DHRlvgJSNxbeYYsnJfvyjx1MfU
0V5tkKiU1EesNFta1kTA0szNisdYc9isqk7mXT5+KfGRbfc4V/9zRIcE8jlHN61S
1ju8X93+6dxDUrG2SzxqJ4BhqyYmUDruPXJSX4vUc01P7j98MpqOS95rORdGHeI5
2Naz5m2B+O+vjsC060d37jY9LFeuOP4Meri8qgfi2S5kKqg/aF6aPtuAZQVR7u3K
FYXP59XmJgtcog05gmI0T/OitLhuzVvpZcLph0odh/1IPXqx3+MnjD97A7fXpqGd
/y8KxX7jksTEzAOgbKAeam3lm+3yKIcTYMlsRMXPcjNbIvmsBykD//xSniusuHBk
gnlENEWx1UcbQQrs+gVDkuVPhsnzIRNgYvM48Y+7LGiJYnrmE8xcrexekBxrva2V
9TJQqnN3Q53kt5viQi3+gCfmkwC0F0tirIZbLkXPrPwzZ0M9eNxhIySb2npJfgnq
z55I0u33wh4r0ZNQeTGfw03MBUtyuzGesGkcw+loqMaq1qR4tjGbPYxCvpCq7+Og
pCCoMNit2uLo9M18fHz10lOMT8nWAUvRZFzteXCm+7PHdYPlmQwUw3LvenJ/ILXo
QPHfbkH0CyPfhl1jWhJFZasCAwEAAQ==
-----END PUBLIC KEY-----
''"

record 'h endorsements_etc =
  ee_root_ca_certificate :: "'h option"
  ee_vcek_certificate_chain :: "'h list"
  ee_vcek_issuer_chain_crl :: "'h option"

definition parse_root_cert :: "'h openssl \<Rightarrow> HTTPResponse list \<Rightarrow> 'h result" where
  "parse_root_cert ssl url_responses =
     throw_if (length url_responses \<noteq> 1) (Runtime_Error ''collateral download request set failed'')
     (let issuer_chain = body (url_responses ! 0) in
      andthen (stack_of_pem ssl (bytes_of issuer_chain)) (\<lambda>stack.
      throw_if (length stack \<noteq> 2) (Runtime_Error ''unexpected size of issuer certificate chain'')
      (andthen (stack_at stack 1) (\<lambda>root.
       x509_of ssl (bytes_of (x509_pem ssl root)) True))))"

definition vcek_issuer_chain_url :: "string \<Rightarrow> string" where
  "vcek_issuer_chain_url product_name = kds_url @ ''/vcek/v1/'' @ product_name @ ''/cert_chain''"

definition vcek_issuer_crl_url :: "string \<Rightarrow> string" where
  "vcek_issuer_crl_url product_name = kds_url @ ''/vcek/v1/'' @ product_name @ ''/crl''"

definition snp_download_root_ca_pem :: "string \<Rightarrow> HTTPRequest list" where
  "snp_download_root_ca_pem product_name = [http_request (vcek_issuer_chain_url product_name)]"

definition tcb_parameters :: "snp_tcb_version \<Rightarrow> string" where
  "tcb_parameters v = ''blSPL='' @ decimal (unat (boot_loader v)) @ ''&teeSPL='' @ decimal (unat (tee v))
     @ ''&snpSPL='' @ decimal (unat (snp v)) @ ''&ucodeSPL='' @ decimal (unat (microcode v))"

definition vcek_url :: "string \<Rightarrow> string \<Rightarrow> snp_tcb_version \<Rightarrow> string" where
  "vcek_url product_name hwid v =
     kds_url @ ''/vcek/v1/'' @ product_name @ ''/'' @ hwid @ ''?'' @ tcb_parameters v"

text \<open>\<open>tcb_version\<close> is given as its eight bytes, which the template case reads as one integer.\<close>

definition download_endorsements ::
  "vformat \<Rightarrow> string \<Rightarrow> bytes \<Rightarrow> bytes \<Rightarrow> options \<Rightarrow> HTTPRequest list result" where
  "download_endorsements vformat product_name chip_id tcb_version opts =
     (let hwid = to_hex chip_id in
      case sev_snp_endorsement_cache_url_template opts of
        Some url_template \<Rightarrow>
          andthen (vformat url_template [hwid, hex_number_08 (le_nat tcb_version)]) (\<lambda>chain_url.
            Inr [http_request chain_url, http_request (vcek_issuer_crl_url product_name)])
      | None \<Rightarrow>
          Inr [http_request (vcek_url product_name hwid (snp_tcb_version_of tcb_version)),
               http_request (vcek_issuer_chain_url product_name),
               http_request (vcek_issuer_crl_url product_name)])"

fun check_statuses :: "HTTPResponse list \<Rightarrow> unit result" where
  "check_statuses [] = Inr ()"
| "check_statuses (r # rs) =
     throw_if (status r \<noteq> 200) (Runtime_Error ''endorsement download failed'') (check_statuses rs)"

definition parse_url_responses ::
  "'h openssl \<Rightarrow> options \<Rightarrow> HTTPResponse list \<Rightarrow> 'h endorsements_etc result" where
  "parse_url_responses ssl opts rs =
     andthen (check_statuses rs) (\<lambda>_.
     andthen (case root_ca_certificate opts of
         None \<Rightarrow> Inr None
       | Some pem \<Rightarrow> andthen (x509_of ssl (bytes_of pem) True) (\<lambda>x. Inr (Some x))) (\<lambda>root.
     case sev_snp_endorsement_cache_url_template opts of
       Some _ \<Rightarrow>
         throw_if (length rs \<noteq> 2) (Runtime_Error ''unexpected number of URL responses'')
         (andthen (stack_of_pem ssl (bytes_of (body (rs ! 0)))) (\<lambda>stack.
          throw_if (length stack \<noteq> 3) (Runtime_Error ''unexpected size of issuer certificate chain'')
          (andthen (stack_at stack 2) (\<lambda>root.
           andthen (crl_of ssl (bytes_of (body (rs ! 1))) False) (\<lambda>crl.
             Inr \<lparr>ee_root_ca_certificate = Some root, ee_vcek_certificate_chain = stack,
                  ee_vcek_issuer_chain_crl = Some crl\<rparr>)))))
     | None \<Rightarrow>
         throw_if (length rs \<noteq> 3) (Runtime_Error ''unexpected number of URL responses'')
         (andthen (stack_of_pem ssl (bytes_of (body (rs ! 1)))) (\<lambda>stack.
          throw_if (length stack \<noteq> 2) (Runtime_Error ''unexpected size of issuer certificate chain'')
          (andthen (stack_at stack 1) (\<lambda>root.
           andthen (x509_of ssl (bytes_of (body (rs ! 0))) False) (\<lambda>vcek.
           andthen (crl_of ssl (bytes_of (body (rs ! 2))) False) (\<lambda>crl.
             Inr \<lparr>ee_root_ca_certificate = Some root, ee_vcek_certificate_chain = vcek # stack,
                  ee_vcek_issuer_chain_crl = Some crl\<rparr>))))))))"

section \<open>Preparing the requests\<close>

definition snp_prepare_endorsements ::
  "vformat \<Rightarrow> bytes \<Rightarrow> bytes \<Rightarrow> options \<Rightarrow> HTTPRequest list option result" where
  "snp_prepare_endorsements vformat evidence endorsements opts =
     andthen (peek_le evidence 0 4) (\<lambda>version.
     throw_if (version \<noteq> 2) (Runtime_Error ''unsupported attestation format version'')
     (let product_name = ''Milan''
      in if endorsements \<noteq> [] \<and> \<not> fresh_endorsements opts then
           (if root_ca_certificate opts = None \<and> fresh_root_ca_certificate opts
            then Inr (Some (snp_download_root_ca_pem product_name)) else Inr None)
         else
           andthen (peek evidence 0x1A0 64) (\<lambda>chip_id.
           andthen (peek evidence 0x180 8) (\<lambda>reported_tcb.
           andthen (download_endorsements vformat product_name chip_id reported_tcb opts) (\<lambda>r.
             Inr (Some r))))))"

section \<open>Verification\<close>

text \<open>\<open>verify_signature\<close>: \<open>r\<close> and \<open>s\<close> are little-endian numbers of 72 bytes.\<close>

definition snp_verify_signature :: "'h openssl \<Rightarrow> 'h \<Rightarrow> bytes \<Rightarrow> bytes \<Rightarrow> bytes \<Rightarrow> bool result" where
  "snp_verify_signature ssl pkey message r s =
     (let hash = sha384 ssl message
      in andthen (convert_rs_to_der ssl r s True) (\<lambda>sig_der.
           Inr (pkey_verify_signature ssl pkey hash sig_der)))"

definition snp_make_claims :: "'h openssl \<Rightarrow> bytes \<Rightarrow> 'h endorsements_etc \<Rightarrow> snp_claims result" where
  "snp_make_claims ssl evidence e =
     andthen (peek evidence 0 (snp_signature_offset + 144)) (\<lambda>a.
     case ee_root_ca_certificate e of
       None \<Rightarrow> Inl (Runtime_Error ''Root CA certificate not saved'')
     | Some root \<Rightarrow> Inr (snp_claims_of a \<lparr>
         se_root_ca_certificate = x509_pem ssl root,
         se_vcek_certificate_chain = stack_pem ssl (ee_vcek_certificate_chain e),
         se_vcek_issuer_chain_crl = map_option (crl_pem ssl) (ee_vcek_issuer_chain_crl e)\<rparr>))"

text \<open>The endorsements \<open>verify\<close> works on: the ones it was given, or the downloaded ones.\<close>

definition snp_gather_endorsements ::
  "'h openssl \<Rightarrow> bytes \<Rightarrow> options \<Rightarrow> HTTPResponse list option \<Rightarrow> 'h endorsements_etc result" where
  "snp_gather_endorsements ssl endorsements opts http_responses =
     throw_if (endorsements = [] \<and> (case http_responses of None \<Rightarrow> True | Some rs \<Rightarrow> rs = []))
       (Runtime_Error ''missing endorsements'')
     (if endorsements \<noteq> [] \<and> \<not> fresh_endorsements opts then
        andthen (stack_of_pem ssl (bytes_of (string_of endorsements))) (\<lambda>chain.
        andthen (case root_ca_certificate opts of
            Some pem \<Rightarrow> andthen (x509_of ssl (bytes_of pem) True) (\<lambda>x. Inr (Some x))
          | None \<Rightarrow>
              if fresh_root_ca_certificate opts then
                (case http_responses of
                   None \<Rightarrow> Inl (Undefined_Behaviour ''empty optional'')
                 | Some rs \<Rightarrow> andthen (parse_root_cert ssl rs) (\<lambda>x. Inr (Some x)))
              else Inr None) (\<lambda>root.
          Inr \<lparr>ee_root_ca_certificate = root, ee_vcek_certificate_chain = chain,
               ee_vcek_issuer_chain_crl = None\<rparr>))
      else (case http_responses of
          None \<Rightarrow> Inl (Runtime_Error ''missing endorsements'')
        | Some rs \<Rightarrow> parse_url_responses ssl opts rs))"

definition snp_store :: "'h openssl \<Rightarrow> 'h endorsements_etc \<Rightarrow> ('h \<times> bool) result" where
  "snp_store ssl e =
     andthen (store_add_crl_opt ssl (ee_vcek_issuer_chain_crl e)
                (store_set_flags ssl [CRL_CHECK, CRL_CHECK_ALL] (store_new ssl))) (\<lambda>store.
     case ee_root_ca_certificate e of
       Some root \<Rightarrow> Inr (store_add_cert ssl root store, False)
     | None \<Rightarrow> Inr (store, True))"

text \<open>The checks of the verified chain: its length, the manufacturer's key, the CA flag.\<close>

definition check_vcek_chain :: "'h openssl \<Rightarrow> 'h list \<Rightarrow> options \<Rightarrow> unit result" where
  "check_vcek_chain ssl chain opts =
     throw_if (length chain \<noteq> 3) (Runtime_Error ''unexpected certificate chain length'')
     (andthen (stack_at chain 2) (\<lambda>ark.
      andthen (if check_root_certificate_manufacturer_key opts
               then has_public_key ssl ark amd_milan_root_signing_public_key else Inr True) (\<lambda>root_ok.
      throw_if (\<not> root_ok)
        (Runtime_Error ''Root CA certificate does not have the expected AMD Milan public key'')
      (throw_if (\<not> is_ca ssl ark) (Runtime_Error ''Root CA certificate is not a CA'') (Inr ())))))"

text \<open>
  The signature: it covers all but the last 512 bytes of the evidence, whatever its size; on evidence of
  less than 512 bytes the size of that span wraps around.
\<close>

definition check_report_signature :: "'h openssl \<Rightarrow> bytes \<Rightarrow> 'h \<Rightarrow> unit result" where
  "check_report_signature ssl evidence vcek =
     andthen (peek_le evidence 0x34 4) (\<lambda>signature_algo.
     throw_if (signature_algo \<noteq> ecdsa_p384_sha384) (Runtime_Error ''unexpected signature algorithm'')
     (andthen (pkey_of_x509 ssl vcek) (\<lambda>vcek_pk.
      andthen (if snp_signature_size \<le> length evidence
               then Inr (take (length evidence - snp_signature_size) evidence)
               else Inl (Undefined_Behaviour ''span of wrapped size'')) (\<lambda>msg.
      andthen (peek evidence snp_signature_offset 72) (\<lambda>r.
      andthen (peek evidence (snp_signature_offset + 72) 72) (\<lambda>s.
      andthen (snp_verify_signature ssl vcek_pk msg r s) (\<lambda>sig_ok.
      throw_if (\<not> sig_ok) (Runtime_Error ''invalid VCEK signature'') (Inr ()))))))))"

text \<open>\<open>EndorsementsEtc::to_string\<close>; \<open>verify\<close> calls it at \<open>verbosity\<close> 1 and above.\<close>

definition snp_endorsements_to_string :: "'h openssl \<Rightarrow> 'h endorsements_etc \<Rightarrow> byte \<Rightarrow> nat \<Rightarrow> string result" where
  "snp_endorsements_to_string ssl e v indent =
     (let ins = spaces (indent + 4);
          pem_of = (\<lambda>pem. if 1 < v then andthen (indented pem 8) (\<lambda>p. Inr (ins @ ''  - PEM:'' @ endl @ p)) else Inr [])
      in andthen (stack_to_string_short ssl (ee_vcek_certificate_chain e) (indent + 4)) (\<lambda>chain.
         andthen (pem_of (stack_pem ssl (ee_vcek_certificate_chain e))) (\<lambda>chain_pem.
         andthen (case ee_vcek_issuer_chain_crl e of
             None \<Rightarrow> Inr ''none''
           | Some crl \<Rightarrow> andthen (crl_to_string_short ssl crl (indent + 6)) (\<lambda>s.
               andthen (pem_of (crl_pem ssl crl)) (\<lambda>p. Inr (endl @ s @ (if 1 < v then endl @ p else []))))) (\<lambda>crl.
           Inr (spaces (indent + 2) @ ''- Endorsements'' @ endl
              @ ins @ ''- VCEK certificate chain:'' @ endl @ chain @ endl
              @ (if 1 < v then chain_pem @ endl else [])
              @ ins @ ''- VCEK issuer CRL: '' @ crl)))))"

definition snp_verify ::
  "'h openssl \<Rightarrow> bytes \<Rightarrow> bytes \<Rightarrow> options \<Rightarrow> HTTPResponse list option \<Rightarrow> snp_claims result" where
  "snp_verify ssl evidence endorsements opts http_responses =
     andthen (snp_gather_endorsements ssl endorsements opts http_responses) (\<lambda>e.
     logged (0 < verbosity opts) (snp_endorsements_to_string ssl e (verbosity opts) 0) (
     andthen (snp_store ssl e) (\<lambda>(store, trusted_root).
     andthen (verify_certificate_chain ssl (ee_vcek_certificate_chain e) store
                (certificate_verification opts) trusted_root (verbosity opts) 4) (\<lambda>(store, chain).
     andthen (check_vcek_chain ssl chain opts) (\<lambda>_.
     andthen (stack_at chain 0) (\<lambda>vcek.
     andthen (check_report_signature ssl evidence vcek) (\<lambda>_.
     andthen (if trusted_root then andthen (stack_at chain 2) (\<lambda>ark. Inr (e\<lparr>ee_root_ca_certificate := Some ark\<rparr>))
              else Inr e) (\<lambda>e.
       snp_make_claims ssl evidence e))))))))"

section \<open>What the answers become\<close>

lemma check_statuses_Inr: "check_statuses rs = Inr () \<longleftrightarrow> (\<forall>r \<in> set rs. status r = 200)"
  by (induction rs) (auto simp: throw_if_Inr)

lemma parse_url_responses_Inr:
  assumes "parse_url_responses ssl opts rs = Inr e"
    and "sev_snp_endorsement_cache_url_template opts = None"
  shows "\<exists>vcek stack crl. length rs = 3 \<and> (\<forall>r \<in> set rs. status r = 200)
     \<and> stack_of_pem ssl (bytes_of (body (rs ! 1))) = Inr stack \<and> length stack = 2
     \<and> x509_of ssl (bytes_of (body (rs ! 0))) False = Inr vcek
     \<and> crl_of ssl (bytes_of (body (rs ! 2))) False = Inr crl
     \<and> e = \<lparr>ee_root_ca_certificate = Some (stack ! 1), ee_vcek_certificate_chain = vcek # stack,
            ee_vcek_issuer_chain_crl = Some crl\<rparr>"
  using assms unfolding parse_url_responses_def andthen_Inr
  by (auto simp: andthen_Inr throw_if_Inr check_statuses_Inr stack_at_Inr)

text \<open>The caller's root certificate is read and then replaced by the downloaded one.\<close>

lemma parse_url_responses_root:
  assumes "x509_of ssl (bytes_of pem) True = Inr x" and "root_ca_certificate opts = Some pem"
  shows "parse_url_responses ssl opts rs = parse_url_responses ssl (opts\<lparr>root_ca_certificate := None\<rparr>) rs"
  using assms by (simp add: parse_url_responses_def)

lemma snp_gather_fresh_root:
  assumes "x509_of ssl (bytes_of pem) True = Inr x" and "root_ca_certificate opts = Some pem"
    and "endorsements = [] \<or> fresh_endorsements opts"
  shows "snp_gather_endorsements ssl endorsements opts rs =
     snp_gather_endorsements ssl endorsements (opts\<lparr>root_ca_certificate := None\<rparr>) rs"
  using parse_url_responses_root[OF assms(1,2)] assms(3)
  by (auto simp: snp_gather_endorsements_def split: option.split)

section \<open>What an accepted report guarantees\<close>

definition vcek_chain_accepted :: "'h openssl \<Rightarrow> 'h list \<Rightarrow> options \<Rightarrow> bool" where
  "vcek_chain_accepted ssl chain opts \<longleftrightarrow> length chain = 3 \<and> is_ca ssl (chain ! 2)
     \<and> (check_root_certificate_manufacturer_key opts \<longrightarrow>
          has_public_key ssl (chain ! 2) amd_milan_root_signing_public_key = Inr True)"

definition report_signed :: "'h openssl \<Rightarrow> bytes \<Rightarrow> 'h \<Rightarrow> bool" where
  "report_signed ssl ev vcek \<longleftrightarrow>
     512 \<le> length ev \<and> 816 \<le> length ev \<and> le_nat (sub 0x34 4 ev) = ecdsa_p384_sha384
     \<and> (\<exists>pk. pkey_of_x509 ssl vcek = Inr pk
          \<and> snp_verify_signature ssl pk (take (length ev - 512) ev) (sub 0x2A0 72 ev) (sub 0x2E8 72 ev) = Inr True)"

lemma check_vcek_chain_Inr: "check_vcek_chain ssl chain opts = Inr () \<longleftrightarrow> vcek_chain_accepted ssl chain opts"
  unfolding check_vcek_chain_def vcek_chain_accepted_def
  by (auto simp: throw_if_Inr andthen_Inr stack_at_Inr)

lemma check_report_signature_Inr:
  assumes "check_report_signature ssl ev vcek = Inr ()"
  shows "report_signed ssl ev vcek"
  using assms unfolding check_report_signature_def report_signed_def snp_signature_offset_def
    snp_signature_size_def
  by (auto simp: throw_if_Inr andthen_Inr peek_le_if peek_Inr sub_def split: if_splits)

lemma snp_make_claims_Inr:
  assumes "snp_make_claims ssl ev e = Inr claims"
  shows "816 \<le> length ev \<and> (\<exists>en. claims = snp_claims_of (take 816 ev) en)"
  using assms unfolding snp_make_claims_def snp_signature_offset_def
  by (auto simp: andthen_Inr peek_Inr split: option.splits)

lemma snp_verify_Inr:
  assumes "snp_verify ssl ev endorsements opts rs = Inr claims"
  shows "\<exists>e store chain en. snp_gather_endorsements ssl endorsements opts rs = Inr e
     \<and> (\<exists>store0 tr. snp_store ssl e = Inr (store0, tr)
          \<and> verify_certificate_chain ssl (ee_vcek_certificate_chain e) store0 (certificate_verification opts) tr
              (verbosity opts) 4 = Inr (store, chain))
     \<and> vcek_chain_accepted ssl chain opts \<and> report_signed ssl ev (chain ! 0)
     \<and> claims = snp_claims_of (take 816 ev) en"
proof -
  from assms obtain e store0 tr store chain vcek e' where a:
    "snp_gather_endorsements ssl endorsements opts rs = Inr e" "snp_store ssl e = Inr (store0, tr)"
    "verify_certificate_chain ssl (ee_vcek_certificate_chain e) store0 (certificate_verification opts) tr
       (verbosity opts) 4 = Inr (store, chain)"
    "check_vcek_chain ssl chain opts = Inr ()" "stack_at chain 0 = Inr vcek"
    "check_report_signature ssl ev vcek = Inr ()" "snp_make_claims ssl ev e' = Inr claims"
    unfolding snp_verify_def andthen_Inr logged_Inr by (auto simp: andthen_Inr logged_Inr)
  moreover have "vcek = chain ! 0" using a(5) by (simp add: stack_at_Inr)
  ultimately show ?thesis
    using check_vcek_chain_Inr[of ssl chain opts] check_report_signature_Inr[OF a(6)]
      snp_make_claims_Inr[OF a(7)] by blast
qed

text \<open>A field inside the first \<open>n\<close> bytes does not depend on the rest.\<close>

lemma sub_prefix: "take m a = take m b \<Longrightarrow> off + n \<le> m \<Longrightarrow> sub off n a = sub off n b"
  by (metis sub_take)

lemma nth_prefix: "take m a = take m b \<Longrightarrow> i < m \<Longrightarrow> a ! i = b ! i"
  by (metis nth_take)

text \<open>Every claim but the signature itself is a field of the signed part of a report.\<close>

lemma snp_claims_of_signed:
  assumes "take 672 a = take 672 b" and "sub 0x2A0 72 a = sub 0x2A0 72 b" and "sub 0x2E8 72 a = sub 0x2E8 72 b"
  shows "snp_claims_of a e = snp_claims_of b e"
  using assms(2,3) unfolding snp_claims_of_def snp_signature_offset_def
  by (simp add: sub_prefix[OF assms(1)] nth_prefix[OF assms(1)])

lemma snp_claims_of_take: "snp_claims_of (take 816 a) e = snp_claims_of a e"
  unfolding snp_claims_of_def snp_signature_offset_def by (simp add: sub_take)

section \<open>Answers that are missing\<close>

lemma snp_verify_no_answers: "snp_verify ssl ev en opts (Some []) = snp_verify ssl ev en opts None \<or>
     (en \<noteq> [] \<and> (fresh_endorsements opts \<or> fresh_root_ca_certificate opts))"
  by (auto simp: snp_verify_def snp_gather_endorsements_def split: option.split)

end
