(* ===== verification/Uvm.thy ===== *)
theory Uvm
  imports SevSnp Json SgxTcb
begin

text \<open>
  Attestations of Azure container instances: the signed statement about the utility VM
  (\<open>uvm_endorsements.h\<close>, \<open>cose_common.h\<close>, \<open>cose_verifier_impl.h\<close>), the JSON web keys and DID documents it
  is verified with (\<open>jwk.h\<close>, \<open>did.h\<close>), and \<open>aci_impl.h\<close>.  The CBOR decoder, the COSE verifier and the
  DID resolver are libraries: the record \<open>cose_library\<close> holds what their calls return.
\<close>

section \<open>JSON web keys\<close>

datatype CurveID = CURVE_NONE | SECP384R1 | SECP256R1 | SECP256K1 | CURVE25519 | CURVE_X25519

datatype JsonWebKeyType = JWK_EC | JWK_RSA | JWK_OKP

datatype JsonWebKeyECCurve = P256 | P256K1 | P384 | P521

datatype JsonWebKeyEdDSACurve = ED25519 | X25519

fun curve_id_to_jwk_curve :: "CurveID \<Rightarrow> JsonWebKeyECCurve result" where
  "curve_id_to_jwk_curve SECP384R1 = Inr P384"
| "curve_id_to_jwk_curve SECP256R1 = Inr P256"
| "curve_id_to_jwk_curve SECP256K1 = Inr P256K1"
| "curve_id_to_jwk_curve _ = Inl (Logic_Error ''Unknown curve'')"

fun jwk_curve_to_curve_id :: "JsonWebKeyECCurve \<Rightarrow> CurveID result" where
  "jwk_curve_to_curve_id P384 = Inr SECP384R1"
| "jwk_curve_to_curve_id P256 = Inr SECP256R1"
| "jwk_curve_to_curve_id P256K1 = Inr SECP256K1"
| "jwk_curve_to_curve_id _ = Inl (Logic_Error ''Unknown JWK curve'')"

fun curve_id_to_jwk_eddsa_curve :: "CurveID \<Rightarrow> JsonWebKeyEdDSACurve result" where
  "curve_id_to_jwk_eddsa_curve CURVE25519 = Inr ED25519"
| "curve_id_to_jwk_eddsa_curve CURVE_X25519 = Inr X25519"
| "curve_id_to_jwk_eddsa_curve _ = Inl (Logic_Error ''Unknown EdDSA curve'')"

text \<open>The key type is \<open>None\<close> where no code assigns it.\<close>

record JsonWebKeyRSAPublic =
  jwk_kty :: "JsonWebKeyType option"
  jwk_n :: string
  jwk_e :: string

text \<open>\<open>x.kty == OKP\<close> is a comparison, so that branch assigns nothing.\<close>

definition jwk_type_of :: "string \<Rightarrow> JsonWebKeyType option result" where
  "jwk_type_of kty =
     (if kty = ''RSA'' then Inr (Some JWK_RSA)
      else if kty = ''EC'' then Inr (Some JWK_EC)
      else if kty = ''OKP'' then Inr None
      else Inl (Logic_Error ''Unsupported Json Web Key Type''))"

definition json_at_string :: "json \<Rightarrow> string \<Rightarrow> string result" where
  "json_at_string j k = andthen (json_at j k) json_get_string"

definition jwk_from_json :: "json \<Rightarrow> JsonWebKeyRSAPublic result" where
  "jwk_from_json j =
     andthen (json_at_string j ''kty'') (\<lambda>kty.
     andthen (jwk_type_of kty) (\<lambda>t.
     andthen (json_at_string j ''n'') (\<lambda>n.
     andthen (json_at_string j ''e'') (\<lambda>e.
       Inr \<lparr>jwk_kty = t, jwk_n = n, jwk_e = e\<rparr>))))"

text \<open>\<open>UqEVP_PKEY_RSA\<close>: modulus and exponent are big-endian.\<close>

definition pkey_RSA :: "'h openssl \<Rightarrow> JsonWebKeyRSAPublic \<Rightarrow> 'h result" where
  "pkey_RSA ssl k =
     andthen (from_base64url ssl (jwk_n k)) (\<lambda>n.
     andthen (from_base64url ssl (jwk_e k)) (\<lambda>e.
       checknull (pkey_rsa ssl (be_nat n) (be_nat e))))"

section \<open>DID documents\<close>

record DIDDocumentVerificationMethod =
  vm_id :: string
  vm_type :: string
  vm_controller :: string
  vm_publicKeyJwk :: JsonWebKeyRSAPublic

record DIDDocument =
  did_id :: string
  did_verificationMethod :: "DIDDocumentVerificationMethod list"
  did_assertionMethod :: string

definition verification_method_from_json :: "json \<Rightarrow> DIDDocumentVerificationMethod result" where
  "verification_method_from_json j =
     andthen (json_at_string j ''id'') (\<lambda>i.
     andthen (json_at_string j ''type'') (\<lambda>t.
     andthen (json_at_string j ''controller'') (\<lambda>c.
     andthen (json_at j ''publicKeyJwk'') (\<lambda>k.
     andthen (jwk_from_json k) (\<lambda>k.
       Inr \<lparr>vm_id = i, vm_type = t, vm_controller = c, vm_publicKeyJwk = k\<rparr>)))))"

definition json_get_list :: "(json \<Rightarrow> 'a result) \<Rightarrow> json \<Rightarrow> 'a list result" where
  "json_get_list get j = (case j of
       J_Array xs \<Rightarrow> for_each xs (\<lambda>x acc. andthen (get x) (\<lambda>v. Inr (acc @ [v]))) []
     | _ \<Rightarrow> Inl json_type_error)"

definition did_document_from_json :: "json \<Rightarrow> DIDDocument result" where
  "did_document_from_json j =
     andthen (json_at_string j ''id'') (\<lambda>i.
     andthen (json_at j ''verificationMethod'') (\<lambda>vms.
     andthen (json_get_list verification_method_from_json vms) (\<lambda>vms.
     andthen (json_at_string j ''assertionMethod'') (\<lambda>a.
       Inr \<lparr>did_id = i, did_verificationMethod = vms, did_assertionMethod = a\<rparr>))))"

section \<open>The libraries\<close>

text \<open>
  What the CBOR decoder finds in a message: whether it starts with an array, the first tag of that, the
  requested items of the protected header (\<open>None\<close> when it is malformed or an item has not the requested
  type), the items that follow when the certificate chain is entered as an array (until there are no
  more), and whether the header could be left without error.
\<close>

datatype qcbor_value = Q_Bytes bytes | Q_Array | Q_Other nat

datatype qcbor_next = Q_Item qcbor_value | Q_Malformed

record header_items =
  item_alg :: "int option"
  item_content_type :: "string option"
  item_x5chain :: "qcbor_value option"
  item_iss :: "string option"
  item_feed :: "string option"

record qcbor_message =
  q_outer_array :: bool
  q_tag :: nat
  q_header_items :: "header_items option"
  q_x5chain_next :: "qcbor_next list"
  q_exit_ok :: bool

text \<open>\<open>t_cose_sign1_verify\<close> returns the payload of a message whose signature holds.\<close>

record 'h cose_library =
  qcbor_read :: "bytes \<Rightarrow> qcbor_message"
  t_cose_sign1_verify :: "'h \<Rightarrow> bytes \<Rightarrow> bytes option"
  didx509_resolve :: "string \<Rightarrow> string \<Rightarrow> string result"

section \<open>The protected header\<close>

definition CBOR_TAG_COSE_SIGN1 :: nat where "CBOR_TAG_COSE_SIGN1 = 18"

definition is_rsa_alg :: "int \<Rightarrow> bool" where
  "is_rsa_alg alg \<longleftrightarrow> alg = - 37 \<or> alg = - 38 \<or> alg = - 39"

definition is_ecdsa_alg :: "int \<Rightarrow> bool" where
  "is_ecdsa_alg alg \<longleftrightarrow> alg = - 7 \<or> alg = - 35 \<or> alg = - 36"

record protected_header =
  ph_alg :: int
  ph_content_type :: string
  ph_x5_chain :: "bytes list"
  ph_iss :: string
  ph_feed :: string

definition cose_decode_error :: "string \<Rightarrow> failure" where
  "cose_decode_error s = Runtime_Error s"

fun x5chain_loop :: "qcbor_next list \<Rightarrow> bytes list \<Rightarrow> bytes list result" where
  "x5chain_loop [] parsed = Inr parsed"
| "x5chain_loop (Q_Malformed # ns) parsed = Inl (cose_decode_error ''Item in x5chain is not well-formed'')"
| "x5chain_loop (Q_Item (Q_Bytes b) # ns) parsed = x5chain_loop ns (parsed @ [b])"
| "x5chain_loop (Q_Item v # ns) parsed =
     Inl (cose_decode_error ''Next item in x5chain was not of type byte string'')"

fun decode_x5chain :: "qcbor_message \<Rightarrow> qcbor_value \<Rightarrow> bytes list result" where
  "decode_x5chain m Q_Array = andthen (x5chain_loop (q_x5chain_next m) []) (\<lambda>parsed.
     throw_if (parsed = []) (cose_decode_error ''x5chain array length was 0 in COSE header'') (Inr parsed))"
| "decode_x5chain m (Q_Bytes b) = Inr [b]"
| "decode_x5chain m (Q_Other t) =
     Inl (cose_decode_error ''Value type of x5chain in COSE header is not array or byte string'')"

definition value_or :: "'a \<Rightarrow> 'a option \<Rightarrow> 'a" where
  "value_or d x = (case x of None \<Rightarrow> d | Some v \<Rightarrow> v)"

definition decode_protected_header :: "qcbor_message \<Rightarrow> protected_header result" where
  "decode_protected_header m =
     throw_if (\<not> q_outer_array m) (cose_decode_error ''Failed to parse COSE_Sign1 outer array'')
    (throw_if (q_tag m \<noteq> CBOR_TAG_COSE_SIGN1) (cose_decode_error ''Failed to parse COSE_Sign1 tag'')
    (case q_header_items m of
       None \<Rightarrow> Inl (cose_decode_error ''Failed to decode protected header'')
     | Some items \<Rightarrow>
         andthen (case item_x5chain items of None \<Rightarrow> Inr [] | Some v \<Rightarrow> decode_x5chain m v) (\<lambda>x5.
         throw_if (\<not> q_exit_ok m) (cose_decode_error ''Failed to decode protected header'')
         (Inr \<lparr>ph_alg = value_or 0 (item_alg items), ph_content_type = value_or [] (item_content_type items),
               ph_x5_chain = x5, ph_iss = value_or [] (item_iss items),
               ph_feed = value_or [] (item_feed items)\<rparr>))))"

section \<open>The roots of trust\<close>

record UVMEndorsements =
  uvm_did :: string
  uvm_feed :: string
  uvm_svn :: string

definition uvm_roots_of_trust :: "UVMEndorsements list" where
  "uvm_roots_of_trust = [
     \<lparr>uvm_did = ''did:x509:0:sha256:I__iuL25oXEVFdTP_aBLx_eT1RPHbCQ_ECBQfYZpt9s::eku:1.3.6.''
        @ ''1.4.1.311.76.59.1.2'', uvm_feed = ''ContainerPlat-AMD-UVM'', uvm_svn = ''0''\<rparr>,
     \<lparr>uvm_did = ''did:x509:0:sha256:I__iuL25oXEVFdTP_aBLx_eT1RPHbCQ_ECBQfYZpt9s::eku:1.3.6.''
        @ ''1.4.1.311.76.59.1.5'', uvm_feed = ''ConfAKS-AMD-UVM'', uvm_svn = ''0''\<rparr>]"

text \<open>\<open>std::string::operator<=\<close>: lexicographic, characters as unsigned numbers.\<close>

fun string_le :: "string \<Rightarrow> string \<Rightarrow> bool" where
  "string_le [] t = True"
| "string_le (a # s) [] = False"
| "string_le (a # s) (b # t) =
     ((of_char a :: nat) < of_char b \<or> a = b \<and> string_le s t)"

fun matches_root :: "UVMEndorsements list \<Rightarrow> UVMEndorsements \<Rightarrow> bool" where
  "matches_root [] e = False"
| "matches_root (r # rs) e =
     (if uvm_did r = uvm_did e \<and> uvm_feed r = uvm_feed e \<and> string_le (uvm_svn r) (uvm_svn e)
      then True else matches_root rs e)"

definition matches_uvm_roots_of_trust :: "UVMEndorsements \<Rightarrow> bool" where
  "matches_uvm_roots_of_trust e = matches_root uvm_roots_of_trust e"

section \<open>Verification\<close>

text \<open>
  \<open>COSEVerifier_OpenSSL::verify\<close> answers a flag and sets the authenticated content when it is true: the
  content is the result here.  A key that cannot be built throws.
\<close>

definition cose_verify ::
  "'h openssl \<Rightarrow> 'h cose_library \<Rightarrow> JsonWebKeyRSAPublic \<Rightarrow> bytes \<Rightarrow> bytes option result" where
  "cose_verify ssl cose pubk buf =
     andthen (pkey_RSA ssl pubk) (\<lambda>rsa_key. Inr (t_cose_sign1_verify cose rsa_key buf))"

definition verify_uvm_endorsements_signature ::
  "'h openssl \<Rightarrow> 'h cose_library \<Rightarrow> JsonWebKeyRSAPublic \<Rightarrow> bytes \<Rightarrow> bytes result" where
  "verify_uvm_endorsements_signature ssl cose pubkey raw =
     andthen (cose_verify ssl cose pubkey raw) (\<lambda>verified.
     case verified of
       None \<Rightarrow> Inl (Runtime_Error ''Signature verification failed'')
     | Some payload \<Rightarrow> Inr payload)"

text \<open>The first verification method of the issuer gives the key.\<close>

fun find_public_key :: "string \<Rightarrow> DIDDocumentVerificationMethod list \<Rightarrow> JsonWebKeyRSAPublic option" where
  "find_public_key d [] = None"
| "find_public_key d (vm # vms) =
     (if vm_controller vm = d then Some (vm_publicKeyJwk vm) else find_public_key d vms)"

definition pem_chain_of :: "'h openssl \<Rightarrow> bytes list \<Rightarrow> string result" where
  "pem_chain_of ssl x5 = for_each x5 (\<lambda>c acc. andthen (cert_der_to_pem ssl c) (\<lambda>p. Inr (acc @ p))) []"

definition uvm_payload_from_json :: "json \<Rightarrow> (string \<times> string) result" where
  "uvm_payload_from_json j =
     andthen (json_at_string j ''x-ms-sevsnpvm-guestsvn'') (\<lambda>svn.
     andthen (json_at_string j ''x-ms-sevsnpvm-launchmeasurement'') (\<lambda>m. Inr (svn, m)))"

definition verify_uvm_endorsements ::
  "'h openssl \<Rightarrow> 'h cose_library \<Rightarrow> json_parse \<Rightarrow> bytes \<Rightarrow> bytes \<Rightarrow> UVMEndorsements result" where
  "verify_uvm_endorsements ssl cose parse raw measurement =
     andthen (decode_protected_header (qcbor_read cose raw)) (\<lambda>phdr.
     throw_if (ph_content_type phdr \<noteq> ''application/json'')
       (Logic_Error ''Unexpected payload content type'')
    (throw_if (\<not> is_rsa_alg (ph_alg phdr)) (Logic_Error ''Signature algorithm is not expected RSA'')
    (andthen (pem_chain_of ssl (ph_x5_chain phdr)) (\<lambda>pem_chain.
     andthen (didx509_resolve cose pem_chain (ph_iss phdr)) (\<lambda>did_document_str.
     andthen (rethrow_as Runtime_Error Unknown_Exception
                (andthen (parse did_document_str) did_document_from_json)) (\<lambda>doc.
     throw_if (did_verificationMethod doc = [])
       (Logic_Error ''Could not find verification method for DID document'')
    (case find_public_key (ph_iss phdr) (did_verificationMethod doc) of
       None \<Rightarrow> Inl (Logic_Error ''Could not find matching public key for DID'')
     | Some pubk \<Rightarrow>
         andthen (verify_uvm_endorsements_signature ssl cose pubk raw) (\<lambda>raw_payload.
         andthen (andthen (parse (string_of raw_payload)) uvm_payload_from_json) (\<lambda>(svn, launch).
         throw_if (launch \<noteq> to_hex measurement)
           (Logic_Error ''Launch measurement in UVM endorsements payload is not equal to UVM attestation measurement'')
        (let e = \<lparr>uvm_did = ph_iss phdr, uvm_feed = ph_feed phdr, uvm_svn = svn\<rparr>
         in throw_if (\<not> matches_uvm_roots_of_trust e)
              (Logic_Error ''UVM endorsements do not match any of the known UVM roots of trust'')
              (Inr e)))))))))))"

text \<open>\<open>aci::Attestation::verify\<close>: the claims are those of the SEV-SNP report.\<close>

definition aci_verify ::
  "'h openssl \<Rightarrow> 'h cose_library \<Rightarrow> json_parse \<Rightarrow> bytes \<Rightarrow> bytes \<Rightarrow> bytes \<Rightarrow> options \<Rightarrow>
   HTTPResponse list option \<Rightarrow> snp_claims result" where
  "aci_verify ssl cose parse evidence endorsements uvm opts http_responses =
     andthen (snp_verify ssl evidence endorsements opts http_responses) (\<lambda>claims.
     andthen (verify_uvm_endorsements ssl cose parse uvm (sn_measurement claims)) (\<lambda>_.
       Inr claims))"

section \<open>What is accepted\<close>

text \<open>The curves of a JSON web key and of the library correspond to each other.\<close>

lemma jwk_curve_roundtrip: "jwk_curve_to_curve_id c = Inr k \<longleftrightarrow> curve_id_to_jwk_curve k = Inr c"
  by (cases c; cases k) simp_all

lemma string_le_refl [simp]: "string_le s s"
  by (induction s) simp_all

lemma string_le_total: "string_le s t \<or> string_le t s"
proof (induction s t rule: string_le.induct)
  case (3 a s b t)
  have "(of_char a :: nat) = of_char b \<longleftrightarrow> a = b" by (metis char_of_char)
  with 3 show ?case by auto
qed simp_all

lemma string_le_trans: "string_le s t \<Longrightarrow> string_le t u \<Longrightarrow> string_le s u"
proof (induction s t arbitrary: u rule: string_le.induct)
  case (3 a s b t)
  then show ?case by (cases u) auto
qed simp_all

lemma string_le_digit_zero: "string_le ''0'' s \<longleftrightarrow> s \<noteq> [] \<and> 48 \<le> (of_char (hd s) :: nat)"
proof (cases s)
  case (Cons b t)
  have "(of_char CHR ''0'' :: nat) = 48" by simp
  moreover have "CHR ''0'' = b \<longleftrightarrow> (of_char b :: nat) = 48" by (metis calculation char_of_char)
  ultimately show ?thesis using Cons by auto
qed simp

text \<open>The order of the security versions is the one of texts, not of numbers.\<close>

lemma svn_order: "string_le ''10'' ''9''" "\<not> string_le ''9'' ''10''"
  by simp_all

lemma matches_root_iff:
  "matches_root rs e \<longleftrightarrow> (\<exists>r \<in> set rs. uvm_did r = uvm_did e \<and> uvm_feed r = uvm_feed e
      \<and> string_le (uvm_svn r) (uvm_svn e))"
  by (induction rs) auto

lemma find_public_key_Some:
  "find_public_key d vms = Some k \<longleftrightarrow> (\<exists>i < length vms. vm_controller (vms ! i) = d
     \<and> vm_publicKeyJwk (vms ! i) = k \<and> (\<forall>j < i. vm_controller (vms ! j) \<noteq> d))"
proof (induction vms)
  case (Cons v vs)
  show ?case
  proof (cases "vm_controller v = d")
    case True
    then show ?thesis by (auto simp: nth_Cons' intro!: exI[of _ 0])
  next
    case False
    with Cons show ?thesis by (simp add: Ex_less_Suc2 All_less_Suc2)
  qed
qed simp

text \<open>A message whose header and signature are those the verifier asks for.\<close>

definition uvm_statement_signed ::
  "'h openssl \<Rightarrow> 'h cose_library \<Rightarrow> json_parse \<Rightarrow> bytes \<Rightarrow> protected_header \<Rightarrow> bytes \<Rightarrow> bool" where
  "uvm_statement_signed ssl cose parse raw phdr payload \<longleftrightarrow>
     (\<exists>chain did_text doc_json doc pubk rsa_key.
        decode_protected_header (qcbor_read cose raw) = Inr phdr
      \<and> pem_chain_of ssl (ph_x5_chain phdr) = Inr chain
      \<and> didx509_resolve cose chain (ph_iss phdr) = Inr did_text
      \<and> parse did_text = Inr doc_json \<and> did_document_from_json doc_json = Inr doc
      \<and> find_public_key (ph_iss phdr) (did_verificationMethod doc) = Some pubk
      \<and> pkey_RSA ssl pubk = Inr rsa_key
      \<and> t_cose_sign1_verify cose rsa_key raw = Some payload)"

lemma verify_uvm_endorsements_Inr:
  assumes "verify_uvm_endorsements ssl cose parse raw measurement = Inr e"
  obtains phdr payload j where "uvm_statement_signed ssl cose parse raw phdr payload"
    "ph_content_type phdr = ''application/json''" "is_rsa_alg (ph_alg phdr)"
    "parse (string_of payload) = Inr j" "uvm_payload_from_json j = Inr (uvm_svn e, to_hex measurement)"
    "uvm_did e = ph_iss phdr" "uvm_feed e = ph_feed phdr" "matches_uvm_roots_of_trust e"
proof -
  from assms obtain phdr chain did_text doc_json doc pubk payload j svn launch where
    p: "decode_protected_header (qcbor_read cose raw) = Inr phdr"
    "ph_content_type phdr = ''application/json''" "is_rsa_alg (ph_alg phdr)" and q:
    "pem_chain_of ssl (ph_x5_chain phdr) = Inr chain"
    "didx509_resolve cose chain (ph_iss phdr) = Inr did_text"
    "parse did_text = Inr doc_json" "did_document_from_json doc_json = Inr doc"
    "find_public_key (ph_iss phdr) (did_verificationMethod doc) = Some pubk"
    "verify_uvm_endorsements_signature ssl cose pubk raw = Inr payload"
    "parse (string_of payload) = Inr j" "uvm_payload_from_json j = Inr (svn, launch)"
    "launch = to_hex measurement" "e = \<lparr>uvm_did = ph_iss phdr, uvm_feed = ph_feed phdr, uvm_svn = svn\<rparr>"
    "matches_uvm_roots_of_trust e"
    by (auto simp: verify_uvm_endorsements_def andthen_Inr throw_if_Inr rethrow_as_Inr Let_def
        split: option.splits)
  from q(6) obtain key where k: "pkey_RSA ssl pubk = Inr key" "t_cose_sign1_verify cose key raw = Some payload"
    by (auto simp: verify_uvm_endorsements_signature_def cose_verify_def andthen_Inr split: option.splits)
  have "uvm_statement_signed ssl cose parse raw phdr payload"
    unfolding uvm_statement_signed_def using p(1) q(1-5) k by blast
  with p q that show thesis by simp
qed

lemma aci_verify_Inr:
  "aci_verify ssl cose parse ev en uvm opts rs = Inr claims \<longleftrightarrow>
     snp_verify ssl ev en opts rs = Inr claims
     \<and> is_ok (verify_uvm_endorsements ssl cose parse uvm (sn_measurement claims))"
  by (auto simp: aci_verify_def andthen_Inr is_ok_iff)

end
