(* ===== verification/SevExample.thy ===== *)
theory SevExample
  imports SgxExample Uvm
begin

text \<open>
  A concrete SEV-SNP platform and container instance on which the verifiers accept, built on the library
  of \<open>SgxExample\<close>: a report of 1184 bytes, its certificate chain, a signed statement about the
  utility VM and the DID document with its key.
\<close>

definition ex_snp_ssl :: "nat openssl" where
  "ex_snp_ssl = ex_ssl\<lparr>ctx_get1_chain := (\<lambda>_. [5, 7, 6])\<rparr>"

definition ex_snp_report :: bytes where
  "ex_snp_report = le_bytes 4 2 @ replicate 48 0 @ le_bytes 4 1 @ replicate 1128 0"

lemma ex_snp_report_fields:
  "length ex_snp_report = 1184" "sub 0x34 4 ex_snp_report = le_bytes 4 1" "sub 0 4 ex_snp_report = le_bytes 4 2"
  "sub 0x90 48 ex_snp_report = replicate 48 0"
  by (simp_all add: ex_snp_report_def sub_def)

definition ex_snp_etc :: "nat endorsements_etc" where
  "ex_snp_etc = \<lparr>ee_root_ca_certificate = None, ee_vcek_certificate_chain = [5, 6],
     ee_vcek_issuer_chain_crl = None\<rparr>"

lemma ex_snp_gather: "snp_gather_endorsements ex_snp_ssl [1] default_options rs = Inr ex_snp_etc"
  by (simp add: snp_gather_endorsements_def default_options_def stack_of_pem_def ex_snp_ssl_def ex_ssl_def
      ex_snp_etc_def)

lemma ex_snp_store: "snp_store ex_snp_ssl ex_snp_etc = Inr (0, True)"
  by (simp add: snp_store_def ex_snp_etc_def store_add_crl_opt_def ex_snp_ssl_def ex_ssl_def)

lemma ex_snp_prints: "prints ex_snp_ssl"
  by (simp add: prints_def ex_snp_ssl_def ex_ssl_def)

lemma ex_snp_chain: "verify_certificate_chain ex_snp_ssl [5, 6] 0 opts True v i = Inr (0, [5, 7, 6])"
  by (simp add: verify_certificate_chain_def log_chain_prints ex_snp_prints)
    (simp add: verify_chain_ctx_def stack_back_def stack_at_def chain_ctx_def
      verify_cert_def Let_def set_verification_time_def ex_snp_ssl_def ex_ssl_def throw_if_def split: option.split)

lemma ex_snp_check_chain: "check_vcek_chain ex_snp_ssl [5, 7, 6] default_options = Inr ()"
  by code_simp

lemma ex_snp_signature: "check_report_signature ex_snp_ssl ex_snp_report 5 = Inr ()"
proof -
  have "peek_le ex_snp_report 0x34 4 = Inr 1"
    using ex_snp_report_fields by (simp add: peek_le_if le_nat_le_bytes)
  then show ?thesis
    using ex_snp_report_fields(1)
    by (simp add: check_report_signature_def ecdsa_p384_sha384_def pkey_of_x509_def snp_signature_size_def
        snp_signature_offset_def snp_verify_signature_def convert_rs_to_der_def pkey_verify_signature_def
        Let_def throw_if_def) (simp add: ex_snp_ssl_def ex_ssl_def)
qed

lemma ex_snp_verifies:
  "\<exists>e. snp_verify ex_snp_ssl ex_snp_report [1] default_options rs = Inr (snp_claims_of ex_snp_report e)"
proof -
  have r: "stack_at [5, 7, 6 :: nat] 0 = Inr 5" "stack_at [5, 7, 6 :: nat] 2 = Inr 6" by code_simp+
  have c: "ee_vcek_certificate_chain ex_snp_etc = [5, 6]" by (simp add: ex_snp_etc_def)
  have p: "peek ex_snp_report 0 (snp_signature_offset + 144) = Inr (take 816 ex_snp_report)"
    by (simp add: ex_snp_report_fields(1) snp_signature_offset_def)
  have v: "verbosity default_options = 0" by (simp add: default_options_def)
  show ?thesis
    by (simp add: snp_verify_def v ex_snp_gather ex_snp_store c ex_snp_chain ex_snp_check_chain r
        ex_snp_signature snp_make_claims_def p snp_claims_of_take) blast
qed

section \<open>The utility VM\<close>

definition ex_did :: string where
  "ex_did = ''did:x509:0:sha256:I__iuL25oXEVFdTP_aBLx_eT1RPHbCQ_ECBQfYZpt9s::eku:1.3.6.1.4.1.311.76.59.1.5''"

definition ex_did_document :: json where
  "ex_did_document = J_Object [(''id'', J_String ex_did), (''assertionMethod'', J_String ''a''),
     (''verificationMethod'', J_Array [J_Object [(''id'', J_String ''k''), (''type'', J_String ''JsonWebKey''),
        (''controller'', J_String ex_did), (''publicKeyJwk'', J_Object [(''kty'', J_String ''RSA''),
          (''n'', J_String ''AQAB''), (''e'', J_String ''AQAB'')])]])]"

definition ex_uvm_payload :: json where
  "ex_uvm_payload = J_Object [(''x-ms-sevsnpvm-guestsvn'', J_String ''100''),
     (''x-ms-sevsnpvm-launchmeasurement'', J_String (replicate 96 (CHR ''0'')))]"

definition ex_uvm_parse :: json_parse where
  "ex_uvm_parse s = (if s = ''did'' then Inr ex_did_document else Inr ex_uvm_payload)"

definition ex_cose :: "nat cose_library" where
  "ex_cose = \<lparr>
     qcbor_read = (\<lambda>_. \<lparr>q_outer_array = True, q_tag = 18,
        q_header_items = Some \<lparr>item_alg = Some (- 37), item_content_type = Some ''application/json'',
          item_x5chain = Some Q_Array, item_iss = Some ex_did, item_feed = Some ''ConfAKS-AMD-UVM''\<rparr>,
        q_x5chain_next = [Q_Item (Q_Bytes (replicate 6 0x30))], q_exit_ok = True\<rparr>),
     t_cose_sign1_verify = (\<lambda>_ _. Some [1]),
     didx509_resolve = (\<lambda>_ _. Inr ''did'')\<rparr>"

lemma ex_hex_zero: "to_hex (replicate 48 0) = replicate 96 (CHR ''0'')"
  by code_simp

lemma ex_uvm_verifies:
  "verify_uvm_endorsements ex_snp_ssl ex_cose ex_uvm_parse uvm (replicate 48 0) =
     Inr \<lparr>uvm_did = ex_did, uvm_feed = ''ConfAKS-AMD-UVM'', uvm_svn = ''100''\<rparr>"
proof -
  let ?k = "\<lparr>jwk_kty = Some JWK_RSA, jwk_n = ''AQAB'', jwk_e = ''AQAB''\<rparr>"
  let ?h = "\<lparr>ph_alg = - 37, ph_content_type = ''application/json'', ph_x5_chain = [replicate 6 0x30],
      ph_iss = ex_did, ph_feed = ''ConfAKS-AMD-UVM''\<rparr>"
  have h: "decode_protected_header (qcbor_read ex_cose uvm) = Inr ?h"
    by (simp add: decode_protected_header_def ex_cose_def CBOR_TAG_COSE_SIGN1_def value_or_def)
  have p: "pem_chain_of ex_snp_ssl [replicate 6 0x30] = Inr ''-----BEGIN''"
    by (simp add: pem_chain_of_def cert_der_to_pem_def x509_of_def x509_read_def ex_snp_ssl_def ex_ssl_def)
  have d: "did_document_from_json ex_did_document = Inr \<lparr>did_id = ex_did,
      did_verificationMethod = [\<lparr>vm_id = ''k'', vm_type = ''JsonWebKey'', vm_controller = ex_did,
        vm_publicKeyJwk = ?k\<rparr>], did_assertionMethod = ''a''\<rparr>"
    by (simp add: did_document_from_json_def ex_did_document_def json_at_string_def json_get_string_def
        json_get_list_def verification_method_from_json_def jwk_from_json_def jwk_type_of_def)
  have s: "verify_uvm_endorsements_signature ex_snp_ssl ex_cose ?k uvm = Inr [1]"
    by (simp add: verify_uvm_endorsements_signature_def cose_verify_def pkey_RSA_def from_base64url_def from_base64_def Let_def)
      (simp add: ex_snp_ssl_def ex_ssl_def ex_cose_def)
  have pl: "uvm_payload_from_json ex_uvm_payload = Inr (''100'', replicate 96 (CHR ''0''))"
    by (simp add: uvm_payload_from_json_def ex_uvm_payload_def json_at_string_def json_get_string_def)
  have ps: "ex_uvm_parse ''did'' = Inr ex_did_document" "ex_uvm_parse (string_of [1]) = Inr ex_uvm_payload"
    by (simp_all add: ex_uvm_parse_def string_of_def char_of_byte_def)
  have r: "didx509_resolve ex_cose c i = Inr ''did''" for c i by (simp add: ex_cose_def)
  have m: "matches_uvm_roots_of_trust \<lparr>uvm_did = ex_did, uvm_feed = ''ConfAKS-AMD-UVM'', uvm_svn = ''100''\<rparr>"
    by (simp add: matches_uvm_roots_of_trust_def uvm_roots_of_trust_def ex_did_def)
  show ?thesis
    unfolding verify_uvm_endorsements_def
    by (simp add: h p r ps d s pl m ex_hex_zero is_rsa_alg_def Let_def)
qed

lemma ex_aci_verifies:
  "\<exists>e. aci_verify ex_snp_ssl ex_cose ex_uvm_parse ex_snp_report [1] uvm default_options rs =
     Inr (snp_claims_of ex_snp_report e)"
  using ex_snp_verifies[of rs] ex_uvm_verifies[of uvm] ex_snp_report_fields(4)
  by (auto simp: aci_verify_def snp_claims_of_def)

end
