(* ===== verification/OpenEnclave.thy ===== *)
theory OpenEnclave
  imports Sgx
begin

text \<open>
  \<open>oe::Attestation\<close> of \<open>include/ravl/oe.h\<close> and \<open>oe_impl.h\<close>, built without the Open Enclave verifier: the
  evidence is split into a raw SGX quote and the custom claims behind it, the endorsements are rewritten
  in the collateral format of the SGX verifier, and the SGX verifier does the rest.  The local constant
  \<open>with_plugin_header\<close> is false, so the branch for evidence with a plugin header is not reached; it is in
  \<open>OePlugin\<close>.
\<close>

section \<open>The endorsements\<close>

definition oe_endorsements_t_size :: nat where "oe_endorsements_t_size = 16"
definition oe_sgx_endorsements_t_size :: nat where "oe_sgx_endorsements_t_size = 9 * 12"
definition OE_SGX_ENDORSEMENTS_VERSION :: nat where "OE_SGX_ENDORSEMENTS_VERSION = 1"
definition OE_ENCLAVE_TYPE_SGX :: nat where "OE_ENCLAVE_TYPE_SGX = 2"

text \<open>
  The items of \<open>sgx_ql_qve_collateral_t\<close> as spans into the endorsements; the null pointer of an item
  that was not given has size 0.
\<close>

record ql_collateral =
  qc_pck_crl_issuer_chain :: span
  qc_root_ca_crl :: span
  qc_pck_crl :: span
  qc_tcb_info_issuer_chain :: span
  qc_tcb_info :: span
  qc_qe_identity_issuer_chain :: span
  qc_qe_identity :: span

definition no_ql_collateral :: ql_collateral where
  "no_ql_collateral = \<lparr>qc_pck_crl_issuer_chain = (0, 0), qc_root_ca_crl = (0, 0), qc_pck_crl = (0, 0),
     qc_tcb_info_issuer_chain = (0, 0), qc_tcb_info = (0, 0), qc_qe_identity_issuer_chain = (0, 0),
     qc_qe_identity = (0, 0)\<rparr>"

definition oe_unsupported_version :: failure where
  "oe_unsupported_version = Runtime_Error ''unsupported version of OE endorsements data structure''"

text \<open>The \<open>switch\<close> over the item index; the size fields have 32 bits.\<close>

definition oe_item :: "bytes \<Rightarrow> nat \<Rightarrow> nat \<Rightarrow> nat \<Rightarrow> ql_collateral \<Rightarrow> ql_collateral result" where
  "oe_item endorsements i item item_size c =
     (let sp = (item, item_size mod 2 ^ 32) in
      if i = 0 then
        throw_if (item_size \<noteq> 4) oe_unsupported_version
        (andthen (peek_le endorsements item 4) (\<lambda>v. throw_if (v \<noteq> 1) oe_unsupported_version (Inr c)))
      else if i = 1 then Inr (c\<lparr>qc_tcb_info := sp\<rparr>)
      else if i = 2 then Inr (c\<lparr>qc_tcb_info_issuer_chain := sp\<rparr>)
      else if i = 3 then Inr (c\<lparr>qc_pck_crl := sp\<rparr>)
      else if i = 4 then Inr (c\<lparr>qc_root_ca_crl := sp\<rparr>)
      else if i = 5 then Inr (c\<lparr>qc_pck_crl_issuer_chain := sp\<rparr>)
      else if i = 6 then Inr (c\<lparr>qc_qe_identity := sp\<rparr>)
      else if i = 7 then Inr (c\<lparr>qc_qe_identity_issuer_chain := sp\<rparr>)
      else if i = 8 then Inr c
      else Inl (Runtime_Error ''excess elements in OE endorsements data''))"

text \<open>
  One turn of the loop.  \<open>data_size\<close> is what remains of the declared buffer size, modulo \<open>2^64\<close>; the
  difference of two offsets is taken modulo \<open>2^32\<close>.  Nothing relates either to the size of the endorsements.
\<close>

definition oe_endorsement_step ::
  "bytes \<Rightarrow> nat \<Rightarrow> nat \<Rightarrow> nat \<Rightarrow> nat \<Rightarrow> ql_collateral \<Rightarrow> ql_collateral result" where
  "oe_endorsement_step endorsements num_elements data_size data i c =
     andthen (peek_le endorsements (oe_endorsements_t_size + 4 * i) 4) (\<lambda>offset.
     throw_if (data_size \<le> offset) (Runtime_Error ''invalid endorsement item offset'')
     (andthen (if i < num_elements - 1
         then andthen (peek_le endorsements (oe_endorsements_t_size + 4 * (i + 1)) 4)
           (\<lambda>next_offset. Inr ((next_offset + 2 ^ 32 - offset) mod 2 ^ 32))
         else Inr (data_size - offset)) (\<lambda>item_size.
      oe_item endorsements i (data + offset) item_size c)))"

text \<open>Copying an item reads it.\<close>

definition oe_item_bytes :: "bytes \<Rightarrow> span \<Rightarrow> bytes result" where
  "oe_item_bytes endorsements sp = (if snd sp = 0 then Inr [] else peek endorsements (fst sp) (snd sp))"

definition put_oe_item :: "bytes \<Rightarrow> span \<Rightarrow> bytes \<Rightarrow> bytes result" where
  "put_oe_item endorsements sp scollateral =
     (let scollateral = put (of_nat (snd sp) :: u64) scollateral
      in andthen (oe_item_bytes endorsements sp) (\<lambda>b. Inr (scollateral @ b)))"

definition ql_items :: "ql_collateral \<Rightarrow> span list" where
  "ql_items c = [qc_pck_crl_issuer_chain c, qc_root_ca_crl c, qc_pck_crl c, qc_tcb_info_issuer_chain c,
     qc_tcb_info c, qc_qe_identity_issuer_chain c, qc_qe_identity c]"

definition extract_collateral :: "bytes \<Rightarrow> bytes result" where
  "extract_collateral endorsements =
     throw_if (length endorsements < oe_endorsements_t_size \<or> length endorsements < oe_sgx_endorsements_t_size)
       (Runtime_Error ''Unknown endorsements format: too small to contain OE/SGX endorsements'')
     (andthen (peek_le endorsements 0 4) (\<lambda>version.
      throw_if (version \<noteq> OE_SGX_ENDORSEMENTS_VERSION) oe_unsupported_version
      (andthen (peek_le endorsements 4 4) (\<lambda>enclave_type.
       throw_if (enclave_type \<noteq> OE_ENCLAVE_TYPE_SGX)
         (Runtime_Error ''unsupported enclave type in OE endorsements'')
       (andthen (peek_le endorsements 8 4) (\<lambda>buffer_size.
        andthen (peek_le endorsements 12 4) (\<lambda>num_elements.
        let offsets_size = num_elements * 4;
            data_size = size_minus buffer_size offsets_size;
            data = oe_endorsements_t_size + offsets_size
        in andthen (for_each [0..<num_elements]
                      (oe_endorsement_step endorsements num_elements data_size data) no_ql_collateral) (\<lambda>c.
           let scollateral = put (0 :: u32) (put (1 :: u16) (put (3 :: u16) []))
           in for_each (ql_items c) (put_oe_item endorsements) scollateral))))))))"

section \<open>Splitting the evidence\<close>

definition extract_sgx_attestation :: "bytes \<Rightarrow> bytes \<Rightarrow> ((bytes \<times> bytes) \<times> bytes) result" where
  "extract_sgx_attestation evidence endorsements =
     throw_if (evidence = []) (Runtime_Error ''No evidence to verify'')
     (throw_if (length evidence < sgx_quote_t_size)
        (Runtime_Error ''Unknown evidence format: too small to contain SGX quote'')
     (andthen (peek_le evidence signature_len_offset 4) (\<lambda>signature_len.
      let quote_and_sig_len = sgx_quote_t_size + signature_len;
          claims = (if quote_and_sig_len < length evidence then drop quote_and_sig_len evidence else []);
          squote = (if quote_and_sig_len < length evidence then take quote_and_sig_len evidence else evidence)
      in andthen (if endorsements \<noteq> [] then extract_collateral endorsements else Inr []) (\<lambda>scollateral.
           Inr ((squote, scollateral), claims)))))"

section \<open>Custom claims\<close>

text \<open>
  A pointer plus a 64-bit size: the address wraps, and so does the offset from the start of the vector.
\<close>

definition verify_within_size :: "int \<Rightarrow> u64 \<Rightarrow> bytes \<Rightarrow> unit result" where
  "verify_within_size off n vec =
     andthen (verify_within_ptr off vec) (\<lambda>_. verify_within_ptr ((off + uint n - 1) mod 2 ^ 64) vec)"

text \<open>
  An entry: its header lies at \<open>16 + 16 * i\<close> whatever the entries before it contain.  The constructors of
  \<open>std::string\<close> and \<open>std::vector\<close> refuse sizes of \<open>2^63\<close> and more.
\<close>

definition custom_claim :: "bytes \<Rightarrow> nat \<Rightarrow> (string \<times> bytes) result" where
  "custom_claim cc i =
     (let ei = 16 + i * 16; name = int (ei + 16) in
      andthen (verify_within (ei, 16) cc) (\<lambda>_.
      andthen (peek_le cc ei 8) (\<lambda>ns. let name_size = of_nat ns :: u64 in
      andthen (peek_le cc (ei + 8) 8) (\<lambda>vs. let value_size = of_nat vs :: u64 in
      andthen (verify_within_size name name_size cc) (\<lambda>_.
      let value = (name + uint name_size) mod 2 ^ 64 in
      andthen (verify_within_size value value_size cc) (\<lambda>_.
      andthen (if name_size = 0 then Inr True
               else andthen (peek cc (nat ((name + uint name_size - 1) mod 2 ^ 64)) 1) (\<lambda>b. Inr (b \<noteq> [0])))
        (\<lambda>unterminated.
      throw_if unterminated (Runtime_Error ''custom claim name is an unterminated string'')
      (throw_if (vector_max_size < unat name_size - 1) (Logic_Error ''basic_string::_M_create'')
      (throw_if (vector_max_size < unat value_size)
        (Logic_Error ''cannot create std::vector larger than max_size()'')
      (andthen (peek cc (nat name) (unat name_size - 1)) (\<lambda>n.
       andthen (peek cc (nat value) (unat value_size)) (\<lambda>v.
         Inr (string_of n, v)))))))))))))"

definition custom_claim_step ::
  "bytes \<Rightarrow> nat \<Rightarrow> (string, bytes) std_map \<Rightarrow> (string, bytes) std_map result" where
  "custom_claim_step cc i claims_map =
     andthen (custom_claim cc i) (\<lambda>(name, value). Inr (fst (emplace name value claims_map)))"

definition extract_custom_claims ::
  "bytes \<Rightarrow> (string, bytes) std_map \<Rightarrow> (string, bytes) std_map result" where
  "extract_custom_claims cc claims_map =
     (if length cc < 16 then Inr claims_map
      else andthen (peek_le cc 0 8) (\<lambda>version.
        throw_if (version \<noteq> 1) (Runtime_Error ''unsupported custom claims version'')
        (andthen (peek_le cc 8 8) (\<lambda>num_claims.
          if num_claims = 0 then Inr claims_map
          else for_each [0..<num_claims] (custom_claim_step cc) claims_map))))"

section \<open>The attestation object\<close>

record oe_claims =
  oc_sgx_claims :: sgx_claims
  oc_custom_claims :: "(string, bytes) std_map"

text \<open>\<open>sgx_attestation\<close> and \<open>custom_claims\<close> are mutable members that \<open>prepare_endorsements\<close> fills.\<close>

record oe_attestation =
  oe_evidence :: bytes
  oe_endorsements :: bytes
  oe_sgx_attestation :: "(bytes \<times> bytes) option"
  oe_custom_claims :: bytes

definition new_oe_attestation :: "bytes \<Rightarrow> bytes \<Rightarrow> oe_attestation" where
  "new_oe_attestation evidence endorsements = \<lparr>oe_evidence = evidence, oe_endorsements = endorsements,
     oe_sgx_attestation = None, oe_custom_claims = []\<rparr>"

definition oe_extract :: "oe_attestation \<Rightarrow> oe_attestation result" where
  "oe_extract a = andthen (extract_sgx_attestation (oe_evidence a) (oe_endorsements a)) (\<lambda>(sgx_att, cc).
     Inr (a\<lparr>oe_sgx_attestation := Some sgx_att, oe_custom_claims := cc\<rparr>))"

definition oe_prepare_endorsements ::
  "'h openssl \<Rightarrow> vformat \<Rightarrow> oe_attestation \<Rightarrow> options \<Rightarrow> oe_attestation \<times> HTTPRequest list option result" where
  "oe_prepare_endorsements ssl vformat a opts =
     (case oe_extract a of
        Inl e \<Rightarrow> (a, Inl e)
      | Inr a' \<Rightarrow> (a', case oe_sgx_attestation a' of
            None \<Rightarrow> Inl (Undefined_Behaviour ''null attestation'')
          | Some (ev, en) \<Rightarrow> prepare_endorsements ssl vformat ev en opts))"

definition oe_run_verify ::
  "'h openssl \<Rightarrow> json_parse \<Rightarrow> strptime \<Rightarrow> oe_attestation \<Rightarrow> options \<Rightarrow> HTTPResponse list option \<Rightarrow>
   oe_claims result" where
  "oe_run_verify ssl parse strptime a opts rs =
     (case oe_sgx_attestation a of
        None \<Rightarrow> Inl (Undefined_Behaviour ''null attestation'')
      | Some (ev, en) \<Rightarrow>
          andthen (verify ssl parse strptime ev en opts rs) (\<lambda>sc.
          andthen (extract_custom_claims (oe_custom_claims a) []) (\<lambda>m.
            Inr \<lparr>oc_sgx_claims = sc, oc_custom_claims = m\<rparr>)))"

definition oe_verify ::
  "'h openssl \<Rightarrow> json_parse \<Rightarrow> strptime \<Rightarrow> oe_attestation \<Rightarrow> options \<Rightarrow> HTTPResponse list option \<Rightarrow>
   oe_attestation \<times> oe_claims result" where
  "oe_verify ssl parse strptime a opts rs =
     (case oe_sgx_attestation a of
        Some _ \<Rightarrow> (a, oe_run_verify ssl parse strptime a opts rs)
      | None \<Rightarrow>
          if oe_endorsements a = [] then (a, Inl (Runtime_Error ''no endorsements''))
          else (case oe_extract a of
              Inl e \<Rightarrow> (a, Inl e)
            | Inr a' \<Rightarrow> (a', oe_run_verify ssl parse strptime a' opts rs)))"

section \<open>Compression\<close>

text \<open>The bytes behind the quote are moved forward by \<open>k\<close>, one after the other.\<close>

fun move_forward :: "nat \<Rightarrow> nat list \<Rightarrow> bytes \<Rightarrow> bytes" where
  "move_forward k [] ev = ev"
| "move_forward k (i # is) ev = move_forward k is (ev[i - k := ev ! i])"

definition oe_compress_pck_certificate_chain :: "'h openssl \<Rightarrow> bytes \<Rightarrow> bool \<Rightarrow> bytes result" where
  "oe_compress_pck_certificate_chain ssl evidence resize_evidence =
     throw_if (evidence = []) (Runtime_Error ''empty evidence'')
     (andthen (parse_quote evidence) (\<lambda>pquote.
      andthen (new_signature_data ssl pquote evidence) (\<lambda>sd.
      andthen (sd_compress ssl sd evidence False) (\<lambda>(evidence, k).
      andthen (peek_le evidence signature_len_offset 4) (\<lambda>signature_len.
        if 0 < k \<and> k < signature_len then
          (let quote_and_sig_len = sgx_quote_t_size + signature_len;
               evidence = move_forward k [quote_and_sig_len..<length evidence] evidence
           in andthen (write_bytes signature_len_offset (le_bytes 4 (signature_len - k)) evidence) (\<lambda>evidence.
              if resize_evidence then vec_resize (size_minus (length evidence) k) evidence
              else Inr evidence))
        else Inr evidence)))))"

section \<open>What the SGX verifier is given\<close>

lemma extract_sgx_attestation_append:
  assumes "length q = sgx_quote_t_size + le_nat (sub signature_len_offset 4 q)"
  shows "extract_sgx_attestation (q @ cc) en =
     andthen (if en \<noteq> [] then extract_collateral en else Inr []) (\<lambda>s. Inr ((q, s), cc))"
proof -
  have l: "436 \<le> length q" using assms by (simp add: sgx_layout)
  then have "sub signature_len_offset 4 (q @ cc) = sub signature_len_offset 4 q"
    by (simp add: sub_def sgx_layout)
  with l assms show ?thesis
    by (cases cc) (auto simp: extract_sgx_attestation_def throw_if_def peek_le_if Let_def sgx_layout)
qed

lemma oe_verify_new:
  assumes "en \<noteq> []"
  shows "snd (oe_verify ssl parse strptime (new_oe_attestation ev en) opts rs) =
     andthen (extract_sgx_attestation ev en) (\<lambda>((q, s), cc).
     andthen (verify ssl parse strptime q s opts rs) (\<lambda>sc.
     andthen (extract_custom_claims cc []) (\<lambda>m. Inr \<lparr>oc_sgx_claims = sc, oc_custom_claims = m\<rparr>)))"
  using assms
  by (auto simp: oe_verify_def new_oe_attestation_def oe_extract_def oe_run_verify_def
      andthen_def split: sum.split)

text \<open>\<open>prepare_endorsements\<close> followed by \<open>verify\<close> works on the same quote and collateral.\<close>

lemma oe_prepare_then_verify:
  assumes "oe_prepare_endorsements ssl vf (new_oe_attestation ev en) opts = (a, Inr req)"
  shows "\<exists>q s cc. extract_sgx_attestation ev en = Inr ((q, s), cc)
     \<and> prepare_endorsements ssl vf q s opts = Inr req
     \<and> snd (oe_verify ssl parse strptime a opts' rs) =
         andthen (verify ssl parse strptime q s opts' rs) (\<lambda>sc.
         andthen (extract_custom_claims cc []) (\<lambda>m. Inr \<lparr>oc_sgx_claims = sc, oc_custom_claims = m\<rparr>))"
proof (cases "extract_sgx_attestation ev en")
  case (Inl e)
  with assms show ?thesis by (simp add: oe_prepare_endorsements_def new_oe_attestation_def oe_extract_def)
next
  case (Inr x)
  then obtain q s cc where x: "extract_sgx_attestation ev en = Inr ((q, s), cc)" by (cases x) auto
  with assms have "a = \<lparr>oe_evidence = ev, oe_endorsements = en, oe_sgx_attestation = Some (q, s),
      oe_custom_claims = cc\<rparr>" "prepare_endorsements ssl vf q s opts = Inr req"
    by (auto simp: oe_prepare_endorsements_def new_oe_attestation_def oe_extract_def)
  with x show ?thesis by (auto simp: oe_verify_def oe_run_verify_def)
qed

section \<open>Well-formed Open Enclave endorsements\<close>

text \<open>The offsets of consecutive items.\<close>

fun item_offsets :: "nat \<Rightarrow> bytes list \<Rightarrow> nat list" where
  "item_offsets off [] = []"
| "item_offsets off (x # xs) = off # item_offsets (off + length x) xs"

text \<open>
  The format: a version, the enclave type, the buffer's size and the number of items; the buffer
  is the table of offsets followed by the items.
\<close>

definition encode_oe_endorsements :: "bytes list \<Rightarrow> bytes" where
  "encode_oe_endorsements items =
     (let table = concat (map (le_bytes 4) (item_offsets 0 items)); data = concat items
      in le_bytes 4 1 @ le_bytes 4 2 @ le_bytes 4 (length table + length data) @ le_bytes 4 (length items)
           @ table @ data)"

lemma length_item_offsets [simp]: "length (item_offsets off xs) = length xs"
  by (induction xs arbitrary: off) auto

lemma nth_item_offsets: "i < length xs \<Longrightarrow> item_offsets off xs ! i = off + length (concat (take i xs))"
proof (induction xs arbitrary: off i)
  case Nil
  then show ?case by simp
next
  case (Cons x xs)
  then show ?case by (cases i) auto
qed

lemma length_table: "length (concat (map (le_bytes 4) os)) = 4 * length os"
  by (induction os) auto

lemma sub_append_right: "sub (length p + off) n (p @ q) = sub off n q"
  by (simp add: sub_def)

lemma sub_append_left: "off + n \<le> length p \<Longrightarrow> sub off n (p @ q) = sub off n p"
  by (simp add: sub_def)

lemma sub_table: "i < length os \<Longrightarrow> sub (4 * i) 4 (concat (map (le_bytes 4) os) @ q) = le_bytes 4 (os ! i)"
proof (induction os arbitrary: i)
  case Nil
  then show ?case by simp
next
  case (Cons x os)
  show ?case
  proof (cases i)
    case 0
    then show ?thesis by (simp add: sub_def)
  next
    case (Suc j)
    with Cons have "sub (4 * j) 4 (concat (map (le_bytes 4) os) @ q) = le_bytes 4 (os ! j)" by simp
    moreover have "sub (4 * i) 4 (concat (map (le_bytes 4) (x # os)) @ q) =
        sub (4 * j) 4 (concat (map (le_bytes 4) os) @ q)"
      using sub_append_right[of "le_bytes 4 x" "4 * j" 4 "concat (map (le_bytes 4) os) @ q"] Suc by simp
    ultimately show ?thesis using Suc by simp
  qed
qed

lemma sub_item: "i < length items \<Longrightarrow> sub (length (concat (take i items))) (length (items ! i)) (concat items) = items ! i"
proof -
  assume "i < length items"
  then have "concat items = concat (take i items) @ items ! i @ concat (drop (Suc i) items)"
    by (metis Cons_nth_drop_Suc append_take_drop_id concat.simps(2) concat_append)
  then show ?thesis by (simp add: sub_def)
qed

lemma encode_oe_endorsements_parts:
  fixes items :: "bytes list"
  defines "E \<equiv> encode_oe_endorsements items" and "n \<equiv> length items" and "D \<equiv> concat items"
  assumes sz: "4 * n + length D < 2 ^ 32"
  shows "length E = 16 + 4 * n + length D"
    and "le_nat (sub 0 4 E) = 1" and "le_nat (sub 4 4 E) = 2"
    and "le_nat (sub 8 4 E) = 4 * n + length D" and "le_nat (sub 12 4 E) = n"
    and "i < n \<Longrightarrow> le_nat (sub (16 + 4 * i) 4 E) = length (concat (take i items))"
    and "i < n \<Longrightarrow> sub (16 + 4 * n + length (concat (take i items))) (length (items ! i)) E = items ! i"
proof -
  let ?T = "concat (map (le_bytes 4) (item_offsets 0 items))"
  let ?h = "[le_bytes 4 1, le_bytes 4 2, le_bytes 4 (4 * n + length D), le_bytes 4 n]"
  have E: "E = le_bytes 4 1 @ le_bytes 4 2 @ le_bytes 4 (4 * n + length D) @ le_bytes 4 n @ ?T @ D"
    unfolding E_def encode_oe_endorsements_def D_def n_def Let_def by (simp only: length_table length_item_offsets)
  have T: "length ?T = 4 * n" by (simp only: length_table length_item_offsets n_def)
  show "length E = 16 + 4 * n + length D" unfolding E using T by simp
  have e32: "(256 :: nat) ^ 4 = 2 ^ 32" by simp
  have "sub 0 4 E = le_bytes 4 1" unfolding E by (simp add: sub_def)
  then show "le_nat (sub 0 4 E) = 1" by (simp add: le_nat_le_bytes)
  have "sub 4 4 E = le_bytes 4 2" unfolding E by (simp add: sub_def)
  then show "le_nat (sub 4 4 E) = 2" by (simp add: le_nat_le_bytes)
  have "sub 8 4 E = le_bytes 4 (4 * n + length D)" unfolding E by (simp add: sub_def)
  with sz show "le_nat (sub 8 4 E) = 4 * n + length D" by (simp add: le_nat_le_bytes e32)
  have "sub 12 4 E = le_bytes 4 n" unfolding E by (simp add: sub_def)
  moreover have "n < 256 ^ 4" unfolding e32 using sz by linarith
  ultimately show "le_nat (sub 12 4 E) = n" by (simp only: le_nat_le_bytes)
  let ?H = "le_bytes 4 1 @ le_bytes 4 2 @ le_bytes 4 (4 * n + length D) @ le_bytes 4 n"
  have E': "E = ?H @ ?T @ D" and H: "length ?H = 16" unfolding E by simp_all
  show "le_nat (sub (16 + 4 * i) 4 E) = length (concat (take i items))" if i: "i < n"
  proof -
    have "sub (16 + 4 * i) 4 E = sub (4 * i) 4 (?T @ D)"
      unfolding E' using sub_append_right[of ?H "4 * i" 4 "?T @ D"] H by simp
    also have "\<dots> = le_bytes 4 (item_offsets 0 items ! i)" by (rule sub_table) (use i in \<open>simp add: n_def\<close>)
    also have "item_offsets 0 items ! i = length (concat (take i items))"
      using i by (simp add: nth_item_offsets n_def)
    finally have s: "sub (16 + 4 * i) 4 E = le_bytes 4 (length (concat (take i items)))" .
    have "length (concat (take i items)) \<le> length D"
      unfolding D_def by (metis append_take_drop_id concat_append le_add1 length_append)
    then have "length (concat (take i items)) < 256 ^ 4" unfolding e32 using sz by linarith
    then show ?thesis unfolding s by (rule le_nat_le_bytes)
  qed
  show "sub (16 + 4 * n + length (concat (take i items))) (length (items ! i)) E = items ! i" if i: "i < n"
  proof -
    have E2: "E = (?H @ ?T) @ D" and L: "length (?H @ ?T) = 16 + 4 * n" unfolding E using T by simp_all
    show ?thesis unfolding E2
      using sub_append_right[of "?H @ ?T" "length (concat (take i items))" "length (items ! i)" D] L
        sub_item[of i items] i by (simp add: D_def n_def)
  qed
qed

text \<open>One turn of the loop on well-formed endorsements of nine items.\<close>

lemma oe_endorsement_step_encoded:
  fixes items :: "bytes list"
  defines "E \<equiv> encode_oe_endorsements items"
  assumes n: "length items = 9" and last: "items ! 8 \<noteq> []" and sz: "36 + length (concat items) < 2 ^ 32"
    and i: "i < 9"
  shows "oe_endorsement_step E 9 (length (concat items)) 52 i c =
     oe_item E i (52 + length (concat (take i items))) (length (items ! i)) c"
proof -
  let ?o = "\<lambda>i. length (concat (take i items))"
  let ?D = "length (concat items)"
  have sz': "4 * length items + length (concat items) < 2 ^ 32" using n sz by simp
  note P = encode_oe_endorsements_parts[OF sz', folded E_def]
  have Sc: "?o (Suc j) = ?o j + length (items ! j)" if "j < 9" for j
    using that n by (simp add: take_Suc_conv_app_nth)
  have mono: "?o j \<le> ?o 8" if "j \<le> 8" for j
  proof -
    have "take 8 items = take j items @ take (8 - j) (drop j items)"
      using take_add[of j "8 - j" items] that by simp
    then show ?thesis by (metis concat_append le_add1 length_append)
  qed
  have o9: "?o 9 = ?D" using n by simp
  have o8: "?o 8 < ?D" using Sc[of 8] o9 last by (cases "items ! 8") auto
  have lt: "?o i < ?D" using mono[of i] o8 i by simp
  have lE: "length E = 52 + ?D" using P(1) n by simp
  have pk: "peek_le E (16 + 4 * j) 4 = Inr (?o j)" if "j < 9" for j
    using that P(6)[of j] lE n by (simp add: peek_le_if)
  have D32: "?D < 2 ^ 32" using sz by simp
  show ?thesis
  proof (cases "i < 8")
    case True
    have "(?o (Suc i) + 2 ^ 32 - ?o i) mod 2 ^ 32 = length (items ! i)"
    proof -
      have "length (items ! i) < 2 ^ 32" using Sc[of i] mono[of "Suc i"] o8 D32 True by simp
      moreover have "?o (Suc i) + 2 ^ 32 - ?o i = length (items ! i) + 2 ^ 32" using Sc[of i] True by simp
      ultimately show ?thesis by simp
    qed
    with True pk[of i] pk[of "Suc i"] lt show ?thesis
      by (simp add: oe_endorsement_step_def oe_endorsements_t_size_def throw_if_def)
  next
    case False
    with i have "i = 8" by simp
    moreover have "?D - ?o 8 = length (items ! 8)" using Sc[of 8] o9 by simp
    ultimately show ?thesis using pk[of 8] lt
      by (simp add: oe_endorsement_step_def oe_endorsements_t_size_def throw_if_def)
  qed
qed

lemma extract_collateral_encoded:
  fixes items :: "bytes list"
  defines "E \<equiv> encode_oe_endorsements items"
  assumes n: "length items = 9" and ver: "items ! 0 = le_bytes 4 1" and last: "items ! 8 \<noteq> []"
    and sz: "36 + length (concat items) < 2 ^ 32" and big: "56 \<le> length (concat items)"
  shows "extract_collateral E = Inr (encode_collateral 3 1 0
     [items ! 5, items ! 4, items ! 3, items ! 2, items ! 1, items ! 7, items ! 6])"
proof -
  let ?o = "\<lambda>i. length (concat (take i items))"
  let ?D = "length (concat items)"
  let ?sp = "\<lambda>i. (52 + ?o i, length (items ! i))"
  have sz': "4 * length items + length (concat items) < 2 ^ 32" using n sz by simp
  note P = encode_oe_endorsements_parts[OF sz', folded E_def]
  have lE: "length E = 52 + ?D" using P(1) n by simp
  have le: "?o i + length (items ! i) \<le> ?D" if "i < 9" for i
  proof -
    have "?o (Suc i) = ?o i + length (items ! i)" using that n by (simp add: take_Suc_conv_app_nth)
    moreover have "?o (Suc i) \<le> ?D" by (metis append_take_drop_id concat_append le_add1 length_append)
    ultimately show ?thesis by simp
  qed
  have sp: "sub (52 + ?o i) (length (items ! i)) E = items ! i" if "i < 9" for i
    using P(7)[of i] that n by simp
  have small: "length (items ! i) mod 2 ^ 32 = length (items ! i)" if "i < 9" for i
    using le[OF that] sz by simp
  have v: "peek_le E (52 + ?o 0) 4 = Inr 1" using sp[of 0] ver big lE
    by (simp add: peek_le_if le_nat_le_bytes)
  note step = oe_endorsement_step_encoded[OF n last sz, folded E_def]
  have loop: "for_each [0..<9] (oe_endorsement_step E 9 ?D 52) no_ql_collateral =
     Inr \<lparr>qc_pck_crl_issuer_chain = ?sp 5, qc_root_ca_crl = ?sp 4, qc_pck_crl = ?sp 3,
          qc_tcb_info_issuer_chain = ?sp 2, qc_tcb_info = ?sp 1, qc_qe_identity_issuer_chain = ?sp 7,
          qc_qe_identity = ?sp 6\<rparr>"
  proof -
    have u: "[0..<9] = [0, 1, 2, 3, 4, 5, 6, 7, 8 :: nat]" by (simp add: upt_rec)
    have i0: "oe_item E 0 (52 + ?o 0) (length (items ! 0)) c = Inr c" for c
      using v ver by (simp add: oe_item_def)
    have s: "oe_endorsement_step E 9 ?D 52 0 c = Inr c"
      "oe_endorsement_step E 9 ?D 52 1 c = Inr (c\<lparr>qc_tcb_info := ?sp 1\<rparr>)"
      "oe_endorsement_step E 9 ?D 52 2 c = Inr (c\<lparr>qc_tcb_info_issuer_chain := ?sp 2\<rparr>)"
      "oe_endorsement_step E 9 ?D 52 3 c = Inr (c\<lparr>qc_pck_crl := ?sp 3\<rparr>)"
      "oe_endorsement_step E 9 ?D 52 4 c = Inr (c\<lparr>qc_root_ca_crl := ?sp 4\<rparr>)"
      "oe_endorsement_step E 9 ?D 52 5 c = Inr (c\<lparr>qc_pck_crl_issuer_chain := ?sp 5\<rparr>)"
      "oe_endorsement_step E 9 ?D 52 6 c = Inr (c\<lparr>qc_qe_identity := ?sp 6\<rparr>)"
      "oe_endorsement_step E 9 ?D 52 7 c = Inr (c\<lparr>qc_qe_identity_issuer_chain := ?sp 7\<rparr>)"
      "oe_endorsement_step E 9 ?D 52 8 c = Inr c" for c
      using i0 step[of 0 c] small
      by (simp_all add: step[of 1] step[of 2] step[of 3] step[of 4] step[of 5] step[of 6] step[of 7] step[of 8]
          oe_item_def del: length_concat One_nat_def)
    show ?thesis unfolding u
      by (simp only: for_each.simps s andthen_simps no_ql_collateral_def ql_collateral.update_convs)
  qed
  have item: "oe_item_bytes E (?sp i) = Inr (items ! i)" if "i < 9" for i
  proof (cases "items ! i")
    case Nil
    then show ?thesis by (simp add: oe_item_bytes_def)
  next
    case (Cons b bs)
    then show ?thesis using sp[OF that] le[OF that] lE
      by (simp add: oe_item_bytes_def sub_def del: length_concat)
  qed
  have dm: "size_minus (36 + ?D) 36 = ?D"
    using sz by (subst size_minus_le) (simp_all add: size_max_def)
  have hd: "peek_le E 0 4 = Inr 1" "peek_le E 4 4 = Inr 2" "peek_le E 8 4 = Inr (36 + ?D)" "peek_le E 12 4 = Inr 9"
    using P(2-5) lE n by (simp_all add: peek_le_if del: length_concat)
  have c: "\<not> (length E < oe_endorsements_t_size \<or> length E < oe_sgx_endorsements_t_size)"
    using lE big by (simp add: oe_endorsements_t_size_def oe_sgx_endorsements_t_size_def del: length_concat)
  show ?thesis
    unfolding extract_collateral_def
    using c hd loop dm item
    by (simp add: OE_SGX_ENDORSEMENTS_VERSION_def OE_ENCLAVE_TYPE_SGX_def oe_endorsements_t_size_def
        ql_items_def put_oe_item_def encode_collateral_def put_blob_def put_def Let_def del: length_concat)
qed

section \<open>Custom claims written by Open Enclave\<close>

text \<open>The entries follow each other; names end with a NUL that their size counts.\<close>

definition encode_custom_claims :: "(string \<times> bytes) list \<Rightarrow> bytes" where
  "encode_custom_claims claims = le_bytes 8 1 @ le_bytes 8 (length claims)
     @ concat (map (\<lambda>(name, value). le_bytes 8 (length name + 1) @ le_bytes 8 (length value)
         @ bytes_of name @ [0] @ value) claims)"

lemma custom_claim_single:
  assumes "value \<noteq> []" and "33 + length name + length value \<le> vector_max_size"
  shows "custom_claim (encode_custom_claims [(name, value)]) 0 = Inr (name, value)"
proof -
  let ?cc = "encode_custom_claims [(name, value)]"
  let ?n = "length name" and ?v = "length value"
  have cc: "?cc = le_bytes 8 1 @ le_bytes 8 1 @ le_bytes 8 (?n + 1) @ le_bytes 8 ?v @ bytes_of name @ [0] @ value"
    by (simp add: encode_custom_claims_def)
  have l: "length ?cc = 33 + ?n + ?v" unfolding cc by simp
  have b: "33 + ?n + ?v < 2 ^ 63" using assms(2) by (simp add: vector_max_size_def)
  then have b64: "?n + 1 < 256 ^ 8" "?v < 256 ^ 8" by simp_all
  have v0: "0 < ?v" using assms(1) by simp
  have "sub 16 8 ?cc = le_bytes 8 (?n + 1)" "sub 24 8 ?cc = le_bytes 8 ?v"
    unfolding cc by (simp_all add: sub_def del: le_bytes.simps)
  then have h: "peek_le ?cc 16 8 = Inr (?n + 1)" "peek_le ?cc 24 8 = Inr ?v"
    using l b64 by (simp_all add: peek_le_if le_nat_le_bytes del: le_bytes.simps)
  have u: "uint (of_nat (?n + 1) :: u64) = int ?n + 1" "uint (of_nat ?v :: u64) = int ?v"
    "unat (of_nat (?n + 1) :: u64) = ?n + 1" "unat (of_nat ?v :: u64) = ?v"
    using b by (simp_all add: uint_nat unat_of_nat del: of_nat_add of_nat_Suc)
  have ne: "(of_nat (?n + 1) :: u64) \<noteq> 0" using u(3) by (metis Suc_eq_plus1 nat.simps(3) unat_0)
  have m: "(32 + (int ?n + 1)) mod 2 ^ 64 = 33 + int ?n" "(32 + (int ?n + 1) - 1) mod 2 ^ 64 = 32 + int ?n"
    "(33 + int ?n + int ?v - 1) mod 2 ^ 64 = 32 + int ?n + int ?v"
    using b by simp_all
  have w1: "verify_within_size 32 (of_nat (?n + 1)) ?cc = Inr ()"
    unfolding verify_within_size_def u(1) m(2) using l v0 by (simp add: verify_within_ptr_def)
  have w2: "verify_within_size (33 + int ?n) (of_nat ?v) ?cc = Inr ()"
    unfolding verify_within_size_def u(2) m(3) using l v0 by (simp add: verify_within_ptr_def)
  have w0: "verify_within (16, 16) ?cc = Inr ()" using l by (simp add: verify_within_if)
  have p1: "peek ?cc (32 + ?n) 1 = Inr [0]" using l unfolding peek_def cc by simp
  have p2: "peek ?cc 32 ?n = Inr (bytes_of name)" using l unfolding peek_def cc by simp
  have p3: "peek ?cc (33 + ?n) ?v = Inr value" using l unfolding peek_def cc by simp
  have z: "\<not> vector_max_size < ?n" "\<not> vector_max_size < ?v" using assms(2) by simp_all
  have nn: "nat (32 + int ?n) = 32 + ?n" "nat (33 + int ?n) = 33 + ?n" by simp_all
  show ?thesis unfolding custom_claim_def Let_def
    by (simp only: mult_zero_left add_0_right numeral_plus_numeral arith_simps w0 h andthen_simps
        of_nat_numeral w1 u m nn w2 ne p1 if_False throw_if_simps z diff_add_inverse2 nat_numeral p2 p3
        string_of_bytes_of simp_thms)
qed

lemma extract_custom_claims_single:
  assumes "value \<noteq> []" and "33 + length name + length value \<le> vector_max_size"
  shows "extract_custom_claims (encode_custom_claims [(name, value)]) [] = Inr [(name, value)]"
proof -
  let ?cc = "encode_custom_claims [(name, value)]"
  have l: "33 \<le> length ?cc" by (simp add: encode_custom_claims_def)
  have "sub 0 8 ?cc = le_bytes 8 1" "sub 8 8 ?cc = le_bytes 8 1"
    by (simp_all add: encode_custom_claims_def sub_def del: le_bytes.simps)
  then have "peek_le ?cc 0 8 = Inr 1" "peek_le ?cc 8 8 = Inr 1"
    using l by (simp_all add: peek_le_if le_nat_le_bytes del: le_bytes.simps)
  with l custom_claim_single[OF assms] show ?thesis
    by (simp add: extract_custom_claims_def custom_claim_step_def emplace_def)
qed

text \<open>
  With two claims the second entry is looked for inside the first one's name.
\<close>

lemma custom_claims_two:
  "extract_custom_claims (encode_custom_claims [(''a'', [1]), (''b'', [2])]) [] =
     Inl (Runtime_Error ''invalid pointer'')"
proof -
  let ?cc = "encode_custom_claims [(''a'', [1]), (''b'', [2])]"
  have cc: "?cc = [1, 0, 0, 0, 0, 0, 0, 0, 2, 0, 0, 0, 0, 0, 0, 0, 2, 0, 0, 0, 0, 0, 0, 0, 1, 0, 0, 0, 0, 0, 0, 0,
      0x61, 0, 1, 2, 0, 0, 0, 0, 0, 0, 0, 1, 0, 0, 0, 0, 0, 0, 0, 0x62, 0, 2]"
    by code_simp
  have a: "char_of (97 :: nat) = CHR ''a''" by code_simp
  have first: "custom_claim ?cc 0 = Inr (''a'', [1])"
    unfolding cc custom_claim_def
    by (simp add: peek_le_if peek_def sub_def verify_within_if verify_within_size_def verify_within_ptr_def
        throw_if_def string_of_def char_of_byte_def vector_max_size_def a)
  have second: "custom_claim ?cc 1 = Inl (Runtime_Error ''invalid pointer'')"
    unfolding cc custom_claim_def
    by (simp add: peek_le_if peek_def sub_def verify_within_if verify_within_size_def verify_within_ptr_def
        throw_if_def)
  have "peek_le ?cc 0 8 = Inr 1" "peek_le ?cc 8 8 = Inr 2" "length ?cc = 54"
    unfolding cc by (simp_all add: peek_le_if sub_def)
  with first second show ?thesis
    by (simp add: extract_custom_claims_def custom_claim_step_def upt_rec)
qed

end
