(* ===== verification/Tracker.thy ===== *)
theory Tracker
  imports Http Options Codec
begin

text \<open>
  \<open>AttestationRequestTracker\<close> of \<open>include/ravl/request_tracker_impl.h\<close> and the two drivers of
  \<open>ravl_impl.h\<close>.  An attestation is an object with two virtual functions; a request is an entry of the
  tracker's map; \<open>advance\<close> is one transition of its state machine.

  A callback is called from within \<open>advance\<close> and may call \<open>advance\<close> again, so \<open>advance\<close> carries the
  depth of such nested calls.  Three levels are enough: a submitted request is advanced once more by
  the answers (or by itself when there is nothing to download), and a finished one by its callback.

  The client the requests share is part of the tracker's state.  A callback of the client finds the
  request waiting, and what it does to the tracker does not touch the client.  Locks only order the
  calls of different threads: every operation below is one uninterrupted step.
\<close>

section \<open>Attestations and requests\<close>

record 'a attestation =
  att_prepare :: "options \<Rightarrow> HTTPRequest list option result"
  att_verify :: "options \<Rightarrow> HTTPResponse list option \<Rightarrow> 'a result"

datatype request_state =
    SUBMITTED
  | WAITING_FOR_ENDORSEMENTS
  | HAVE_ENDORSEMENTS
  | FINISHED
  | ERROR

text \<open>\<open>advance\<close> is declared to return a \<open>RequestID\<close>; what it returns is the state's number.\<close>

fun state_number :: "request_state \<Rightarrow> nat" where
  "state_number SUBMITTED = 0"
| "state_number WAITING_FOR_ENDORSEMENTS = 1"
| "state_number HAVE_ENDORSEMENTS = 2"
| "state_number FINISHED = 3"
| "state_number ERROR = 4"

text \<open>The states are ordered by their numbers.\<close>

lemma state_number_inject: "state_number s = state_number t \<longleftrightarrow> s = t"
  by (cases s; cases t) simp_all

instantiation request_state :: linorder
begin

definition less_eq_request_state :: "request_state \<Rightarrow> request_state \<Rightarrow> bool" where
  "less_eq_request_state s t \<longleftrightarrow> state_number s \<le> state_number t"

definition less_request_state :: "request_state \<Rightarrow> request_state \<Rightarrow> bool" where
  "less_request_state s t \<longleftrightarrow> state_number s < state_number t"

instance
  by standard (auto simp: less_eq_request_state_def less_request_state_def state_number_inject)

end

type_synonym RequestID = nat

record ('a, 'cb) tracked_request =
  rq_state :: request_state
  rq_options :: options
  rq_attestation :: "'a attestation option"
  rq_claims :: "'a option"
  rq_has_client :: bool
  rq_callback :: "'cb option"
  rq_http_request_set_id :: "HTTPRequestSetId option"

text \<open>
  \<open>tr_own_client\<close> is the member \<open>http_client\<close> of the implementation class, which no code assigns;
  \<open>tr_client\<close> is the client the requests point to.
\<close>

record ('a, 'cb, 'c) tracker =
  tr_requests :: "(RequestID, ('a, 'cb) tracked_request) std_map"
  tr_own_client :: "'c option"
  next_request_id :: nat
  http_responses :: "(RequestID, HTTPResponse list) std_map"
  tr_client :: 'c

definition new_tracker :: "'c \<Rightarrow> ('a, 'cb, 'c) tracker" where
  "new_tracker c = \<lparr>tr_requests = [], tr_own_client = None, next_request_id = 0, http_responses = [],
     tr_client = c\<rparr>"

definition find_request :: "RequestID \<Rightarrow> ('a, 'cb, 'c) tracker \<Rightarrow> ('a, 'cb) tracked_request option" where
  "find_request i s = map_find i (tr_requests s)"

definition put_request ::
  "RequestID \<Rightarrow> ('a, 'cb) tracked_request \<Rightarrow> ('a, 'cb, 'c) tracker \<Rightarrow> ('a, 'cb, 'c) tracker" where
  "put_request i rq s = s\<lparr>tr_requests := assign i rq (tr_requests s)\<rparr>"

text \<open>An assignment through the reference \<open>req\<close>, which is live as long as the entry is in the map.\<close>

definition set_state :: "RequestID \<Rightarrow> request_state \<Rightarrow> ('a, 'cb, 'c) tracker \<Rightarrow> ('a, 'cb, 'c) tracker" where
  "set_state i st s = (case find_request i s of
       None \<Rightarrow> s | Some rq \<Rightarrow> put_request i (rq\<lparr>rq_state := st\<rparr>) s)"

section \<open>Queries\<close>

definition request_state_of :: "RequestID \<Rightarrow> ('a, 'cb, 'c) tracker \<Rightarrow> request_state" where
  "request_state_of i s = (case find_request i s of None \<Rightarrow> ERROR | Some rq \<Rightarrow> rq_state rq)"

definition finished :: "RequestID \<Rightarrow> ('a, 'cb, 'c) tracker \<Rightarrow> bool" where
  "finished i s \<longleftrightarrow> request_state_of i s = FINISHED"

definition completed :: "RequestID \<Rightarrow> ('a, 'cb, 'c) tracker \<Rightarrow> bool" where
  "completed i s \<longleftrightarrow> request_state_of i s = FINISHED \<or> request_state_of i s = ERROR"

definition request_result :: "RequestID \<Rightarrow> ('a, 'cb, 'c) tracker \<Rightarrow> 'a result" where
  "request_result i s = (case find_request i s of
       None \<Rightarrow> Inl (Runtime_Error ''no such attestation verification request'')
     | Some rq \<Rightarrow> throw_if (rq_state rq \<noteq> FINISHED)
         (Runtime_Error ''attestation verification request not finished'')
         (case rq_claims rq of
            None \<Rightarrow> Inl (Runtime_Error ''claim extraction failed'')
          | Some claims \<Rightarrow> Inr claims))"

definition erase_request ::
  "(HTTPRequestSetId \<Rightarrow> 'c \<Rightarrow> 'c) \<Rightarrow> RequestID \<Rightarrow> ('a, 'cb, 'c) tracker \<Rightarrow> ('a, 'cb, 'c) tracker" where
  "erase_request erase_set i s = (case find_request i s of
       None \<Rightarrow> s
     | Some rq \<Rightarrow>
         (let s = (case (tr_own_client s, rq_http_request_set_id rq) of
                     (Some c, Some k) \<Rightarrow> s\<lparr>tr_own_client := Some (erase_set k c)\<rparr> | _ \<Rightarrow> s)
          in s\<lparr>tr_requests := erase i (tr_requests s)\<rparr>))"

section \<open>Advancing a request\<close>

type_synonym ('a, 'cb, 'c) advance_fun =
  "RequestID \<Rightarrow> ('a, 'cb, 'c) tracker \<Rightarrow> ('a, 'cb, 'c) tracker \<times> nat result"

type_synonym ('a, 'cb, 'c) submit_fun =
  "HTTPRequest list \<Rightarrow>
   (HTTPResponse list \<Rightarrow> ('a, 'cb, 'c) tracker \<Rightarrow> ('a, 'cb, 'c) tracker \<times> unit result) \<Rightarrow>
   'c \<Rightarrow> ('a, 'cb, 'c) tracker \<Rightarrow> 'c \<times> ('a, 'cb, 'c) tracker \<times> HTTPRequestSetId result"

text \<open>What a user callback does, given the \<open>advance\<close> it may call.\<close>

type_synonym ('a, 'cb, 'c) run_fun =
  "'cb \<Rightarrow> ('a, 'cb, 'c) advance_fun \<Rightarrow> RequestID \<Rightarrow> ('a, 'cb, 'c) tracker \<Rightarrow>
   ('a, 'cb, 'c) tracker \<times> unit result"

text \<open>\<open>advance(id)\<close>.\<close>

definition advance_id :: "('a, 'cb, 'c) advance_fun \<Rightarrow> ('a, 'cb, 'c) advance_fun" where
  "advance_id adv i s = (case find_request i s of
       None \<Rightarrow> (s, Inl (Runtime_Error ''request not found''))
     | Some _ \<Rightarrow> adv i s)"

text \<open>The client's callback: keep the answers, then two transitions.\<close>

definition on_responses ::
  "('a, 'cb, 'c) advance_fun \<Rightarrow> RequestID \<Rightarrow> HTTPResponse list \<Rightarrow> ('a, 'cb, 'c) tracker \<Rightarrow>
   ('a, 'cb, 'c) tracker \<times> unit result" where
  "on_responses adv i r s =
     (case emplace i r (http_responses s) of
        (m, False) \<Rightarrow> (s, Inl Bad_Alloc)
      | (m, True) \<Rightarrow>
          (case advance_id adv i (s\<lparr>http_responses := m\<rparr>) of
             (s1, Inl e) \<Rightarrow> (s1, Inl e)
           | (s1, Inr _) \<Rightarrow>
               (case advance_id adv i s1 of
                  (s2, Inl e) \<Rightarrow> (s2, Inl e)
                | (s2, Inr _) \<Rightarrow> (s2, Inr ()))))"

definition prepare_request ::
  "('a, 'cb, 'c) submit_fun \<Rightarrow> ('a, 'cb, 'c) advance_fun \<Rightarrow> RequestID \<Rightarrow> ('a, 'cb) tracked_request \<Rightarrow>
   ('a, 'cb, 'c) tracker \<Rightarrow> ('a, 'cb, 'c) tracker \<times> bool result" where
  "prepare_request submit adv i rq s =
     (case rq_attestation rq of
        None \<Rightarrow> (s, Inl (Runtime_Error ''no attestation to verify''))
      | Some a \<Rightarrow>
          (case att_prepare a (rq_options rq) of
             Inl e \<Rightarrow> (s, Inl e)
           | Inr None \<Rightarrow> (s, Inr False)
           | Inr (Some http_requests) \<Rightarrow>
               if \<not> rq_has_client rq then (s, Inl (Undefined_Behaviour ''null http client''))
               else (case submit http_requests (on_responses adv i) (tr_client s) s of
                       (c, s1, Inl e) \<Rightarrow> (s1\<lparr>tr_client := c\<rparr>, Inl e)
                     | (c, s1, Inr k) \<Rightarrow>
                         (case find_request i s1 of
                            None \<Rightarrow> (s1\<lparr>tr_client := c\<rparr>, Inl (Undefined_Behaviour ''dangling request''))
                          | Some rq1 \<Rightarrow>
                              (put_request i (rq1\<lparr>rq_http_request_set_id := Some k\<rparr>) (s1\<lparr>tr_client := c\<rparr>),
                               Inr True)))))"

text \<open>\<open>verify(id, request)\<close>: the answers leave the map before the verification, an empty vector stands for none.\<close>

definition verify_request ::
  "RequestID \<Rightarrow> ('a, 'cb) tracked_request \<Rightarrow> ('a, 'cb, 'c) tracker \<Rightarrow>
   ('a, 'cb, 'c) tracker \<times> unit result" where
  "verify_request i rq s =
     (case rq_attestation rq of
        None \<Rightarrow> (s, Inl (Runtime_Error ''no attestation to verify''))
      | Some a \<Rightarrow>
          (let responses = (case map_find i (http_responses s) of None \<Rightarrow> [] | Some r \<Rightarrow> r);
               s = s\<lparr>http_responses := erase i (http_responses s)\<rparr>
           in case att_verify a (rq_options rq) (Some responses) of
                Inl e \<Rightarrow> (s, Inl (if is_std_exception e
                     then Runtime_Error (''attestation verification failed: '' @ what_of e) else e))
              | Inr claims \<Rightarrow> (put_request i (rq\<lparr>rq_claims := Some claims\<rparr>) s, Inr ())))"

text \<open>The \<open>try\<close> block of \<open>advance(id, req)\<close>.\<close>

definition advance_body ::
  "('a, 'cb, 'c) submit_fun \<Rightarrow> ('a, 'cb, 'c) run_fun \<Rightarrow> ('a, 'cb, 'c) advance_fun \<Rightarrow> RequestID \<Rightarrow>
   ('a, 'cb) tracked_request \<Rightarrow> ('a, 'cb, 'c) tracker \<Rightarrow> ('a, 'cb, 'c) tracker \<times> unit result" where
  "advance_body submit run adv i rq s =
     (case rq_state rq of
        ERROR \<Rightarrow> (s, Inl (Runtime_Error ''verification request failed''))
      | SUBMITTED \<Rightarrow>
          (case prepare_request submit adv i rq (set_state i WAITING_FOR_ENDORSEMENTS s) of
             (s1, Inl e) \<Rightarrow> (s1, Inl e)
           | (s1, Inr True) \<Rightarrow> (s1, Inr ())
           | (s1, Inr False) \<Rightarrow>
               (case adv i (set_state i HAVE_ENDORSEMENTS s1) of
                  (s2, Inl e) \<Rightarrow> (s2, Inl e) | (s2, Inr _) \<Rightarrow> (s2, Inr ())))
      | WAITING_FOR_ENDORSEMENTS \<Rightarrow> (set_state i HAVE_ENDORSEMENTS s, Inr ())
      | HAVE_ENDORSEMENTS \<Rightarrow>
          (case verify_request i rq s of
             (s1, Inl e) \<Rightarrow> (s1, Inl e)
           | (s1, Inr _) \<Rightarrow>
               (let s2 = set_state i FINISHED s1
                in case rq_callback rq of None \<Rightarrow> (s2, Inr ()) | Some cb \<Rightarrow> run cb adv i s2))
      | FINISHED \<Rightarrow> (s, Inr ()))"

text \<open>
  The handler and the last line of \<open>advance(id, req)\<close>: both go through the reference \<open>req\<close>, which no
  longer exists when a callback has erased the request.
\<close>

definition advance_end ::
  "RequestID \<Rightarrow> ('a, 'cb, 'c) tracker \<times> unit result \<Rightarrow> ('a, 'cb, 'c) tracker \<times> nat result" where
  "advance_end i p =
     (case p of
        (s, Inr _) \<Rightarrow> (case find_request i s of
             None \<Rightarrow> (s, Inl (Undefined_Behaviour ''dangling request''))
           | Some rq \<Rightarrow> (s, Inr (state_number (rq_state rq))))
      | (s, Inl e) \<Rightarrow>
          if is_std_exception e
          then (case find_request i s of
                  None \<Rightarrow> (s, Inl (Undefined_Behaviour ''dangling request''))
                | Some _ \<Rightarrow> (set_state i ERROR s, Inr (state_number ERROR)))
          else (s, Inl e))"

text \<open>\<open>advance(id, req)\<close>.\<close>

definition advance_step ::
  "('a, 'cb, 'c) submit_fun \<Rightarrow> ('a, 'cb, 'c) run_fun \<Rightarrow> ('a, 'cb, 'c) advance_fun \<Rightarrow>
   ('a, 'cb, 'c) advance_fun" where
  "advance_step submit run adv i s =
     (case find_request i s of
        None \<Rightarrow> (s, Inl (Undefined_Behaviour ''dangling request''))
      | Some rq \<Rightarrow> advance_end i (advance_body submit run adv i rq s))"

primrec advance :: "('a, 'cb, 'c) submit_fun \<Rightarrow> ('a, 'cb, 'c) run_fun \<Rightarrow> nat \<Rightarrow> ('a, 'cb, 'c) advance_fun" where
  "advance submit run 0 = (\<lambda>i s. (s, Inl Out_Of_Fuel))"
| "advance submit run (Suc n) = advance_step submit run (advance submit run n)"

text \<open>\<open>submit\<close>, given the \<open>advance\<close> it calls: a callback may submit a request, too.\<close>

definition submit_by ::
  "('a, 'cb, 'c) advance_fun \<Rightarrow> options \<Rightarrow> 'a attestation option \<Rightarrow> bool \<Rightarrow> 'cb option \<Rightarrow>
   ('a, 'cb, 'c) tracker \<Rightarrow> ('a, 'cb, 'c) tracker \<times> RequestID result" where
  "submit_by adv opts a has_client cb s =
     (let i = next_request_id s;
          rq = \<lparr>rq_state = SUBMITTED, rq_options = opts, rq_attestation = a, rq_claims = None,
                rq_has_client = has_client, rq_callback = cb, rq_http_request_set_id = None\<rparr>;
          (m, ok) = emplace i rq (tr_requests s);
          s1 = s\<lparr>next_request_id := (i + 1) mod size_max, tr_requests := m\<rparr>
      in if \<not> ok then (s1, Inl Bad_Alloc)
         else case adv i s1 of
                (s2, Inl e) \<Rightarrow> (s2, Inl e) | (s2, Inr _) \<Rightarrow> (s2, Inr i))"

definition submit_request ::
  "('a, 'cb, 'c) submit_fun \<Rightarrow> ('a, 'cb, 'c) run_fun \<Rightarrow> nat \<Rightarrow> options \<Rightarrow> 'a attestation option \<Rightarrow>
   bool \<Rightarrow> 'cb option \<Rightarrow> ('a, 'cb, 'c) tracker \<Rightarrow> ('a, 'cb, 'c) tracker \<times> RequestID result" where
  "submit_request submit run n = submit_by (advance submit run n)"

section \<open>The drivers of \<open>ravl_impl.h\<close>\<close>

text \<open>The callback of \<open>verify_synchronized\<close> advances the request it is told about.\<close>

definition advance_callback :: "('a, unit, 'c) run_fun" where
  "advance_callback cb adv i s =
     (case advance_id adv i s of (s', Inl e) \<Rightarrow> (s', Inl e) | (s', Inr _) \<Rightarrow> (s', Inr ()))"

text \<open>
  \<open>verify_synchronized\<close>, given the client.  Its loop sleeps until the state is one of the two it waits
  for; with a client that has delivered the answers when \<open>submit\<close> returns, nothing can change the state
  while it sleeps, so that any other state means that it never returns.
\<close>

definition verify_synchronized ::
  "('a, unit, 'c) submit_fun \<Rightarrow> (HTTPRequestSetId \<Rightarrow> 'c \<Rightarrow> 'c) \<Rightarrow> 'a attestation option \<Rightarrow> options \<Rightarrow> 'c \<Rightarrow>
   ('a, unit, 'c) tracker \<times> 'a result" where
  "verify_synchronized submit erase_set a opts client =
     (case submit_request submit advance_callback 3 opts a True (Some ()) (new_tracker client) of
        (s, Inl e) \<Rightarrow> (s, Inl e)
      | (s, Inr i) \<Rightarrow>
          (case request_state_of i s of
             ERROR \<Rightarrow> (s, Inl (Runtime_Error ''error''))
           | FINISHED \<Rightarrow> (case request_result i s of
                Inl e \<Rightarrow> (s, Inl e) | Inr r \<Rightarrow> (erase_request erase_set i s, Inr r))
           | _ \<Rightarrow> (s, Inl Out_Of_Fuel)))"

text \<open>\<open>verify_synchronous\<close>: no tracker; the callback only keeps the answers.\<close>

definition verify_synchronous ::
  "(HTTPRequest list \<Rightarrow>
     (HTTPResponse list \<Rightarrow> HTTPResponse list option \<Rightarrow> HTTPResponse list option \<times> unit result) \<Rightarrow>
     'c \<Rightarrow> HTTPResponse list option \<Rightarrow> 'c \<times> HTTPResponse list option \<times> HTTPRequestSetId result) \<Rightarrow>
   'a attestation \<Rightarrow> options \<Rightarrow> 'c \<Rightarrow> 'a result" where
  "verify_synchronous submit a opts client =
     andthen (att_prepare a opts) (\<lambda>requests. case requests of
         None \<Rightarrow> att_verify a opts None
       | Some rs \<Rightarrow>
           (case submit rs (\<lambda>r _. (Some r, Inr ())) client None of
              (_, _, Inl e) \<Rightarrow> Inl e
            | (_, received, Inr _) \<Rightarrow> att_verify a opts received))"

section \<open>Elementary facts\<close>

lemma find_put [simp]: "find_request j (put_request i rq s) = (if j = i then Some rq else find_request j s)"
  by (simp add: find_request_def put_request_def map_find_assign)

lemma find_request_frame [simp]:
  "find_request j (s\<lparr>tr_client := c\<rparr>) = find_request j s"
  "find_request j (s\<lparr>http_responses := m\<rparr>) = find_request j s"
  "find_request j (s\<lparr>next_request_id := k\<rparr>) = find_request j s"
  by (simp_all add: find_request_def)

lemma put_request_frame [simp]:
  "tr_client (put_request i rq s) = tr_client s"
  "http_responses (put_request i rq s) = http_responses s"
  "next_request_id (put_request i rq s) = next_request_id s"
  "tr_own_client (put_request i rq s) = tr_own_client s"
  by (simp_all add: put_request_def)

lemma set_state_frame [simp]:
  "tr_client (set_state i st s) = tr_client s"
  "http_responses (set_state i st s) = http_responses s"
  "next_request_id (set_state i st s) = next_request_id s"
  "tr_own_client (set_state i st s) = tr_own_client s"
  by (simp_all add: set_state_def split: option.split)

lemma find_set_state [simp]:
  "find_request j (set_state i st s) =
     (if j = i then map_option (\<lambda>rq. rq\<lparr>rq_state := st\<rparr>) (find_request i s) else find_request j s)"
  by (simp add: set_state_def split: option.split)

lemma request_state_of_Some [simp]: "find_request i s = Some rq \<Longrightarrow> request_state_of i s = rq_state rq"
  by (simp add: request_state_of_def)

lemma request_result_Inr:
  "request_result i s = Inr r \<longleftrightarrow>
     (\<exists>rq. find_request i s = Some rq \<and> rq_state rq = FINISHED \<and> rq_claims rq = Some r)"
  by (auto simp: request_result_def throw_if_def split: option.splits if_splits)

lemma set_state_Some: "find_request i s = Some rq \<Longrightarrow> set_state i st s = put_request i (rq\<lparr>rq_state := st\<rparr>) s"
  by (simp add: set_state_def)

text \<open>The handler and the return value on an entry that is still there.\<close>

lemma advance_end_simps [simp]:
  "find_request i s = Some rq \<Longrightarrow> advance_end i (s, Inr u) = (s, Inr (state_number (rq_state rq)))"
  "\<not> is_std_exception e \<Longrightarrow> advance_end i (s, Inl e) = (s, Inl e)"
  "find_request i s = Some rq \<Longrightarrow> is_std_exception e \<Longrightarrow>
     advance_end i (s, Inl e) = (put_request i (rq\<lparr>rq_state := ERROR\<rparr>) s, Inr (state_number ERROR))"
  by (simp_all add: advance_end_def set_state_Some)

text \<open>A finished request is not changed by another transition, and an error stays an error.\<close>

lemma advance_finished:
  "find_request i s = Some rq \<Longrightarrow> rq_state rq = FINISHED \<Longrightarrow>
   advance submit run (Suc n) i s = (s, Inr (state_number FINISHED))"
  by (simp add: advance_step_def advance_body_def)

lemma advance_error:
  "find_request i s = Some rq \<Longrightarrow> rq_state rq = ERROR \<Longrightarrow>
   advance submit run (Suc n) i s = (set_state i ERROR s, Inr (state_number ERROR))"
  by (simp add: advance_step_def advance_body_def set_state_Some)

lemma advance_waiting:
  "find_request i s = Some rq \<Longrightarrow> rq_state rq = WAITING_FOR_ENDORSEMENTS \<Longrightarrow>
   advance submit run (Suc n) i s =
     (set_state i HAVE_ENDORSEMENTS s, Inr (state_number HAVE_ENDORSEMENTS))"
  by (simp add: advance_step_def advance_body_def set_state_Some)

section \<open>What the transitions amount to\<close>

lemma put_put [simp]: "put_request i r (put_request i q s) = put_request i r s"
  by (simp add: put_request_def)

lemma put_request_id:
  fixes s :: "('a, 'cb, 'c) tracker"
  assumes "find_request i s = Some rq" and "rq_state rq = st"
  shows "put_request i (rq\<lparr>rq_state := st\<rparr>) s = s"
proof -
  have "assign i rq m = m" if "map_find i m = Some rq" for m :: "(nat, ('a, 'cb) tracked_request) std_map"
    using that by (induction m) (auto split: if_splits)
  from this[of "tr_requests s"] assms(1) have "put_request i rq s = s" by (simp add: put_request_def find_request_def)
  moreover have "rq\<lparr>rq_state := st\<rparr> = rq" using assms(2) by (cases rq) simp
  ultimately show ?thesis by simp
qed

lemma put_request_responses:
  "put_request i r (s\<lparr>http_responses := m\<rparr>) = (put_request i r s)\<lparr>http_responses := m\<rparr>"
  by (simp add: put_request_def)

lemma put_request_same: "(put_request i r s)\<lparr>http_responses := http_responses s\<rparr> = put_request i r s"
  by (simp add: put_request_def)

lemma erase_snoc: "map_find i m = None \<Longrightarrow> erase i (m @ [(i, v)]) = m"
  by (induction m) (auto simp: erase_def split: if_splits)

lemma erase_absent: "map_find i m = None \<Longrightarrow> erase i m = m"
  by (induction m) (auto simp: erase_def split: if_splits)

text \<open>
  The reference for the verification of request \<open>i\<close> on given answers: the entry it leaves, and the
  exception that escapes when it is no \<open>std::exception\<close>.
\<close>

definition settle ::
  "RequestID \<Rightarrow> ('a, 'cb) tracked_request \<Rightarrow> 'a attestation \<Rightarrow> HTTPResponse list \<Rightarrow> ('a, 'cb, 'c) tracker \<Rightarrow>
   ('a, 'cb, 'c) tracker \<times> nat result" where
  "settle i rq a out s = (case att_verify a (rq_options rq) (Some out) of
       Inr cl \<Rightarrow> (put_request i (rq\<lparr>rq_state := FINISHED, rq_claims := Some cl\<rparr>) s, Inr (state_number FINISHED))
     | Inl e \<Rightarrow> if is_std_exception e
               then (put_request i (rq\<lparr>rq_state := ERROR\<rparr>) s, Inr (state_number ERROR))
               else (put_request i (rq\<lparr>rq_state := HAVE_ENDORSEMENTS\<rparr>) s, Inl e))"

text \<open>The user's callbacks: one that can only advance a request has no effect where that has none.\<close>

locale tracker_callbacks =
  fixes run :: "('a, 'cb, 'c) run_fun"
  assumes run_neutral: "find_request i s = Some rq \<Longrightarrow> adv i s = (s, Inr v) \<Longrightarrow> run cb adv i s = (s, Inr ())"
begin

lemma advance_have:
  assumes "find_request i s = Some rq" and "rq_state rq = HAVE_ENDORSEMENTS"
    and "rq_attestation rq = Some a"
    and "out = (case map_find i (http_responses s) of None \<Rightarrow> [] | Some r \<Rightarrow> r)"
  shows "advance submit run (Suc (Suc n)) i s =
     settle i rq a out (s\<lparr>http_responses := erase i (http_responses s)\<rparr>)"
proof -
  let ?s = "s\<lparr>http_responses := erase i (http_responses s)\<rparr>"
  show ?thesis
  proof (cases "att_verify a (rq_options rq) (Some out)")
    case (Inl e)
    have "put_request i (rq\<lparr>rq_state := HAVE_ENDORSEMENTS\<rparr>) ?s = ?s"
      by (rule put_request_id) (simp_all add: assms)
    with Inl show ?thesis
      using assms
      by (auto simp: advance_step_def advance_body_def verify_request_def settle_def Let_def set_state_Some)
  next
    case (Inr cl)
    let ?rq = "rq\<lparr>rq_state := FINISHED, rq_claims := Some cl\<rparr>"
    let ?t = "put_request i ?rq ?s"
    have f: "find_request i ?t = Some ?rq" by simp
    have "run cb (advance submit run (Suc n)) i ?t = (?t, Inr ())" for cb
      by (rule run_neutral[OF f]) (rule advance_finished[OF f], simp)
    moreover have "set_state i FINISHED (put_request i (rq\<lparr>rq_claims := Some cl\<rparr>) ?s) = ?t"
    proof -
      have u: "rq\<lparr>rq_claims := Some cl, rq_state := FINISHED\<rparr> = ?rq" by (cases rq) simp
      have "find_request i (put_request i (rq\<lparr>rq_claims := Some cl\<rparr>) ?s) = Some (rq\<lparr>rq_claims := Some cl\<rparr>)"
        by simp
      from set_state_Some[OF this, of FINISHED] show ?thesis unfolding put_put u .
    qed
    ultimately show ?thesis using assms Inr f
      by (simp add: advance_step_def advance_body_def verify_request_def settle_def Let_def
          request_state_of_def del: find_put split: option.split)
  qed
qed

text \<open>The delivery of the answers to a request that is waiting.\<close>

lemma on_responses_waiting:
  assumes "find_request i s = Some rq" and "rq_state rq = WAITING_FOR_ENDORSEMENTS"
    and "rq_attestation rq = Some a" and "map_find i (http_responses s) = None"
  shows "on_responses (advance submit run (Suc (Suc n))) i out s =
     (case settle i rq a out s of (s', Inl e) \<Rightarrow> (s', Inl e) | (s', Inr _) \<Rightarrow> (s', Inr ()))"
proof -
  let ?m = "http_responses s @ [(i, out)]"
  let ?s0 = "s\<lparr>http_responses := ?m\<rparr>"
  let ?rq = "rq\<lparr>rq_state := HAVE_ENDORSEMENTS\<rparr>"
  have f0: "find_request i ?s0 = Some rq" using assms(1) by simp
  have e: "emplace i out (http_responses s) = (?m, True)" using assms(4) by (simp add: emplace_def)
  let ?s1 = "put_request i ?rq ?s0"
  have a1: "advance submit run (Suc (Suc n)) i ?s0 = (?s1, Inr (state_number HAVE_ENDORSEMENTS))"
    using advance_waiting[OF f0 assms(2), of submit run "Suc n"] set_state_Some[OF f0] by simp
  have f1: "find_request i ?s1 = Some ?rq" by simp
  have m1: "out = (case map_find i (http_responses ?s1) of None \<Rightarrow> [] | Some r \<Rightarrow> r)"
    using assms(4) by (simp add: map_find_snoc)
  have h: "?s1\<lparr>http_responses := erase i (http_responses ?s1)\<rparr> = put_request i ?rq s"
    using erase_snoc[OF assms(4), of out] by (simp add: put_request_responses put_request_def)
  have a2: "advance submit run (Suc (Suc n)) i ?s1 = settle i ?rq a out (put_request i ?rq s)"
    using advance_have[OF f1 _ _ m1, of a submit n] assms(3) h by simp
  have "settle i ?rq a out (put_request i ?rq s) = settle i rq a out s"
    by (auto simp: settle_def split: sum.split)
  with e a1 a2 f0 f1 show ?thesis
    by (simp add: on_responses_def advance_id_def del: advance.simps find_put split: prod.split sum.split)
qed

end

text \<open>The tracker together with a client that has answered when \<open>submit\<close> returns.\<close>

locale tracker_env = http_client submit answers client_ok + tracker_callbacks run
  for submit :: "('a, 'cb, 'c) submit_fun" and answers and client_ok :: "'c \<Rightarrow> bool"
    and run :: "('a, 'cb, 'c) run_fun"

section \<open>Submitting a request to a client that answers\<close>

definition new_request :: "options \<Rightarrow> 'a attestation \<Rightarrow> 'cb option \<Rightarrow> ('a, 'cb) tracked_request" where
  "new_request opts a cb = \<lparr>rq_state = SUBMITTED, rq_options = opts, rq_attestation = Some a,
     rq_claims = None, rq_has_client = True, rq_callback = cb, rq_http_request_set_id = None\<rparr>"

definition fresh_id :: "('a, 'cb, 'c) tracker \<Rightarrow> bool" where
  "fresh_id s \<longleftrightarrow> map_find (next_request_id s) (tr_requests s) = None
     \<and> map_find (next_request_id s) (http_responses s) = None"

text \<open>The tracker right before the first transition of the new request.\<close>

definition enqueue :: "('a, 'cb) tracked_request \<Rightarrow> ('a, 'cb, 'c) tracker \<Rightarrow> ('a, 'cb, 'c) tracker" where
  "enqueue rq s = s\<lparr>next_request_id := (next_request_id s + 1) mod size_max,
     tr_requests := tr_requests s @ [(next_request_id s, rq)]\<rparr>"

lemma enqueue_simps:
  "fresh_id s \<Longrightarrow> find_request (next_request_id s) (enqueue rq s) = Some rq"
  "j \<noteq> next_request_id s \<Longrightarrow> find_request j (enqueue rq s) = find_request j s"
  "http_responses (enqueue rq s) = http_responses s"
  "tr_client (enqueue rq s) = tr_client s"
  "tr_own_client (enqueue rq s) = tr_own_client s"
  by (auto simp: enqueue_def find_request_def fresh_id_def map_find_snoc split: option.split)

lemma submit_request_fresh:
  assumes "fresh_id s"
  shows "submit_request submit run n opts (Some a) True cb s =
     (case advance submit run n (next_request_id s) (enqueue (new_request opts a cb) s) of
        (s2, Inl e) \<Rightarrow> (s2, Inl e) | (s2, Inr _) \<Rightarrow> (s2, Inr (next_request_id s)))"
  using assms by (simp add: submit_request_def submit_by_def emplace_def fresh_id_def enqueue_def new_request_def Let_def)

text \<open>The first transition of a new request.\<close>

lemma advance_submitted:
  assumes "find_request i s = Some rq" and "rq_state rq = SUBMITTED" and "rq_attestation rq = Some a"
    and "rq_has_client rq"
  defines "s1 \<equiv> put_request i (rq\<lparr>rq_state := WAITING_FOR_ENDORSEMENTS\<rparr>) s"
  shows "advance_body submit run adv i rq s =
     (case att_prepare a (rq_options rq) of
        Inl e \<Rightarrow> (s1, Inl e)
      | Inr None \<Rightarrow> (case adv i (put_request i (rq\<lparr>rq_state := HAVE_ENDORSEMENTS\<rparr>) s) of
            (s2, Inl e) \<Rightarrow> (s2, Inl e) | (s2, Inr _) \<Rightarrow> (s2, Inr ()))
      | Inr (Some rs) \<Rightarrow> (case submit rs (on_responses adv i) (tr_client s) s1 of
            (c, s2, Inl e) \<Rightarrow> (s2\<lparr>tr_client := c\<rparr>, Inl e)
          | (c, s2, Inr k) \<Rightarrow> (case find_request i s2 of
                None \<Rightarrow> (s2\<lparr>tr_client := c\<rparr>, Inl (Undefined_Behaviour ''dangling request''))
              | Some q \<Rightarrow> (put_request i (q\<lparr>rq_http_request_set_id := Some k\<rparr>) (s2\<lparr>tr_client := c\<rparr>), Inr ()))))"
  using assms(2-4) set_state_Some[OF assms(1)] set_state_Some[of i s1 "rq\<lparr>rq_state := WAITING_FOR_ENDORSEMENTS\<rparr>"]
  unfolding s1_def
  by (auto simp: advance_body_def prepare_request_def split: sum.splits option.splits prod.splits)

lemma advance_Suc:
  "find_request i s = Some rq \<Longrightarrow> advance submit run (Suc n) i s =
     advance_end i (advance_body submit run (advance submit run n) i rq s)"
  by (simp add: advance_step_def)

declare advance.simps [simp del]

definition obtained ::
  "(HTTPRequest \<Rightarrow> HTTPResponse \<Rightarrow> bool) \<Rightarrow> 'a attestation \<Rightarrow> options \<Rightarrow> 'a \<Rightarrow> bool" where
  "obtained answers a opts cl \<longleftrightarrow>
     (att_prepare a opts = Inr None \<and> att_verify a opts (Some []) = Inr cl)
     \<or> (\<exists>rs out. att_prepare a opts = Inr (Some rs) \<and> list_all2 answers rs out
          \<and> att_verify a opts (Some out) = Inr cl)"

definition of_attestation :: "'a attestation \<Rightarrow> options \<Rightarrow> ('a, 'cb) tracked_request \<Rightarrow> bool" where
  "of_attestation a opts rq \<longleftrightarrow> rq_options rq = opts \<and> rq_attestation rq = Some a"

definition settled ::
  "(HTTPRequest \<Rightarrow> HTTPResponse \<Rightarrow> bool) \<Rightarrow> 'a attestation \<Rightarrow> options \<Rightarrow> ('a, 'cb) tracked_request \<Rightarrow> bool" where
  "settled answers a opts rq \<longleftrightarrow> of_attestation a opts rq
     \<and> (rq_state rq = ERROR
        \<or> rq_state rq = FINISHED \<and> (\<exists>cl. rq_claims rq = Some cl \<and> obtained answers a opts cl))"

lemma settle_Inr:
  assumes "settle i rq a out s = (s', Inr v)"
  shows "\<exists>q. find_request i s' = Some q \<and> tr_client s' = tr_client s
     \<and> rq_options q = rq_options rq \<and> rq_attestation q = rq_attestation rq
     \<and> (rq_state q = ERROR \<or> rq_state q = FINISHED
          \<and> (\<exists>cl. rq_claims q = Some cl \<and> att_verify a (rq_options rq) (Some out) = Inr cl))"
  using assms by (auto simp: settle_def split: sum.splits if_splits)

lemma settle_Inl:
  assumes "settle i rq a out s = (s', Inl e)"
  shows "\<not> is_std_exception e \<and> tr_client s' = tr_client s"
  using assms by (auto simp: settle_def split: sum.splits if_splits)

lemma of_attestation_state [simp]:
  "of_attestation a opts (rq\<lparr>rq_state := st\<rparr>) = of_attestation a opts rq"
  "of_attestation a opts (rq\<lparr>rq_http_request_set_id := k\<rparr>) = of_attestation a opts rq"
  by (simp_all add: of_attestation_def)

lemma settled_set_id [simp]:
  "settled answers a opts (rq\<lparr>rq_http_request_set_id := k\<rparr>) = settled answers a opts rq"
  by (simp add: settled_def)

context tracker_env
begin

text \<open>What the body of the first transition leaves, when the request is new.\<close>

lemma first_transition:
  assumes "client_ok (tr_client s)" and "find_request i s = Some rq" and "rq_state rq = SUBMITTED"
    and "of_attestation a opts rq" and "rq_has_client rq" and "map_find i (http_responses s) = None"
    and b: "advance_body submit run (advance submit run (Suc (Suc n))) i rq s = (t, r)"
  shows "client_ok (tr_client t)
     \<and> (\<forall>u. r = Inr u \<longrightarrow> (\<exists>q. find_request i t = Some q \<and> settled answers a opts q))
     \<and> (\<forall>e. r = Inl e \<and> is_std_exception e \<longrightarrow> (\<exists>q. find_request i t = Some q \<and> of_attestation a opts q))"
proof -
  let ?w = "rq\<lparr>rq_state := WAITING_FOR_ENDORSEMENTS\<rparr>"
  let ?h = "rq\<lparr>rq_state := HAVE_ENDORSEMENTS\<rparr>"
  have a: "rq_attestation rq = Some a" "rq_options rq = opts" using assms(4) by (simp_all add: of_attestation_def)
  note B = b[unfolded advance_submitted[OF assms(2,3) a(1) assms(5)]]
  show ?thesis
  proof (cases "att_prepare a opts")
    case (Inl e)
    with B a assms(1,4) show ?thesis by auto
  next
    case prep: (Inr p)
    show ?thesis
    proof (cases p)
      case None
      have adv: "advance submit run (Suc (Suc n)) i (put_request i ?h s) = settle i ?h a [] (put_request i ?h s)"
        using advance_have[of i "put_request i ?h s" ?h a "[]" submit n] a assms(6) erase_absent[OF assms(6)]
        by (simp add: put_request_same)
      obtain t' v where t': "settle i ?h a [] (put_request i ?h s) = (t', v)" by force
      show ?thesis
      proof (cases v)
        case (Inl e)
        with t' settle_Inl[of i ?h a "[]"] B adv prep None a assms(1) show ?thesis by auto
      next
        case (Inr x)
        from settle_Inr[OF t'[unfolded Inr]] Inr t' B adv prep None a assms(1) show ?thesis
          by (auto simp: settled_def of_attestation_def obtained_def)
      qed
    next
      case (Some rs)
      let ?cb = "on_responses (advance submit run (Suc (Suc n))) i"
      let ?s1 = "put_request i ?w s"
      obtain c t2 v where sub: "submit rs ?cb (tr_client s) ?s1 = (c, t2, v)" by (cases "submit rs ?cb (tr_client s) ?s1")
      have ok: "client_ok c" by (rule submit_ok[OF assms(1) sub])
      have cb: "?cb out ?s1 = (case settle i ?w a out ?s1 of (s', Inl e) \<Rightarrow> (s', Inl e) | (s', Inr _) \<Rightarrow> (s', Inr ()))" for out
        by (rule on_responses_waiting) (simp_all add: a assms(6))
      have cb_Inl: "\<not> is_std_exception e" if "?cb out ?s1 = (t', Inl e)" for out t' e
        using that settle_Inl[of i ?w a out ?s1 t' e] unfolding cb
        by (cases "settle i ?w a out ?s1") (auto split: sum.splits)
      have cb_Inr: "\<exists>x. settle i ?w a out ?s1 = (t', Inr x)" if "?cb out ?s1 = (t', Inr u)" for out t' u
        using that unfolding cb by (cases "settle i ?w a out ?s1") (auto split: sum.splits)
      show ?thesis
      proof (cases v)
        case (Inl e)
        have t: "t = t2\<lparr>tr_client := c\<rparr>" "r = Inl e" using B a prep Some sub Inl by auto
        from submit_Inl[OF assms(1) sub[unfolded Inl]] have "t2 = ?s1 \<or> \<not> is_std_exception e"
          using cb_Inl by blast
        with t ok assms(4) show ?thesis by auto
      next
        case (Inr k)
        from submit_Inr[OF assms(1) sub[unfolded Inr]] obtain out x where
          o: "list_all2 answers rs out" "settle i ?w a out ?s1 = (t2, Inr x)"
          using cb_Inr by blast
        from settle_Inr[OF o(2)] obtain q where q: "find_request i t2 = Some q"
          "settled answers a opts q"
          using o(1) a prep Some by (auto simp: settled_def of_attestation_def obtained_def)
        have "t = put_request i (q\<lparr>rq_http_request_set_id := Some k\<rparr>) (t2\<lparr>tr_client := c\<rparr>)" "r = Inr ()"
          using B a prep Some sub Inr q(1) by auto
        with ok q(2) show ?thesis by simp
      qed
    qed
  qed
qed

lemma submit_request_settles:
  assumes "client_ok (tr_client s)" and "fresh_id s"
    and "submit_request submit run (Suc (Suc (Suc n))) opts (Some a) True cb s = (s', r)"
  shows "client_ok (tr_client s')
     \<and> (\<forall>e. r = Inl e \<longrightarrow> \<not> is_std_exception e)
     \<and> (\<forall>j. r = Inr j \<longrightarrow> j = next_request_id s
          \<and> (\<exists>q. find_request j s' = Some q \<and> settled answers a opts q))"
proof -
  let ?i = "next_request_id s"
  let ?rq = "new_request opts a cb :: ('a, 'cb) tracked_request"
  let ?s = "enqueue ?rq s"
  have f: "find_request ?i ?s = Some ?rq" by (rule enqueue_simps(1)[OF assms(2)])
  obtain t r0 where b: "advance_body submit run (advance submit run (Suc (Suc n))) ?i ?rq ?s = (t, r0)" by force
  have m: "map_find ?i (http_responses ?s) = None" using assms(2) by (simp add: enqueue_simps fresh_id_def)
  have "of_attestation a opts ?rq" "rq_state ?rq = SUBMITTED" "rq_has_client ?rq"
    by (simp_all add: of_attestation_def new_request_def)
  note T = first_transition[OF _ f this(2,1,3) m b] 
  have c: "client_ok (tr_client ?s)" using assms(1) by (simp add: enqueue_simps)
  note res = assms(3)[unfolded submit_request_fresh[OF assms(2)] advance_Suc[OF f] b]
  show ?thesis
  proof (cases r0)
    case (Inl e)
    with T[OF c] res show ?thesis
      by (cases "is_std_exception e") (auto simp: settled_def)
  next
    case (Inr u)
    with T[OF c] res show ?thesis by auto
  qed
qed

end

section \<open>The synchronous client\<close>

interpretation callbacks: tracker_callbacks advance_callback
  by unfold_locales (simp add: advance_callback_def advance_id_def)

interpretation sync_env: tracker_env "sync_submit exec" "sync_answers exec" sync_ok advance_callback for exec
  by unfold_locales

text \<open>The verification of an attestation over a client that fetches, as a function.\<close>

definition verify_fetched ::
  "(HTTPRequest \<Rightarrow> HTTPResponse result) \<Rightarrow> 'a attestation \<Rightarrow> options \<Rightarrow> HTTPResponse list option \<Rightarrow> 'a result" where
  "verify_fetched exec a opts none = andthen (att_prepare a opts) (\<lambda>requests. case requests of
       None \<Rightarrow> att_verify a opts none
     | Some rs \<Rightarrow> andthen (fetch_all exec rs) (\<lambda>out. att_verify a opts (Some out)))"

lemma verify_synchronous_fetched:
  assumes "sync_ok c"
  shows "verify_synchronous (sync_submit exec) a opts c = verify_fetched exec a opts None"
proof -
  have "(case sync_submit exec rs (\<lambda>r _. (Some r, Inr ())) c None of
              (_, _, Inl e) \<Rightarrow> Inl e | (_, received, Inr _) \<Rightarrow> att_verify a opts received)
     = andthen (fetch_all exec rs) (\<lambda>out. att_verify a opts (Some out))" for rs
    using sync_submit_fetch[OF assms, of exec rs "\<lambda>r _. (Some r, Inr ())" None]
    by (cases "sync_submit exec rs (\<lambda>r _. (Some r, Inr ())) c None") (auto split: sum.splits)
  then show ?thesis
    by (auto simp: verify_synchronous_def verify_fetched_def intro!: andthen_cong split: option.splits)
qed

text \<open>How the fate of request \<open>i\<close> reports the result of a verification.\<close>

definition reports :: "RequestID \<Rightarrow> 'a result \<Rightarrow> ('a, 'cb, 'c) tracker \<Rightarrow> RequestID result \<Rightarrow> bool" where
  "reports i R s r \<longleftrightarrow> (case R of
       Inr cl \<Rightarrow> r = Inr i \<and> (\<exists>q. find_request i s = Some q \<and> rq_state q = FINISHED \<and> rq_claims q = Some cl)
     | Inl e \<Rightarrow> (if is_std_exception e
           then r = Inr i \<and> (\<exists>q. find_request i s = Some q \<and> rq_state q = ERROR) else r = Inl e))"

lemma reports_settle:
  assumes "settle i rq a out s = (t, v)"
  shows "reports i (att_verify a (rq_options rq) (Some out)) t (andthen v (\<lambda>_. Inr i))"
  using assms by (auto simp: settle_def reports_def split: sum.splits if_splits)

lemma sync_submit_request_reports:
  assumes ok: "sync_ok (tr_client s)" and fresh: "fresh_id s"
    and "submit_request (sync_submit exec) advance_callback (Suc (Suc (Suc n))) opts (Some a) True cb s = (s', r)"
  shows "reports (next_request_id s) (verify_fetched exec a opts (Some [])) s' r"
proof -
  let ?i = "next_request_id s"
  let ?rq = "new_request opts a cb :: ('a, unit) tracked_request"
  let ?s = "enqueue ?rq s"
  let ?adv = "advance (sync_submit exec) advance_callback (Suc (Suc n))"
  let ?R = "verify_fetched exec a opts (Some [])"
  have f: "find_request ?i ?s = Some ?rq" by (rule enqueue_simps(1)[OF fresh])
  have rq: "rq_state ?rq = SUBMITTED" "rq_attestation ?rq = Some a" "rq_has_client ?rq" "rq_options ?rq = opts"
    by (simp_all add: new_request_def)
  have m: "map_find ?i (http_responses ?s) = None" using fresh by (simp add: enqueue_simps fresh_id_def)
  obtain t u where b: "advance_body (sync_submit exec) advance_callback ?adv ?i ?rq ?s = (t, u)" by force
  have "reports ?i ?R t (andthen u (\<lambda>_. Inr ?i))
     \<or> (\<exists>e q. ?R = Inl e \<and> u = Inl e \<and> find_request ?i t = Some q)"
  proof (cases "att_prepare a opts")
    case (Inl e)
    then show ?thesis using b[unfolded advance_submitted[OF f rq(1-3)]] rq(4)
      by (auto simp: verify_fetched_def)
  next
    case prep: (Inr p)
    show ?thesis
    proof (cases p)
      case None
      let ?h = "?rq\<lparr>rq_state := HAVE_ENDORSEMENTS\<rparr>"
      have adv: "?adv ?i (put_request ?i ?h ?s) = settle ?i ?h a [] (put_request ?i ?h ?s)"
        using callbacks.advance_have[of ?i "put_request ?i ?h ?s" ?h a "[]" "sync_submit exec" n] m rq erase_absent[OF m]
        by (simp add: put_request_same)
      obtain t' v where t': "settle ?i ?h a [] (put_request ?i ?h ?s) = (t', v)" by force
      then have "t = t' \<and> andthen u (\<lambda>_. Inr ?i) = andthen v (\<lambda>_. Inr ?i)"
        using b[unfolded advance_submitted[OF f rq(1-3)]] prep None rq(4) adv by (cases v) auto
      with reports_settle[OF t'] prep None rq(4) show ?thesis by (simp add: verify_fetched_def)
    next
      case (Some rs)
      let ?w = "?rq\<lparr>rq_state := WAITING_FOR_ENDORSEMENTS\<rparr>"
      let ?s1 = "put_request ?i ?w ?s"
      let ?cb = "on_responses ?adv ?i"
      obtain c t2 v where sub: "sync_submit exec rs ?cb (tr_client ?s) ?s1 = (c, t2, v)"
        by (cases "sync_submit exec rs ?cb (tr_client ?s) ?s1")
      have sub': "(t2, v) = (case fetch_all exec rs of Inl e \<Rightarrow> (?s1, Inl e)
         | Inr out \<Rightarrow> (case ?cb out ?s1 of (s', Inl e) \<Rightarrow> (s', Inl e)
             | (s', Inr _) \<Rightarrow> (s', Inr (length (request_sets (tr_client ?s))))))"
        using sync_submit_fetch[of "tr_client ?s" exec rs ?cb ?s1] ok sub by (simp add: enqueue_simps)
      have B: "(t, u) = (case v of Inl e \<Rightarrow> (t2\<lparr>tr_client := c\<rparr>, Inl e)
          | Inr k \<Rightarrow> (case find_request ?i t2 of
                None \<Rightarrow> (t2\<lparr>tr_client := c\<rparr>, Inl (Undefined_Behaviour ''dangling request''))
              | Some q \<Rightarrow> (put_request ?i (q\<lparr>rq_http_request_set_id := Some k\<rparr>) (t2\<lparr>tr_client := c\<rparr>), Inr ())))"
        using b[unfolded advance_submitted[OF f rq(1-3)]] prep Some rq(4) sub by simp
      show ?thesis
      proof (cases "fetch_all exec rs")
        case (Inl e)
        with sub' B prep Some show ?thesis by (auto simp: verify_fetched_def)
      next
        case (Inr out)
        obtain t3 x where x: "settle ?i ?w a out ?s1 = (t3, x)" by force
        have "?cb out ?s1 = (case settle ?i ?w a out ?s1 of (s', Inl e) \<Rightarrow> (s', Inl e) | (s', Inr _) \<Rightarrow> (s', Inr ()))"
          by (rule callbacks.on_responses_waiting) (use rq m in simp_all)
        with sub' Inr x have tv: "t2 = t3 \<and> andthen v (\<lambda>_. Inr ?i) = andthen x (\<lambda>_. Inr ?i)"
          by (cases x) auto
        have R: "?R = att_verify a opts (Some out)" using prep Some Inr by (simp add: verify_fetched_def)
        from reports_settle[OF x] rq(4) tv R have rep: "reports ?i ?R t2 (andthen v (\<lambda>_. Inr ?i))" by simp
        show ?thesis
        proof (cases v)
          case (Inl e)
          with B rep show ?thesis by (auto simp: reports_def split: sum.splits if_splits)
        next
          case (Inr k)
          with B rep show ?thesis by (auto simp: reports_def split: sum.splits if_splits)
        qed
      qed
    qed
  qed
  moreover note assms(3)[unfolded submit_request_fresh[OF fresh] advance_Suc[OF f] b]
  ultimately show ?thesis
    by (cases u) (auto simp: reports_def split: sum.splits if_splits)
qed

theorem synchronized_fetched:
  assumes "sync_ok c"
  shows "snd (verify_synchronized (sync_submit exec) erase_set (Some a) opts c) =
     (case verify_fetched exec a opts (Some []) of
        Inr cl \<Rightarrow> Inr cl | Inl e \<Rightarrow> Inl (if is_std_exception e then Runtime_Error ''error'' else e))"
proof -
  let ?s = "new_tracker c :: ('a, unit, sync_client) tracker"
  obtain s' r where sub: "submit_request (sync_submit exec) advance_callback 3 opts (Some a) True (Some ()) ?s = (s', r)"
    by force
  have "fresh_id ?s" "sync_ok (tr_client ?s)" "next_request_id ?s = 0"
    using assms by (simp_all add: fresh_id_def new_tracker_def)
  with sync_submit_request_reports[of ?s exec 0 opts a "Some ()" s' r] sub
  have "reports 0 (verify_fetched exec a opts (Some [])) s' r" by (simp add: numeral_3_eq_3)
  then show ?thesis
    by (auto simp: verify_synchronized_def sub reports_def request_result_def split: sum.splits if_splits)
qed

end
