(* ===== verification/Attestation.thy ===== *)
theory Attestation
  imports OpenEnclave Uvm Tracker Sgx
begin

text \<open>
  \<open>attestation.h\<close> and \<open>attestation.cpp\<close>: the sources, the attestation and claims classes with their
  virtual functions, and their JSON and CBOR forms.
\<close>

section \<open>Sources\<close>

datatype attestation_source = SRC_SGX | SRC_SEV_SNP | SRC_OPEN_ENCLAVE | SRC_ACI | SRC_UNKNOWN

text \<open>
  \<open>NLOHMANN_JSON_SERIALIZE_ENUM\<close>: a value or a name that is not in the table stands for the first pair.
\<close>

definition source_names :: "(attestation_source \<times> json) list" where
  "source_names = [(SRC_SGX, J_String ''sgx''), (SRC_SEV_SNP, J_String ''sevsnp''),
     (SRC_OPEN_ENCLAVE, J_String ''openenclave''), (SRC_ACI, J_String ''aci'')]"

fun enum_lookup :: "('a \<times> 'b) list \<Rightarrow> 'a \<Rightarrow> 'b option" where
  "enum_lookup [] k = None"
| "enum_lookup ((x, y) # ps) k = (if x = k then Some y else enum_lookup ps k)"

definition source_to_json :: "attestation_source \<Rightarrow> json" where
  "source_to_json s = (case enum_lookup source_names s of Some j \<Rightarrow> j | None \<Rightarrow> snd (hd source_names))"

definition source_from_json :: "json \<Rightarrow> attestation_source" where
  "source_from_json j = (case enum_lookup (map (\<lambda>(s, n). (n, s)) source_names) j of
       Some s \<Rightarrow> s | None \<Rightarrow> fst (hd source_names))"

section \<open>Attestations and claims\<close>

text \<open>One constructor per class; \<open>Claims\<close> of an ACI attestation are those of its SEV-SNP report.\<close>

datatype any_attestation =
    Sgx_Attestation bytes bytes
  | Snp_Attestation bytes bytes
  | Oe_Attestation bytes bytes
  | Aci_Attestation bytes bytes bytes

fun attestation_source_of :: "any_attestation \<Rightarrow> attestation_source" where
  "attestation_source_of (Sgx_Attestation _ _) = SRC_SGX"
| "attestation_source_of (Snp_Attestation _ _) = SRC_SEV_SNP"
| "attestation_source_of (Oe_Attestation _ _) = SRC_OPEN_ENCLAVE"
| "attestation_source_of (Aci_Attestation _ _ _) = SRC_ACI"

fun attestation_evidence :: "any_attestation \<Rightarrow> bytes" where
  "attestation_evidence (Sgx_Attestation ev _) = ev"
| "attestation_evidence (Snp_Attestation ev _) = ev"
| "attestation_evidence (Oe_Attestation ev _) = ev"
| "attestation_evidence (Aci_Attestation ev _ _) = ev"

fun attestation_endorsements :: "any_attestation \<Rightarrow> bytes" where
  "attestation_endorsements (Sgx_Attestation _ en) = en"
| "attestation_endorsements (Snp_Attestation _ en) = en"
| "attestation_endorsements (Oe_Attestation _ en) = en"
| "attestation_endorsements (Aci_Attestation _ en _) = en"

datatype any_claims = Sgx_Claims sgx_claims | Snp_Claims snp_claims | Oe_Claims oe_claims

fun claims_source :: "any_claims \<Rightarrow> attestation_source" where
  "claims_source (Sgx_Claims _) = SRC_SGX"
| "claims_source (Snp_Claims _) = SRC_SEV_SNP"
| "claims_source (Oe_Claims _) = SRC_OPEN_ENCLAVE"

text \<open>\<open>Claims::get\<close>; \<open>None\<close> is the null pointer.\<close>

definition get_sgx_claims :: "any_claims option \<Rightarrow> sgx_claims result" where
  "get_sgx_claims c = (case c of Some (Sgx_Claims x) \<Rightarrow> Inr x
     | _ \<Rightarrow> Inl (Runtime_Error ''invalid request for SGX claims conversion''))"

definition get_snp_claims :: "any_claims option \<Rightarrow> snp_claims result" where
  "get_snp_claims c = (case c of Some (Snp_Claims x) \<Rightarrow> Inr x
     | _ \<Rightarrow> Inl (Runtime_Error ''invalid request for SEV/SNP claims conversion''))"

definition get_oe_claims :: "any_claims option \<Rightarrow> oe_claims result" where
  "get_oe_claims c = (case c of Some (Oe_Claims x) \<Rightarrow> Inr x
     | _ \<Rightarrow> Inl (Runtime_Error ''invalid request for Open Enclave claims conversion''))"

section \<open>The JSON form\<close>

definition json_bytes :: "'h openssl \<Rightarrow> bool \<Rightarrow> bytes \<Rightarrow> json" where
  "json_bytes ssl base64 v = (if base64 then J_String (to_base64 ssl v) else json_of_bytes v)"

definition attestation_json :: "'h openssl \<Rightarrow> any_attestation \<Rightarrow> bool \<Rightarrow> json" where
  "attestation_json ssl a base64 =
     (let m = assign ''source'' (source_to_json (attestation_source_of a)) [];
          m = assign ''evidence'' (json_bytes ssl base64 (attestation_evidence a)) m
      in J_Object (if attestation_endorsements a \<noteq> []
           then assign ''endorsements'' (json_bytes ssl base64 (attestation_endorsements a)) m else m))"

definition json_get_data :: "'h openssl \<Rightarrow> bool \<Rightarrow> json \<Rightarrow> string \<Rightarrow> bytes result" where
  "json_get_data ssl base64 j k =
     andthen (json_at j k) (\<lambda>v.
       if base64 then andthen (json_get_string v) (from_base64 ssl) else json_get_bytes v)"

definition json_get_optional_data :: "'h openssl \<Rightarrow> bool \<Rightarrow> json \<Rightarrow> string \<Rightarrow> bytes result" where
  "json_get_optional_data ssl base64 j k =
     (if json_contains j k then json_get_data ssl base64 j k else Inr [])"

fun make_attestation :: "attestation_source \<Rightarrow> bytes \<Rightarrow> bytes \<Rightarrow> bytes \<Rightarrow> any_attestation result" where
  "make_attestation SRC_SGX ev en uvm = Inr (Sgx_Attestation ev en)"
| "make_attestation SRC_SEV_SNP ev en uvm = Inr (Snp_Attestation ev en)"
| "make_attestation SRC_OPEN_ENCLAVE ev en uvm = Inr (Oe_Attestation ev en)"
| "make_attestation SRC_ACI ev en uvm = Inr (Aci_Attestation ev en uvm)"
| "make_attestation SRC_UNKNOWN ev en uvm =
     Inl (Runtime_Error (''unsupported attestation source '' @ [CHR 0x27] @ ''255'' @ [CHR 0x27]))"

definition parse_attestation_value :: "'h openssl \<Rightarrow> json \<Rightarrow> bool \<Rightarrow> any_attestation result" where
  "parse_attestation_value ssl j base64 =
     rethrow_as (\<lambda>what. Runtime_Error (''attestation parsing failed: '' @ what)) Unknown_Exception
       (andthen (json_at j ''source'') (\<lambda>source.
        andthen (json_get_data ssl base64 j ''evidence'') (\<lambda>evidence.
        andthen (json_get_optional_data ssl base64 j ''endorsements'') (\<lambda>endorsements.
        andthen (json_get_optional_data ssl base64 j ''uvm_endorsements'') (\<lambda>uvm_endorsements.
          make_attestation (source_from_json source) evidence endorsements uvm_endorsements)))))"

section \<open>The virtual functions\<close>

text \<open>The libraries the verifiers call.\<close>

record 'h environment =
  env_ssl :: "'h openssl"
  env_cose :: "'h cose_library"
  env_json_parse :: json_parse
  env_from_cbor :: "bytes \<Rightarrow> json result"
  env_strptime :: strptime
  env_vformat :: vformat

fun any_prepare :: "'h environment \<Rightarrow> any_attestation \<Rightarrow> options \<Rightarrow> HTTPRequest list option result" where
  "any_prepare E (Sgx_Attestation ev en) opts = prepare_endorsements (env_ssl E) (env_vformat E) ev en opts"
| "any_prepare E (Snp_Attestation ev en) opts = snp_prepare_endorsements (env_vformat E) ev en opts"
| "any_prepare E (Oe_Attestation ev en) opts =
     snd (oe_prepare_endorsements (env_ssl E) (env_vformat E) (new_oe_attestation ev en) opts)"
| "any_prepare E (Aci_Attestation ev en uvm) opts = snp_prepare_endorsements (env_vformat E) ev en opts"

text \<open>
  \<open>verify\<close>.  An Open Enclave attestation remembers what \<open>prepare_endorsements\<close> extracted, so it is
  given as the object.
\<close>

definition oe_any_verify ::
  "'h environment \<Rightarrow> oe_attestation \<Rightarrow> options \<Rightarrow> HTTPResponse list option \<Rightarrow> any_claims result" where
  "oe_any_verify E a opts rs =
     andthen (snd (oe_verify (env_ssl E) (env_json_parse E) (env_strptime E) a opts rs)) (\<lambda>c. Inr (Oe_Claims c))"

fun any_verify_with ::
  "'h environment \<Rightarrow> (bytes \<Rightarrow> bytes \<Rightarrow> oe_attestation) \<Rightarrow> any_attestation \<Rightarrow> options \<Rightarrow>
   HTTPResponse list option \<Rightarrow> any_claims result" where
  "any_verify_with E oe (Sgx_Attestation ev en) opts rs =
     andthen (verify (env_ssl E) (env_json_parse E) (env_strptime E) ev en opts rs) (\<lambda>c. Inr (Sgx_Claims c))"
| "any_verify_with E oe (Snp_Attestation ev en) opts rs =
     andthen (snp_verify (env_ssl E) ev en opts rs) (\<lambda>c. Inr (Snp_Claims c))"
| "any_verify_with E oe (Oe_Attestation ev en) opts rs = oe_any_verify E (oe ev en) opts rs"
| "any_verify_with E oe (Aci_Attestation ev en uvm) opts rs =
     andthen (aci_verify (env_ssl E) (env_cose E) (env_json_parse E) ev en uvm opts rs) (\<lambda>c. Inr (Snp_Claims c))"

text \<open>On a new object, and on one that has been prepared.\<close>

definition any_verify ::
  "'h environment \<Rightarrow> any_attestation \<Rightarrow> options \<Rightarrow> HTTPResponse list option \<Rightarrow> any_claims result" where
  "any_verify E = any_verify_with E new_oe_attestation"

definition any_verify_prepared ::
  "'h environment \<Rightarrow> any_attestation \<Rightarrow> options \<Rightarrow> HTTPResponse list option \<Rightarrow> any_claims result" where
  "any_verify_prepared E a opts rs = any_verify_with E (\<lambda>ev en.
     fst (oe_prepare_endorsements (env_ssl E) (env_vformat E) (new_oe_attestation ev en) opts)) a opts rs"

text \<open>The object the tracker and the drivers work on: they verify only what they have prepared.\<close>

definition attestation_of :: "'h environment \<Rightarrow> any_attestation \<Rightarrow> any_claims attestation" where
  "attestation_of E a = \<lparr>att_prepare = any_prepare E a, att_verify = any_verify_prepared E a\<rparr>"

section \<open>The contract of an attestation\<close>

text \<open>
  What the tracker relies on: when there is nothing to download, it makes no difference whether
  \<open>verify\<close> is given no answers or an empty list of them.
\<close>

locale attestation_law =
  fixes prep :: "options \<Rightarrow> HTTPRequest list option result"
    and ver :: "options \<Rightarrow> HTTPResponse list option \<Rightarrow> 'a result"
  assumes no_answers: "prep opts = Inr None \<Longrightarrow> ver opts (Some []) = ver opts None"
begin

lemma fetched_none:
  "verify_fetched exec \<lparr>att_prepare = prep, att_verify = ver\<rparr> opts (Some []) =
   verify_fetched exec \<lparr>att_prepare = prep, att_verify = ver\<rparr> opts None"
  using no_answers by (auto simp: verify_fetched_def intro!: andthen_cong split: option.split)

lemma synchronized_synchronous:
  assumes "sync_ok c"
  shows "snd (verify_synchronized (sync_submit exec) erase_set (Some \<lparr>att_prepare = prep, att_verify = ver\<rparr>) opts c) =
     (case verify_synchronous (sync_submit exec) \<lparr>att_prepare = prep, att_verify = ver\<rparr> opts c of
        Inr cl \<Rightarrow> Inr cl | Inl e \<Rightarrow> Inl (if is_std_exception e then Runtime_Error ''error'' else e))"
  unfolding synchronized_fetched[OF assms] verify_synchronous_fetched[OF assms] fetched_none ..

end

lemma gather_collateral_no_answers: "gather_collateral en opts (Some []) = gather_collateral en opts None"
  by (simp add: gather_collateral_def)

lemma verify_no_answers:
  "verify ssl parse strptime ev en opts (Some []) = verify ssl parse strptime ev en opts None"
  by (simp add: verify_def gather_collateral_no_answers)

lemma snp_no_answers:
  assumes "snp_prepare_endorsements vformat ev en opts = Inr None"
  shows "snp_verify ssl ev en opts (Some []) = snp_verify ssl ev en opts None"
proof -
  from assms have "en \<noteq> []" "\<not> fresh_endorsements opts"
    "root_ca_certificate opts \<noteq> None \<or> \<not> fresh_root_ca_certificate opts"
    by (auto simp: snp_prepare_endorsements_def andthen_Inr throw_if_Inr Let_def split: if_splits)
  then have "snp_gather_endorsements ssl en opts (Some []) = snp_gather_endorsements ssl en opts None"
    by (auto simp: snp_gather_endorsements_def split: option.split)
  then show ?thesis by (simp add: snp_verify_def)
qed

lemma oe_verify_no_answers:
  "snd (oe_verify ssl parse strptime a opts (Some [])) = snd (oe_verify ssl parse strptime a opts None)"
proof -
  have "oe_run_verify ssl parse strptime b opts (Some []) = oe_run_verify ssl parse strptime b opts None" for b
    by (simp add: oe_run_verify_def verify_no_answers split: option.split)
  then show ?thesis by (simp add: oe_verify_def split: option.split sum.split)
qed

interpretation sgx_law: attestation_law "prepare_endorsements ssl vformat ev en" "verify ssl parse strptime ev en"
  for ssl vformat parse strptime ev en
  by unfold_locales (rule verify_no_answers)

interpretation snp_law: attestation_law "snp_prepare_endorsements vformat ev en" "snp_verify ssl ev en"
  for ssl vformat ev en
  by unfold_locales (rule snp_no_answers)

interpretation any_law: attestation_law "any_prepare E a" "any_verify_prepared E a" for E a
proof
  fix opts assume "any_prepare E a opts = Inr None"
  then show "any_verify_prepared E a opts (Some []) = any_verify_prepared E a opts None"
    by (cases a) (simp_all add: any_verify_prepared_def sgx_law.no_answers[of "env_ssl E" "env_vformat E"]
        snp_law.no_answers oe_any_verify_def oe_verify_no_answers aci_verify_def)
qed

section \<open>What the classes promise\<close>

lemma source_roundtrip: "s \<noteq> SRC_UNKNOWN \<Longrightarrow> source_from_json (source_to_json s) = s"
  by (cases s) (simp_all add: source_from_json_def source_to_json_def source_names_def)

text \<open>An unknown name is read as SGX, so that the error for an unsupported source is never raised.\<close>

lemma source_from_json_known: "source_from_json j \<noteq> SRC_UNKNOWN"
  by (auto simp: source_from_json_def source_names_def)

lemma source_from_json_unknown:
  "j \<notin> snd ` set source_names \<Longrightarrow> source_from_json j = SRC_SGX"
  by (auto simp: source_from_json_def source_names_def)

lemma json_get_data_bytes:
  assumes "map_find k m = Some (json_bytes ssl base64 v)" and "base64 \<Longrightarrow> from_base64 ssl (to_base64 ssl v) = Inr v"
  shows "json_get_data ssl base64 (J_Object m) k = Inr v"
  using assms by (cases base64)
    (simp_all add: json_get_data_def json_bytes_def json_get_string_def json_get_bytes_of_bytes)

lemma attestation_json_parses:
  assumes "base64 \<longrightarrow> (\<forall>v \<in> {attestation_evidence a, attestation_endorsements a}.
      from_base64 ssl (to_base64 ssl v) = Inr v)"
  shows "parse_attestation_value ssl (attestation_json ssl a base64) base64 =
     make_attestation (attestation_source_of a) (attestation_evidence a) (attestation_endorsements a) []"
proof -
  let ?m = "[(''source'', source_to_json (attestation_source_of a)),
             (''evidence'', json_bytes ssl base64 (attestation_evidence a))]
     @ (if attestation_endorsements a \<noteq> [] then [(''endorsements'', json_bytes ssl base64 (attestation_endorsements a))]
        else [])"
  have j: "attestation_json ssl a base64 = J_Object ?m" by (simp add: attestation_json_def Let_def)
  have s: "source_from_json (source_to_json (attestation_source_of a)) = attestation_source_of a"
    by (rule source_roundtrip) (cases a; simp)
  have "json_get_data ssl base64 (J_Object ?m) ''evidence'' = Inr (attestation_evidence a)"
    by (rule json_get_data_bytes) (use assms in \<open>simp_all add: map_find_def\<close>)
  moreover have "json_get_optional_data ssl base64 (J_Object ?m) ''endorsements'' = Inr (attestation_endorsements a)"
  proof (cases "attestation_endorsements a = []")
    case False
    then have "json_get_data ssl base64 (J_Object ?m) ''endorsements'' = Inr (attestation_endorsements a)"
      by (intro json_get_data_bytes) (use assms in \<open>simp_all add: map_find_def\<close>)
    with False show ?thesis by (simp add: json_get_optional_data_def json_contains_def map_find_def)
  qed (simp add: json_get_optional_data_def json_contains_def map_find_def)
  moreover have "json_get_optional_data ssl base64 (J_Object ?m) ''uvm_endorsements'' = Inr []"
    by (simp add: json_get_optional_data_def json_contains_def map_find_def)
  moreover have "json_at (J_Object ?m) ''source'' = Inr (source_to_json (attestation_source_of a))"
    by (simp add: map_find_def)
  moreover obtain b where "make_attestation (attestation_source_of a) (attestation_evidence a)
      (attestation_endorsements a) [] = Inr b" by (cases a) simp_all
  ultimately show ?thesis unfolding parse_attestation_value_def j
    by (simp add: s del: json_at_object)
qed

text \<open>Claims carry the source of the attestation they come from, ACI ones that of the report.\<close>

lemma any_verify_with_source:
  assumes "any_verify_with E oe a opts rs = Inr c"
  shows "claims_source c = (if attestation_source_of a = SRC_ACI then SRC_SEV_SNP else attestation_source_of a)"
  using assms by (cases a) (auto simp: andthen_Inr oe_any_verify_def)

lemma get_claims_Inr:
  "get_sgx_claims c = Inr x \<longleftrightarrow> c = Some (Sgx_Claims x)"
  "get_snp_claims c = Inr y \<longleftrightarrow> c = Some (Snp_Claims y)"
  "get_oe_claims c = Inr z \<longleftrightarrow> c = Some (Oe_Claims z)"
  by (auto simp: get_sgx_claims_def get_snp_claims_def get_oe_claims_def split: option.splits any_claims.splits)

end
