(* ===== verification/ClaimsJson.thy ===== *)
theory ClaimsJson
  imports Attestation
begin

text \<open>
  The JSON form of the claims: what \<open>RAVL_JSON_DEFINE_TYPE_NON_INTRUSIVE\<close> (\<open>json.h\<close>) generates from
  the lists of members in \<open>sgx_impl.h\<close>, \<open>sev_snp_impl.h\<close> and \<open>oe_impl.h\<close>.  \<open>to_json\<close> assigns one key per
  member, \<open>from_json\<close> reads every key with \<open>at\<close>; the source of the claims is not part of it.
\<close>

section \<open>Members\<close>

definition json_of_word :: "'w::len word \<Rightarrow> json" where
  "json_of_word w = J_Int (uint w)"

text \<open>\<open>get<std::array<uint8_t, n>>()\<close>: the first \<open>n\<close> elements, which must be there.\<close>

definition json_get_array :: "nat \<Rightarrow> json \<Rightarrow> bytes result" where
  "json_get_array n j = (case j of
       J_Array xs \<Rightarrow> for_each [0..<n] (\<lambda>i acc.
         if i < length xs then andthen (json_get_word (xs ! i)) (\<lambda>b. Inr (acc @ [b]))
         else Inl json_out_of_range) []
     | _ \<Rightarrow> Inl json_type_error)"

definition json_of_string_opt :: "string option \<Rightarrow> json" where
  "json_of_string_opt x = (case x of Some s \<Rightarrow> J_String s | None \<Rightarrow> J_Null)"

definition json_get_string_opt :: "json \<Rightarrow> string option result" where
  "json_get_string_opt j = (if is_null j then Inr None else andthen (json_get_string j) (\<lambda>s. Inr (Some s)))"

definition json_field :: "json \<Rightarrow> string \<Rightarrow> (json \<Rightarrow> 'a result) \<Rightarrow> ('a \<Rightarrow> 'b result) \<Rightarrow> 'b result" where
  "json_field j k get f = andthen (andthen (json_at j k) get) f"

section \<open>SEV-SNP\<close>

text \<open>\<open>sev_snp::Claims::TCBVersion\<close>.\<close>

definition tcb_version_to_json :: "snp_tcb_version \<Rightarrow> json" where
  "tcb_version_to_json x = J_Object [
     (''boot_loader'', json_of_word (boot_loader x)),
     (''tee'', json_of_word (tee x)),
     (''snp'', json_of_word (snp x)),
     (''microcode'', json_of_word (microcode x))]"

definition tcb_version_from_json :: "json \<Rightarrow> snp_tcb_version result" where
  "tcb_version_from_json j =
     json_field j ''boot_loader'' json_get_word (\<lambda>x0.
     json_field j ''tee'' json_get_word (\<lambda>x1.
     json_field j ''snp'' json_get_word (\<lambda>x2.
     json_field j ''microcode'' json_get_word (\<lambda>x3.
       Inr \<lparr>boot_loader = x0, tee = x1, snp = x2, microcode = x3\<rparr>))))"

text \<open>\<open>sev_snp::Claims::Signature\<close>, a pair of two members of the claims.\<close>

definition snp_signature_to_json :: "bytes \<times> bytes \<Rightarrow> json" where
  "snp_signature_to_json x = J_Object [(''r'', json_of_bytes (fst x)), (''s'', json_of_bytes (snd x))]"

definition snp_signature_from_json :: "json \<Rightarrow> (bytes \<times> bytes) result" where
  "snp_signature_from_json j =
     json_field j ''r'' (json_get_array 72) (\<lambda>r. json_field j ''s'' (json_get_array 72) (\<lambda>s. Inr (r, s)))"

text \<open>\<open>sev_snp::Endorsements\<close>.\<close>

definition snp_endorsements_to_json :: "snp_endorsements \<Rightarrow> json" where
  "snp_endorsements_to_json x = J_Object [
     (''root_ca_certificate'', J_String (se_root_ca_certificate x)),
     (''vcek_certificate_chain'', J_String (se_vcek_certificate_chain x)),
     (''vcek_issuer_chain_crl'', json_of_string_opt (se_vcek_issuer_chain_crl x))]"

definition snp_endorsements_from_json :: "json \<Rightarrow> snp_endorsements result" where
  "snp_endorsements_from_json j =
     json_field j ''root_ca_certificate'' json_get_string (\<lambda>x0.
     json_field j ''vcek_certificate_chain'' json_get_string (\<lambda>x1.
     json_field j ''vcek_issuer_chain_crl'' json_get_string_opt (\<lambda>x2.
       Inr \<lparr>se_root_ca_certificate = x0, se_vcek_certificate_chain = x1, se_vcek_issuer_chain_crl = x2\<rparr>)))"

text \<open>\<open>sev_snp::Claims\<close>.\<close>

definition snp_claims_to_json :: "snp_claims \<Rightarrow> json" where
  "snp_claims_to_json x = J_Object [
     (''version'', json_of_word (sn_version x)),
     (''guest_svn'', json_of_word (sn_guest_svn x)),
     (''policy'', json_of_word (sn_policy x)),
     (''family_id'', json_of_bytes (sn_family_id x)),
     (''image_id'', json_of_bytes (sn_image_id x)),
     (''vmpl'', json_of_word (sn_vmpl x)),
     (''signature_algo'', json_of_word (sn_signature_algo x)),
     (''platform_version'', tcb_version_to_json (sn_platform_version x)),
     (''platform_info'', json_of_word (sn_platform_info x)),
     (''flags'', json_of_word (sn_flags x)),
     (''report_data'', json_of_bytes (sn_report_data x)),
     (''measurement'', json_of_bytes (sn_measurement x)),
     (''host_data'', json_of_bytes (sn_host_data x)),
     (''id_key_digest'', json_of_bytes (sn_id_key_digest x)),
     (''author_key_digest'', json_of_bytes (sn_author_key_digest x)),
     (''report_id'', json_of_bytes (sn_report_id x)),
     (''report_id_ma'', json_of_bytes (sn_report_id_ma x)),
     (''reported_tcb'', tcb_version_to_json (sn_reported_tcb x)),
     (''chip_id'', json_of_bytes (sn_chip_id x)),
     (''committed_tcb'', tcb_version_to_json (sn_committed_tcb x)),
     (''current_minor'', json_of_word (sn_current_minor x)),
     (''current_build'', json_of_word (sn_current_build x)),
     (''current_major'', json_of_word (sn_current_major x)),
     (''committed_build'', json_of_word (sn_committed_build x)),
     (''committed_minor'', json_of_word (sn_committed_minor x)),
     (''committed_major'', json_of_word (sn_committed_major x)),
     (''launch_tcb'', tcb_version_to_json (sn_launch_tcb x)),
     (''signature'', snp_signature_to_json (sn_signature_r x, sn_signature_s x)),
     (''endorsements'', snp_endorsements_to_json (sn_endorsements x))]"

definition snp_claims_from_json :: "json \<Rightarrow> snp_claims result" where
  "snp_claims_from_json j =
     json_field j ''version'' json_get_word (\<lambda>x0.
     json_field j ''guest_svn'' json_get_word (\<lambda>x1.
     json_field j ''policy'' json_get_u64 (\<lambda>x2.
     json_field j ''family_id'' (json_get_array 16) (\<lambda>x3.
     json_field j ''image_id'' (json_get_array 16) (\<lambda>x4.
     json_field j ''vmpl'' json_get_word (\<lambda>x5.
     json_field j ''signature_algo'' json_get_word (\<lambda>x6.
     json_field j ''platform_version'' tcb_version_from_json (\<lambda>x7.
     json_field j ''platform_info'' json_get_u64 (\<lambda>x8.
     json_field j ''flags'' json_get_word (\<lambda>x9.
     json_field j ''report_data'' (json_get_array 64) (\<lambda>x10.
     json_field j ''measurement'' (json_get_array 48) (\<lambda>x11.
     json_field j ''host_data'' (json_get_array 32) (\<lambda>x12.
     json_field j ''id_key_digest'' (json_get_array 48) (\<lambda>x13.
     json_field j ''author_key_digest'' (json_get_array 48) (\<lambda>x14.
     json_field j ''report_id'' (json_get_array 32) (\<lambda>x15.
     json_field j ''report_id_ma'' (json_get_array 32) (\<lambda>x16.
     json_field j ''reported_tcb'' tcb_version_from_json (\<lambda>x17.
     json_field j ''chip_id'' (json_get_array 64) (\<lambda>x18.
     json_field j ''committed_tcb'' tcb_version_from_json (\<lambda>x19.
     json_field j ''current_minor'' json_get_word (\<lambda>x20.
     json_field j ''current_build'' json_get_word (\<lambda>x21.
     json_field j ''current_major'' json_get_word (\<lambda>x22.
     json_field j ''committed_build'' json_get_word (\<lambda>x23.
     json_field j ''committed_minor'' json_get_word (\<lambda>x24.
     json_field j ''committed_major'' json_get_word (\<lambda>x25.
     json_field j ''launch_tcb'' tcb_version_from_json (\<lambda>x26.
     json_field j ''signature'' snp_signature_from_json (\<lambda>x27.
     json_field j ''endorsements'' snp_endorsements_from_json (\<lambda>x28.
       Inr \<lparr>sn_version = x0, sn_guest_svn = x1, sn_policy = x2, sn_family_id = x3, sn_image_id = x4, sn_vmpl = x5, sn_signature_algo = x6, sn_platform_version = x7, sn_platform_info = x8, sn_flags = x9, sn_report_data = x10, sn_measurement = x11, sn_host_data = x12, sn_id_key_digest = x13, sn_author_key_digest = x14, sn_report_id = x15, sn_report_id_ma = x16, sn_reported_tcb = x17, sn_chip_id = x18, sn_committed_tcb = x19, sn_current_minor = x20, sn_current_build = x21, sn_current_major = x22, sn_committed_build = x23, sn_committed_minor = x24, sn_committed_major = x25, sn_launch_tcb = x26, sn_signature_r = fst x27, sn_signature_s = snd x27, sn_endorsements = x28\<rparr>)))))))))))))))))))))))))))))"

section \<open>SGX\<close>

text \<open>\<open>sgx::Claims::ReportAttributes\<close>.\<close>

definition report_attributes_to_json :: "u64 \<times> u64 \<Rightarrow> json" where
  "report_attributes_to_json x = J_Object [(''flags'', json_of_word (fst x)), (''xfrm'', json_of_word (snd x))]"

definition report_attributes_from_json :: "json \<Rightarrow> (u64 \<times> u64) result" where
  "report_attributes_from_json j =
     json_field j ''flags'' json_get_u64 (\<lambda>f. json_field j ''xfrm'' json_get_u64 (\<lambda>x. Inr (f, x)))"

text \<open>\<open>sgx::Claims::ReportBody\<close>.\<close>

definition report_body_to_json :: "sgx_report_body \<Rightarrow> json" where
  "report_body_to_json x = J_Object [
     (''cpu_svn'', json_of_bytes (rb_cpu_svn x)),
     (''misc_select'', json_of_word (rb_misc_select x)),
     (''isv_ext_prod_id'', json_of_bytes (rb_isv_ext_prod_id x)),
     (''attributes'', report_attributes_to_json (rb_flags x, rb_xfrm x)),
     (''mr_enclave'', json_of_bytes (rb_mr_enclave x)),
     (''mr_signer'', json_of_bytes (rb_mr_signer x)),
     (''config_id'', json_of_bytes (rb_config_id x)),
     (''isv_prod_id'', json_of_word (rb_isv_prod_id x)),
     (''isv_svn'', json_of_word (rb_isv_svn x)),
     (''config_svn'', json_of_word (rb_config_svn x)),
     (''isv_family_id'', json_of_bytes (rb_isv_family_id x)),
     (''report_data'', json_of_bytes (rb_report_data x))]"

definition report_body_from_json :: "json \<Rightarrow> sgx_report_body result" where
  "report_body_from_json j =
     json_field j ''cpu_svn'' (json_get_array 16) (\<lambda>x0.
     json_field j ''misc_select'' json_get_word (\<lambda>x1.
     json_field j ''isv_ext_prod_id'' (json_get_array 16) (\<lambda>x2.
     json_field j ''attributes'' report_attributes_from_json (\<lambda>x3.
     json_field j ''mr_enclave'' (json_get_array 32) (\<lambda>x4.
     json_field j ''mr_signer'' (json_get_array 32) (\<lambda>x5.
     json_field j ''config_id'' (json_get_array 64) (\<lambda>x6.
     json_field j ''isv_prod_id'' json_get_word (\<lambda>x7.
     json_field j ''isv_svn'' json_get_word (\<lambda>x8.
     json_field j ''config_svn'' json_get_word (\<lambda>x9.
     json_field j ''isv_family_id'' (json_get_array 16) (\<lambda>x10.
     json_field j ''report_data'' (json_get_array 64) (\<lambda>x11.
       Inr \<lparr>rb_cpu_svn = x0, rb_misc_select = x1, rb_isv_ext_prod_id = x2, rb_flags = fst x3, rb_xfrm = snd x3, rb_mr_enclave = x4, rb_mr_signer = x5, rb_config_id = x6, rb_isv_prod_id = x7, rb_isv_svn = x8, rb_config_svn = x9, rb_isv_family_id = x10, rb_report_data = x11\<rparr>))))))))))))"

text \<open>\<open>sgx::Claims::SignatureData\<close>.\<close>

definition sgx_signature_to_json :: "sgx_signature_claims \<Rightarrow> json" where
  "sgx_signature_to_json x = J_Object [
     (''signature'', json_of_bytes (sc_signature x)),
     (''attest_pub_key'', json_of_bytes (sc_attest_pub_key x)),
     (''qe_report'', report_body_to_json (sc_qe_report x)),
     (''qe_report_sig'', json_of_bytes (sc_qe_report_sig x)),
     (''auth_data'', json_of_bytes (sc_auth_data x))]"

definition sgx_signature_from_json :: "json \<Rightarrow> sgx_signature_claims result" where
  "sgx_signature_from_json j =
     json_field j ''signature'' (json_get_array 64) (\<lambda>x0.
     json_field j ''attest_pub_key'' (json_get_array 64) (\<lambda>x1.
     json_field j ''qe_report'' report_body_from_json (\<lambda>x2.
     json_field j ''qe_report_sig'' (json_get_array 64) (\<lambda>x3.
     json_field j ''auth_data'' json_get_bytes (\<lambda>x4.
       Inr \<lparr>sc_signature = x0, sc_attest_pub_key = x1, sc_qe_report = x2, sc_qe_report_sig = x3, sc_auth_data = x4\<rparr>)))))"

text \<open>\<open>sgx::Endorsements\<close>.\<close>

definition sgx_endorsements_to_json :: "sgx_endorsements \<Rightarrow> json" where
  "sgx_endorsements_to_json x = J_Object [
     (''major_version'', json_of_word (e_major_version x)),
     (''minor_version'', json_of_word (e_minor_version x)),
     (''tee_type'', json_of_word (e_tee_type x)),
     (''root_ca'', J_String (e_root_ca x)),
     (''pck_crl_issuer_chain'', J_String (e_pck_crl_issuer_chain x)),
     (''root_ca_crl'', J_String (e_root_ca_crl x)),
     (''pck_crl'', J_String (e_pck_crl x)),
     (''tcb_info_issuer_chain'', J_String (e_tcb_info_issuer_chain x)),
     (''tcb_info'', J_String (e_tcb_info x)),
     (''qe_identity_issuer_chain'', J_String (e_qe_identity_issuer_chain x)),
     (''qe_identity'', J_String (e_qe_identity x))]"

definition sgx_endorsements_from_json :: "json \<Rightarrow> sgx_endorsements result" where
  "sgx_endorsements_from_json j =
     json_field j ''major_version'' json_get_word (\<lambda>x0.
     json_field j ''minor_version'' json_get_word (\<lambda>x1.
     json_field j ''tee_type'' json_get_word (\<lambda>x2.
     json_field j ''root_ca'' json_get_string (\<lambda>x3.
     json_field j ''pck_crl_issuer_chain'' json_get_string (\<lambda>x4.
     json_field j ''root_ca_crl'' json_get_string (\<lambda>x5.
     json_field j ''pck_crl'' json_get_string (\<lambda>x6.
     json_field j ''tcb_info_issuer_chain'' json_get_string (\<lambda>x7.
     json_field j ''tcb_info'' json_get_string (\<lambda>x8.
     json_field j ''qe_identity_issuer_chain'' json_get_string (\<lambda>x9.
     json_field j ''qe_identity'' json_get_string (\<lambda>x10.
       Inr \<lparr>e_major_version = x0, e_minor_version = x1, e_tee_type = x2, e_root_ca = x3, e_pck_crl_issuer_chain = x4, e_root_ca_crl = x5, e_pck_crl = x6, e_tcb_info_issuer_chain = x7, e_tcb_info = x8, e_qe_identity_issuer_chain = x9, e_qe_identity = x10\<rparr>)))))))))))"

text \<open>\<open>sgx::Claims\<close>, for claims whose endorsements are set (those of a partial verification are not).\<close>

definition sgx_claims_to_json :: "sgx_claims \<Rightarrow> json" where
  "sgx_claims_to_json x = J_Object [
     (''version'', json_of_word (q_version x)),
     (''sign_type'', json_of_word (q_sign_type x)),
     (''epid_group_id'', json_of_bytes (q_epid_group_id x)),
     (''qe_svn'', json_of_word (q_qe_svn x)),
     (''pce_svn'', json_of_word (q_pce_svn x)),
     (''xeid'', json_of_word (q_xeid x)),
     (''basename'', json_of_bytes (q_basename x)),
     (''report_body'', report_body_to_json (q_report_body x)),
     (''signature_data'', sgx_signature_to_json (q_signature_data x)),
     (''endorsements'', sgx_endorsements_to_json (the (q_endorsements x)))]"

definition sgx_claims_from_json :: "json \<Rightarrow> sgx_claims result" where
  "sgx_claims_from_json j =
     json_field j ''version'' json_get_word (\<lambda>x0.
     json_field j ''sign_type'' json_get_word (\<lambda>x1.
     json_field j ''epid_group_id'' (json_get_array 4) (\<lambda>x2.
     json_field j ''qe_svn'' json_get_word (\<lambda>x3.
     json_field j ''pce_svn'' json_get_word (\<lambda>x4.
     json_field j ''xeid'' json_get_word (\<lambda>x5.
     json_field j ''basename'' (json_get_array 32) (\<lambda>x6.
     json_field j ''report_body'' report_body_from_json (\<lambda>x7.
     json_field j ''signature_data'' sgx_signature_from_json (\<lambda>x8.
     json_field j ''endorsements'' sgx_endorsements_from_json (\<lambda>x9.
       Inr \<lparr>q_version = x0, q_sign_type = x1, q_epid_group_id = x2, q_qe_svn = x3, q_pce_svn = x4, q_xeid = x5, q_basename = x6, q_report_body = x7, q_signature_data = x8, q_endorsements = Some x9\<rparr>))))))))))"

section \<open>Open Enclave\<close>

definition custom_claims_to_json :: "(string, bytes) std_map \<Rightarrow> json" where
  "custom_claims_to_json m = J_Object (map (\<lambda>(k, v). (k, json_of_bytes v)) m)"

text \<open>\<open>get<std::map<std::string, std::vector<uint8_t>>>()\<close>.\<close>

definition custom_claims_from_json :: "json \<Rightarrow> (string, bytes) std_map result" where
  "custom_claims_from_json j = (case j of
       J_Object m \<Rightarrow> for_each m (\<lambda>(k, v) acc. andthen (json_get_bytes v) (\<lambda>b. Inr (fst (emplace k b acc)))) []
     | _ \<Rightarrow> Inl json_type_error)"

definition oe_claims_to_json :: "oe_claims \<Rightarrow> json" where
  "oe_claims_to_json x = J_Object [(''sgx_claims'', sgx_claims_to_json (oc_sgx_claims x)),
     (''custom_claims'', custom_claims_to_json (oc_custom_claims x))]"

definition oe_claims_from_json :: "json \<Rightarrow> oe_claims result" where
  "oe_claims_from_json j =
     json_field j ''sgx_claims'' sgx_claims_from_json (\<lambda>s.
     json_field j ''custom_claims'' custom_claims_from_json (\<lambda>c.
       Inr \<lparr>oc_sgx_claims = s, oc_custom_claims = c\<rparr>))"

section \<open>Reading what was written\<close>

lemma json_get_array_bytes: "length v = n \<Longrightarrow> json_get_array n (json_of_bytes v) = Inr v"
proof -
  assume n: "length v = n"
  have "k \<le> n \<Longrightarrow> for_each [0..<k] (\<lambda>i acc. if i < n
      then andthen (json_get_word (J_Int (uint (v ! i)))) (\<lambda>b. Inr (acc @ [b]))
      else Inl json_out_of_range) [] = Inr (take k v)" for k
    by (induction k) (simp_all add: for_each_append json_get_word_def take_Suc_conv_app_nth n)
  from this[of n] n have "for_each [0..<n] (\<lambda>i acc. if i < length v
      then andthen (json_get_word (map (\<lambda>b. J_Int (uint b)) v ! i)) (\<lambda>b. Inr (acc @ [b]))
      else Inl json_out_of_range) [] = Inr v"
    by (simp cong: if_cong)
  then show ?thesis by (simp add: json_get_array_def json_of_bytes_def)
qed

lemma json_get_word_of_word [simp]: "json_get_word (json_of_word w) = Inr w"
  by (simp add: json_get_word_def json_of_word_def)

lemma json_get_u64_of_word [simp]: "json_get_u64 (json_of_word w) = Inr w"
  by (simp add: json_get_u64_def json_of_word_def)

lemma json_get_string_of_string [simp]: "json_get_string (J_String s) = Inr s"
  by (simp add: json_get_string_def)

lemma json_get_string_opt_of [simp]: "json_get_string_opt (json_of_string_opt x) = Inr x"
  by (cases x) (simp_all add: json_get_string_opt_def json_of_string_opt_def)

lemma json_field_object [simp]:
  "json_field (J_Object ((k, v) # m)) k get f = andthen (get v) f"
  "k \<noteq> k' \<Longrightarrow> json_field (J_Object ((k', v) # m)) k get f = json_field (J_Object m) k get f"
  by (simp_all add: json_field_def map_find_def)

lemma tcb_version_roundtrip [simp]: "tcb_version_from_json (tcb_version_to_json v) = Inr v"
  by (simp add: tcb_version_from_json_def tcb_version_to_json_def)

lemma snp_signature_roundtrip:
  "length r = 72 \<Longrightarrow> length s = 72 \<Longrightarrow> snp_signature_from_json (snp_signature_to_json (r, s)) = Inr (r, s)"
  by (simp add: snp_signature_from_json_def snp_signature_to_json_def json_get_array_bytes)

lemma snp_endorsements_roundtrip [simp]: "snp_endorsements_from_json (snp_endorsements_to_json e) = Inr e"
  by (simp add: snp_endorsements_from_json_def snp_endorsements_to_json_def)

text \<open>The arrays of the claims have the lengths of their types.\<close>

definition snp_claims_wf :: "snp_claims \<Rightarrow> bool" where
  "snp_claims_wf c \<longleftrightarrow> length (sn_family_id c) = 16 \<and> length (sn_image_id c) = 16
     \<and> length (sn_report_data c) = 64 \<and> length (sn_measurement c) = 48 \<and> length (sn_host_data c) = 32
     \<and> length (sn_id_key_digest c) = 48 \<and> length (sn_author_key_digest c) = 48
     \<and> length (sn_report_id c) = 32 \<and> length (sn_report_id_ma c) = 32 \<and> length (sn_chip_id c) = 64
     \<and> length (sn_signature_r c) = 72 \<and> length (sn_signature_s c) = 72"

lemma snp_claims_roundtrip: "snp_claims_wf c \<Longrightarrow> snp_claims_from_json (snp_claims_to_json c) = Inr c"
  by (simp add: snp_claims_wf_def snp_claims_from_json_def snp_claims_to_json_def json_get_array_bytes
      snp_signature_roundtrip)

lemma snp_claims_of_wf: "816 \<le> length a \<Longrightarrow> snp_claims_wf (snp_claims_of a e)"
  by (simp add: snp_claims_wf_def snp_claims_of_def snp_signature_offset_def)

definition report_body_wf :: "sgx_report_body \<Rightarrow> bool" where
  "report_body_wf b \<longleftrightarrow> length (rb_cpu_svn b) = 16 \<and> length (rb_isv_ext_prod_id b) = 16
     \<and> length (rb_mr_enclave b) = 32 \<and> length (rb_mr_signer b) = 32 \<and> length (rb_config_id b) = 64
     \<and> length (rb_isv_family_id b) = 16 \<and> length (rb_report_data b) = 64"

lemma report_attributes_roundtrip [simp]: "report_attributes_from_json (report_attributes_to_json a) = Inr a"
  by (simp add: report_attributes_from_json_def report_attributes_to_json_def)

lemma report_body_roundtrip: "report_body_wf b \<Longrightarrow> report_body_from_json (report_body_to_json b) = Inr b"
  by (simp add: report_body_wf_def report_body_from_json_def report_body_to_json_def json_get_array_bytes)

lemma report_body_of_wf: "384 \<le> length b \<Longrightarrow> report_body_wf (report_body_of b)"
  by (simp add: report_body_wf_def report_body_of_def)

definition sgx_claims_wf :: "sgx_claims \<Rightarrow> bool" where
  "sgx_claims_wf c \<longleftrightarrow> length (q_epid_group_id c) = 4 \<and> length (q_basename c) = 32
     \<and> report_body_wf (q_report_body c) \<and> length (sc_signature (q_signature_data c)) = 64
     \<and> length (sc_attest_pub_key (q_signature_data c)) = 64
     \<and> report_body_wf (sc_qe_report (q_signature_data c))
     \<and> length (sc_qe_report_sig (q_signature_data c)) = 64 \<and> q_endorsements c \<noteq> None"

lemma sgx_endorsements_roundtrip [simp]: "sgx_endorsements_from_json (sgx_endorsements_to_json e) = Inr e"
  by (simp add: sgx_endorsements_from_json_def sgx_endorsements_to_json_def)

lemma sgx_signature_roundtrip:
  "length (sc_signature s) = 64 \<Longrightarrow> length (sc_attest_pub_key s) = 64 \<Longrightarrow> report_body_wf (sc_qe_report s) \<Longrightarrow>
   length (sc_qe_report_sig s) = 64 \<Longrightarrow> sgx_signature_from_json (sgx_signature_to_json s) = Inr s"
  by (simp add: sgx_signature_from_json_def sgx_signature_to_json_def json_get_array_bytes
      report_body_roundtrip json_get_bytes_of_bytes)

lemma sgx_claims_roundtrip: "sgx_claims_wf c \<Longrightarrow> sgx_claims_from_json (sgx_claims_to_json c) = Inr c"
  by (auto simp: sgx_claims_wf_def sgx_claims_from_json_def sgx_claims_to_json_def json_get_array_bytes
      report_body_roundtrip sgx_signature_roundtrip)

lemma custom_claims_roundtrip:
  assumes "map_wf m"
  shows "custom_claims_from_json (custom_claims_to_json m) = Inr m"
proof -
  have "map_wf (acc @ m) \<Longrightarrow> for_each (map (\<lambda>(k, v). (k, json_of_bytes v)) m)
      (\<lambda>(k, v) acc. andthen (json_get_bytes v) (\<lambda>b. Inr (fst (emplace k b acc)))) acc = Inr (acc @ m)" for acc
  proof (induction m arbitrary: acc)
    case (Cons p m)
    obtain k v where p: "p = (k, v)" by force
    from Cons.prems have "map_find k acc = None" by (auto simp: p map_wf_def map_find_def map_of_eq_None_iff)
    with Cons p show ?case by (simp add: json_get_bytes_of_bytes emplace_def)
  qed simp
  from this[of "[]"] assms show ?thesis by (simp add: custom_claims_from_json_def custom_claims_to_json_def)
qed

lemma oe_claims_roundtrip:
  "sgx_claims_wf (oc_sgx_claims c) \<Longrightarrow> map_wf (oc_custom_claims c) \<Longrightarrow>
   oe_claims_from_json (oe_claims_to_json c) = Inr c"
  by (simp add: oe_claims_from_json_def oe_claims_to_json_def sgx_claims_roundtrip custom_claims_roundtrip)

section \<open>The claims of a verification\<close>

lemma verified_sgx_claims_wf:
  assumes "verify ssl parse strptime ev en opts rs = Inr claims" and "\<not> partial_verification opts"
  shows "sgx_claims_wf claims"
proof (rule verify_Inr[OF assms], goal_cases)
  case (1 c cd store tr crl_chain store1 chain leaf ext level base)
  have "1014 \<le> length ev" using 1(2) by (auto simp: evidence_accepted_def signature_data_ok_def cd_offset_def)
  then show ?case
    unfolding 1(12) make_claims_record[OF 1(11)]
    by (simp add: sgx_claims_wf_def report_body_of_wf)
qed

lemma verified_snp_claims_wf: "snp_verify ssl ev en opts rs = Inr claims \<Longrightarrow> snp_claims_wf claims"
  using snp_verify_Inr[of ssl ev en opts rs claims] unfolding report_signed_def snp_claims_of_take
  by (auto intro: snp_claims_of_wf)

lemma extract_custom_claims_wf:
  assumes "extract_custom_claims cc [] = Inr m"
  shows "map_wf m"
proof -
  have e: "map_wf ([] :: (string, bytes) std_map)" by (simp add: map_wf_def)
  have step: "map_wf s'" if "map_wf s" "custom_claim_step cc x s = Inr s'" for x s s'
    using that by (auto simp: custom_claim_step_def andthen_Inr store.inv_ins)
  have "for_each xs (custom_claim_step cc) [] = Inr m' \<Longrightarrow> map_wf m'" for xs m'
    using for_each_invariant[where P = map_wf and body = "custom_claim_step cc"] step e by blast
  with assms e show ?thesis
    by (auto simp: extract_custom_claims_def andthen_Inr throw_if_Inr split: if_splits)
qed

lemma verified_oe_claims_wf:
  assumes "snd (oe_verify ssl parse strptime a opts rs) = Inr c" and "\<not> partial_verification opts"
  shows "sgx_claims_wf (oc_sgx_claims c) \<and> map_wf (oc_custom_claims c)"
proof -
  have "sgx_claims_wf (oc_sgx_claims c) \<and> map_wf (oc_custom_claims c)"
    if "oe_run_verify ssl parse strptime b opts rs = Inr c" for b
    using that verified_sgx_claims_wf[OF _ assms(2)] extract_custom_claims_wf
    by (auto simp: oe_run_verify_def andthen_Inr split: option.splits prod.splits)
  with assms(1) show ?thesis
    by (auto simp: oe_verify_def split: option.splits sum.splits if_splits)
qed

end
