(* ===== verification/SevLayout.thy ===== *)
theory SevLayout
  imports SevSnp Layout
begin

text \<open>
  The structures of \<open>sev_snp_impl.h\<close> as lists of members.  The verifier reads the report through a pointer
  to \<open>snp::Attestation\<close>; here the offsets it uses are derived from the structure.  The structures that a
  guest exchanges with its device are not packed, apart from the response.
\<close>

section \<open>The report\<close>

definition tcb_version_layout :: layout where
  "tcb_version_layout = [(''boot_loader'', 1), (''tee'', 1), (''reserved'', 4), (''snp'', 1), (''microcode'', 1)]"

definition snp_signature_layout :: layout where
  "snp_signature_layout = [(''r'', 72), (''s'', 72), (''reserved'', 512 - 144)]"

definition snp_report_layout :: layout where
  "snp_report_layout = [
     (''version'', 4), (''guest_svn'', 4), (''policy'', 8), (''family_id'', 16), (''image_id'', 16),
     (''vmpl'', 4), (''signature_algo'', 4), (''platform_version'', layout_size tcb_version_layout),
     (''platform_info'', 8), (''flags'', 4), (''reserved0'', 4), (''report_data'', 64),
     (''measurement'', 48), (''host_data'', 32), (''id_key_digest'', 48),
     (''author_key_digest'', 48), (''report_id'', 32), (''report_id_ma'', 32),
     (''reported_tcb'', layout_size tcb_version_layout), (''reserved1'', 24), (''chip_id'', 64),
     (''committed_tcb'', layout_size tcb_version_layout), (''current_minor'', 1),
     (''current_build'', 1), (''current_major'', 1), (''reserved2'', 1), (''committed_build'', 1),
     (''committed_minor'', 1), (''committed_major'', 1), (''reserved3'', 1),
     (''launch_tcb'', layout_size tcb_version_layout), (''reserved4'', 168),
     (''signature'', layout_size snp_signature_layout)]"

definition snp_response_layout :: layout where
  "snp_response_layout = [(''status'', 4), (''report_size'', 4), (''reserved'', 0x20 - 0x8),
     (''report'', layout_size snp_report_layout), (''padding'', 64)]"

text \<open>The request of a guest, and the structure of the ioctl that carries it to the device.\<close>

definition snp_request_layout :: aligned_layout where
  "snp_request_layout = [(''report_data'', 64, 1), (''vmpl'', 4, 4), (''reserved'', 28, 1)]"

definition guest_request_layout :: aligned_layout where
  "guest_request_layout = [(''req_msg_type'', 1, 1), (''rsp_msg_type'', 1, 1), (''msg_version'', 1, 1),
     (''request_len'', 2, 2), (''request_uaddr'', 8, 8), (''response_len'', 2, 2),
     (''response_uaddr'', 8, 8), (''error'', 4, 4)]"

datatype snp_msg_type = MSG_TYPE_INVALID | MSG_CPUID_REQ | MSG_CPUID_RSP | MSG_KEY_REQ | MSG_KEY_RSP
  | MSG_REPORT_REQ | MSG_REPORT_RSP | MSG_EXPORT_REQ | MSG_EXPORT_RSP | MSG_IMPORT_REQ | MSG_IMPORT_RSP
  | MSG_ABSORB_REQ | MSG_ABSORB_RSP | MSG_VMRK_REQ | MSG_VMRK_RSP | MSG_TYPE_MAX

section \<open>The offsets\<close>

lemma layout_sizes:
  "layout_size tcb_version_layout = 8" "layout_size snp_signature_layout = 512"
  "layout_size snp_report_layout = 1184" "layout_size snp_response_layout = 1280"
  by (simp_all add: layout_size_def tcb_version_layout_def snp_signature_layout_def snp_report_layout_def
      snp_response_layout_def)

lemma guest_request_offsets:
  "layout_size (aligned_struct snp_request_layout) = 96" "layout_size (aligned_struct guest_request_layout) = 40"
  "layout_offset (aligned_struct guest_request_layout) ''request_len'' = 4"
  "layout_offset (aligned_struct guest_request_layout) ''request_uaddr'' = 8"
  "layout_offset (aligned_struct guest_request_layout) ''response_len'' = 16"
  "layout_offset (aligned_struct guest_request_layout) ''response_uaddr'' = 24"
  "layout_offset (aligned_struct guest_request_layout) ''error'' = 32"
  by code_simp+

lemma snp_report_members:
  "member snp_report_layout ''version'' bs = sub 0x0 4 bs"
  "member snp_report_layout ''guest_svn'' bs = sub 0x4 4 bs"
  "member snp_report_layout ''policy'' bs = sub 0x8 8 bs"
  "member snp_report_layout ''family_id'' bs = sub 0x10 16 bs"
  "member snp_report_layout ''image_id'' bs = sub 0x20 16 bs"
  "member snp_report_layout ''vmpl'' bs = sub 0x30 4 bs"
  "member snp_report_layout ''signature_algo'' bs = sub 0x34 4 bs"
  "member snp_report_layout ''platform_version'' bs = sub 0x38 8 bs"
  "member snp_report_layout ''platform_info'' bs = sub 0x40 8 bs"
  "member snp_report_layout ''flags'' bs = sub 0x48 4 bs"
  "member snp_report_layout ''reserved0'' bs = sub 0x4c 4 bs"
  "member snp_report_layout ''report_data'' bs = sub 0x50 64 bs"
  "member snp_report_layout ''measurement'' bs = sub 0x90 48 bs"
  "member snp_report_layout ''host_data'' bs = sub 0xc0 32 bs"
  "member snp_report_layout ''id_key_digest'' bs = sub 0xe0 48 bs"
  "member snp_report_layout ''author_key_digest'' bs = sub 0x110 48 bs"
  "member snp_report_layout ''report_id'' bs = sub 0x140 32 bs"
  "member snp_report_layout ''report_id_ma'' bs = sub 0x160 32 bs"
  "member snp_report_layout ''reported_tcb'' bs = sub 0x180 8 bs"
  "member snp_report_layout ''reserved1'' bs = sub 0x188 24 bs"
  "member snp_report_layout ''chip_id'' bs = sub 0x1a0 64 bs"
  "member snp_report_layout ''committed_tcb'' bs = sub 0x1e0 8 bs"
  "member snp_report_layout ''current_minor'' bs = sub 0x1e8 1 bs"
  "member snp_report_layout ''current_build'' bs = sub 0x1e9 1 bs"
  "member snp_report_layout ''current_major'' bs = sub 0x1ea 1 bs"
  "member snp_report_layout ''reserved2'' bs = sub 0x1eb 1 bs"
  "member snp_report_layout ''committed_build'' bs = sub 0x1ec 1 bs"
  "member snp_report_layout ''committed_minor'' bs = sub 0x1ed 1 bs"
  "member snp_report_layout ''committed_major'' bs = sub 0x1ee 1 bs"
  "member snp_report_layout ''reserved3'' bs = sub 0x1ef 1 bs"
  "member snp_report_layout ''launch_tcb'' bs = sub 0x1f0 8 bs"
  "member snp_report_layout ''reserved4'' bs = sub 0x1f8 168 bs"
  "member snp_report_layout ''signature'' bs = sub 0x2a0 512 bs"
  by (simp_all add: member_def snp_report_layout_def layout_sizes)

lemma tcb_version_members:
  "member tcb_version_layout ''boot_loader'' bs = sub 0 1 bs"
  "member tcb_version_layout ''tee'' bs = sub 1 1 bs"
  "member tcb_version_layout ''snp'' bs = sub 6 1 bs"
  "member tcb_version_layout ''microcode'' bs = sub 7 1 bs"
  by (simp_all add: member_def tcb_version_layout_def)

lemma snp_signature_members:
  "member snp_signature_layout ''r'' bs = sub 0 72 bs" "member snp_signature_layout ''s'' bs = sub 72 72 bs"
  by (simp_all add: member_def snp_signature_layout_def)

section \<open>The claims as members\<close>

definition tcb_version_by_layout :: "bytes \<Rightarrow> snp_tcb_version" where
  "tcb_version_by_layout bs = \<lparr>boot_loader = byte_member tcb_version_layout ''boot_loader'' bs,
     tee = byte_member tcb_version_layout ''tee'' bs, snp = byte_member tcb_version_layout ''snp'' bs,
     microcode = byte_member tcb_version_layout ''microcode'' bs\<rparr>"

definition snp_claims_by_layout :: "bytes \<Rightarrow> snp_endorsements \<Rightarrow> snp_claims" where
  "snp_claims_by_layout bs e = \<lparr>
     sn_version = le_word (member snp_report_layout ''version'' bs),
     sn_guest_svn = le_word (member snp_report_layout ''guest_svn'' bs),
     sn_policy = le_word (member snp_report_layout ''policy'' bs),
     sn_family_id = member snp_report_layout ''family_id'' bs,
     sn_image_id = member snp_report_layout ''image_id'' bs,
     sn_vmpl = le_word (member snp_report_layout ''vmpl'' bs),
     sn_signature_algo = le_word (member snp_report_layout ''signature_algo'' bs),
     sn_platform_version = tcb_version_by_layout (member snp_report_layout ''platform_version'' bs),
     sn_platform_info = le_word (member snp_report_layout ''platform_info'' bs),
     sn_flags = le_word (member snp_report_layout ''flags'' bs),
     sn_report_data = member snp_report_layout ''report_data'' bs,
     sn_measurement = member snp_report_layout ''measurement'' bs,
     sn_host_data = member snp_report_layout ''host_data'' bs,
     sn_id_key_digest = member snp_report_layout ''id_key_digest'' bs,
     sn_author_key_digest = member snp_report_layout ''author_key_digest'' bs,
     sn_report_id = member snp_report_layout ''report_id'' bs,
     sn_report_id_ma = member snp_report_layout ''report_id_ma'' bs,
     sn_reported_tcb = tcb_version_by_layout (member snp_report_layout ''reported_tcb'' bs),
     sn_chip_id = member snp_report_layout ''chip_id'' bs,
     sn_committed_tcb = tcb_version_by_layout (member snp_report_layout ''committed_tcb'' bs),
     sn_current_minor = byte_member snp_report_layout ''current_minor'' bs,
     sn_current_build = byte_member snp_report_layout ''current_build'' bs,
     sn_current_major = byte_member snp_report_layout ''current_major'' bs,
     sn_committed_build = byte_member snp_report_layout ''committed_build'' bs,
     sn_committed_minor = byte_member snp_report_layout ''committed_minor'' bs,
     sn_committed_major = byte_member snp_report_layout ''committed_major'' bs,
     sn_launch_tcb = tcb_version_by_layout (member snp_report_layout ''launch_tcb'' bs),
     sn_signature_r = member snp_signature_layout ''r'' (member snp_report_layout ''signature'' bs),
     sn_signature_s = member snp_signature_layout ''s'' (member snp_report_layout ''signature'' bs),
     sn_endorsements = e\<rparr>"

lemma tcb_version_by_layout_eq: "length bs = 8 \<Longrightarrow> tcb_version_by_layout bs = snp_tcb_version_of bs"
  by (simp add: tcb_version_by_layout_def byte_member_def tcb_version_members snp_tcb_version_of_def sub_1_nth)

lemma snp_claims_by_layout_eq:
  assumes "1184 \<le> length bs"
  shows "snp_claims_of bs e = snp_claims_by_layout bs e"
  unfolding snp_claims_of_def snp_claims_by_layout_def byte_member_def snp_report_members snp_signature_members
    snp_signature_offset_def
  using assms by (simp add: tcb_version_by_layout_eq sub_1_nth sub_sub)

end
