(* ===== verification/SevProps.thy ===== *)
theory SevProps
  imports SevExample ClaimsJson SevLayout
begin

text \<open>The properties of the SEV-SNP and container-instance verifiers.\<close>

text \<open>
  C2.  What \<open>sev_snp::Attestation::verify\<close> has established when it returns claims: OpenSSL accepted a
  chain of three certificates against the store it was given, its root is a CA with AMD's key when
  the option asks for it, the leaf's key has signed all but the last 512 bytes of the evidence, and the
  claims are the fields of that evidence.
\<close>

theorem snp_verify_sound:
  assumes "snp_verify ssl ev en opts rs = Inr claims"
  shows "\<exists>e store0 tr store chain fin.
     snp_gather_endorsements ssl en opts rs = Inr e \<and> snp_store ssl e = Inr (store0, tr)
   \<and> verify_certificate_chain ssl (ee_vcek_certificate_chain e) store0 (certificate_verification opts) tr
       (verbosity opts) 4 = Inr (store, chain)
   \<and> vcek_chain_accepted ssl chain opts \<and> report_signed ssl ev (chain ! 0)
   \<and> claims = snp_claims_of ev fin"
  using snp_verify_Inr[OF assms] unfolding snp_claims_of_take by blast

lemma snp_verify_sound_witness:
  "\<exists>vcek. report_signed ex_snp_ssl ex_snp_report vcek"
  using ex_snp_verifies[of None] snp_verify_sound[of ex_snp_ssl ex_snp_report "[1]" default_options None] by blast

text \<open>
  Two pieces of evidence with the same size, the same signed message and the same signature are both
  accepted or both refused.
\<close>

definition same_signed :: "bytes \<Rightarrow> bytes \<Rightarrow> bool" where
  "same_signed ev ev' \<longleftrightarrow> length ev' = length ev \<and> take (length ev - 512) ev' = take (length ev - 512) ev
     \<and> sub 0x2A0 72 ev' = sub 0x2A0 72 ev \<and> sub 0x2E8 72 ev' = sub 0x2E8 72 ev"

lemma snp_verify_same_signed:
  assumes "snp_verify ssl ev en opts rs = Inr claims" and "same_signed ev ev'"
  shows "\<exists>fin. claims = snp_claims_of ev fin \<and> snp_verify ssl ev' en opts rs = Inr (snp_claims_of ev' fin)"
proof -
  from snp_verify_Inr[OF assms(1)] have l: "816 \<le> length ev" by (auto simp: report_signed_def)
  note s = assms(2)[unfolded same_signed_def]
  have "take 304 (take (length ev - 512) ev') = take 304 (take (length ev - 512) ev)" using s by simp
  then have "take 304 ev' = take 304 ev" using l by (simp add: take_take min_absorb1)
  then have "sub 0x34 4 ev' = sub 0x34 4 ev" by (rule sub_prefix) simp
  moreover have "peek ev' 672 72 = peek ev 672 72" "peek ev' 744 72 = peek ev 744 72"
    using s l by (simp_all add: peek_def sub_def)
  ultimately have c: "check_report_signature ssl ev' vcek = check_report_signature ssl ev vcek" for vcek
    using s l by (simp add: check_report_signature_def peek_le_if snp_signature_offset_def snp_signature_size_def)
  have p: "peek x 0 816 = Inr (take 816 x)" if "816 \<le> length x" for x using that by (simp add: peek_def)
  have m: "\<exists>fin. c = snp_claims_of ev fin \<and> snp_make_claims ssl ev' e = Inr (snp_claims_of ev' fin)"
    if "snp_make_claims ssl ev e = Inr c" for c e
    using that s l p[of ev] p[of ev']
    by (auto simp: snp_make_claims_def snp_signature_offset_def snp_claims_of_take split: option.splits)
  from assms(1) obtain e store0 tr store chain vcek e' where
    "snp_gather_endorsements ssl en opts rs = Inr e"
    "logged (0 < verbosity opts) (snp_endorsements_to_string ssl e (verbosity opts) 0) (Inr ()) = Inr ()"
    "snp_store ssl e = Inr (store0, tr)"
    "verify_certificate_chain ssl (ee_vcek_certificate_chain e) store0 (certificate_verification opts) tr
       (verbosity opts) 4 = Inr (store, chain)"
    "check_vcek_chain ssl chain opts = Inr ()" "stack_at chain 0 = Inr vcek"
    "check_report_signature ssl ev vcek = Inr ()"
    "(if tr then andthen (stack_at chain 2) (\<lambda>ark. Inr (e\<lparr>ee_root_ca_certificate := Some ark\<rparr>)) else Inr e) = Inr e'"
    "snp_make_claims ssl ev e' = Inr claims"
    unfolding snp_verify_def andthen_Inr logged_Inr by (auto simp: andthen_Inr logged_Inr)
  with m[of e' claims] show ?thesis
    unfolding snp_verify_def andthen_Inr logged_Inr by (auto simp: andthen_Inr logged_Inr c)
qed

lemma snp_claims_of_prefix:
  assumes "take 504 a = take 504 b" and "sub 0x2A0 72 a = sub 0x2A0 72 b" and "sub 0x2E8 72 a = sub 0x2E8 72 b"
  shows "snp_claims_of a e = snp_claims_of b e"
  using assms(2,3) unfolding snp_claims_of_def snp_signature_offset_def
  by (simp add: sub_prefix[OF assms(1)] nth_prefix[OF assms(1)])

text \<open>
  C25.  The signature of a report covers all but the last 512 bytes of the evidence, whatever its size, which
  the verifier does not check: evidence that agrees with accepted evidence in its size, this message and
  the signature is accepted as well.  Its claims are the same, that is, the claims are signed, if and only
  if the evidence has at least 1016 bytes (a full report has 1184).
\<close>

theorem snp_claims_are_signed:
  assumes "snp_verify ssl ev en opts rs = Inr claims"
  shows "(\<exists>vcek pk. pkey_of_x509 ssl vcek = Inr pk
        \<and> snp_verify_signature ssl pk (take (length ev - 512) ev) (sub 0x2A0 72 ev) (sub 0x2E8 72 ev) = Inr True)
   \<and> (\<forall>ev'. same_signed ev ev' \<longrightarrow> is_ok (snp_verify ssl ev' en opts rs))
   \<and> ((\<forall>ev'. same_signed ev ev' \<longrightarrow> snp_verify ssl ev' en opts rs = Inr claims) \<longleftrightarrow> 1016 \<le> length ev)"
proof -
  from snp_verify_Inr[OF assms] obtain vcek where v: "report_signed ssl ev vcek" by blast
  then have l: "816 \<le> length ev" by (simp add: report_signed_def)
  have "snp_verify ssl ev' en opts rs = Inr claims" if big: "1016 \<le> length ev" and same: "same_signed ev ev'" for ev'
  proof -
    obtain fin where fin: "claims = snp_claims_of ev fin" "snp_verify ssl ev' en opts rs = Inr (snp_claims_of ev' fin)"
      using snp_verify_same_signed[OF assms same] by blast
    note s = same[unfolded same_signed_def]
    have "take 504 (take (length ev - 512) ev') = take 504 (take (length ev - 512) ev)" using s by simp
    then have "take 504 ev' = take 504 ev" using big by (simp add: take_take min_absorb1)
    with s fin snp_claims_of_prefix[of ev' ev fin] show ?thesis by simp
  qed
  moreover have "\<exists>ev'. same_signed ev ev' \<and> snp_verify ssl ev' en opts rs \<noteq> Inr claims" if "length ev < 1016"
  proof -
    let ?e = "ev[503 := ev ! 503 + 1]"
    have "take (length ev - 512) ?e = take (length ev - 512) ev" using that by simp
    then have s: "same_signed ev ?e" by (simp add: same_signed_def sub_def)
    obtain fin where fin: "claims = snp_claims_of ev fin" "snp_verify ssl ?e en opts rs = Inr (snp_claims_of ?e fin)"
      using snp_verify_same_signed[OF assms s] by blast
    have m: "microcode (sn_launch_tcb (snp_claims_of x fin)) = x ! 503" if "504 \<le> length x" for x
      using that by (simp add: snp_claims_of_def snp_tcb_version_of_def sub_def)
    have "ev ! 503 + 1 \<noteq> ev ! 503" by simp
    then have "snp_claims_of ?e fin \<noteq> claims" using m[of ev] m[of ?e] l fin(1) by auto
    with s fin(2) show ?thesis by auto
  qed
  moreover have "is_ok (snp_verify ssl ev' en opts rs)" if "same_signed ev ev'" for ev'
    using snp_verify_same_signed[OF assms that] by (auto simp: is_ok_iff)
  ultimately show ?thesis using v unfolding report_signed_def by (meson not_le)
qed

lemma snp_claims_are_signed_witness:
  "\<exists>claims. snp_verify ex_snp_ssl ex_snp_report [1] default_options None = Inr claims
     \<and> (\<forall>ev'. same_signed ex_snp_report ev' \<longrightarrow> snp_verify ex_snp_ssl ev' [1] default_options None = Inr claims)"
proof -
  obtain e where v: "snp_verify ex_snp_ssl ex_snp_report [1] default_options None = Inr (snp_claims_of ex_snp_report e)"
    using ex_snp_verifies by blast
  have "1016 \<le> length ex_snp_report" by (simp add: ex_snp_report_fields(1))
  with snp_claims_are_signed[OF v] v show ?thesis by blast
qed

text \<open>
  A root certificate given in the options has no influence when the endorsements are downloaded:
  the verification runs on the root that came with the download, as if none had been given.
\<close>

theorem snp_custom_root_ignored:
  assumes "x509_of ssl (bytes_of pem) True = Inr x" and "root_ca_certificate opts = Some pem"
    and "en = [] \<or> fresh_endorsements opts"
  shows "snp_verify ssl ev en opts rs = snp_verify ssl ev en (opts\<lparr>root_ca_certificate := None\<rparr>) rs"
proof -
  have "check_vcek_chain ssl chain (opts\<lparr>root_ca_certificate := None\<rparr>) = check_vcek_chain ssl chain opts" for chain
    by (simp add: check_vcek_chain_def)
  with snp_gather_fresh_root[OF assms] show ?thesis by (simp add: snp_verify_def)
qed

lemma snp_custom_root_ignored_witness:
  "snp_verify ex_snp_ssl ex_snp_report [] (default_options\<lparr>root_ca_certificate := Some ''pinned''\<rparr>) (Some []) =
   snp_verify ex_snp_ssl ex_snp_report [] (default_options\<lparr>root_ca_certificate := None\<rparr>) (Some [])"
proof -
  have "x509_of ex_snp_ssl (bytes_of ''pinned'') True = Inr 5"
    by (simp add: x509_of_def x509_read_def ex_snp_ssl_def ex_ssl_def)
  from snp_custom_root_ignored[OF this, of "default_options\<lparr>root_ca_certificate := Some ''pinned''\<rparr>"]
  show ?thesis by simp
qed

text \<open>
  The endorsements of a fresh download (no cache) are made of the answers to the requests made for
  them: the chip's certificate, the product's chain and its revocation list, all with status 200.
\<close>

theorem snp_download_fills_endorsements:
  assumes "sev_snp_endorsement_cache_url_template opts = None"
    and "download_endorsements vformat product chip tcb opts = Inr qs"
    and "parse_url_responses ssl opts (map answer qs) = Inr e"
  shows "\<exists>vcek stack crl. (\<forall>q \<in> set qs. status (answer q) = 200)
     \<and> x509_of ssl (bytes_of (body (answer (http_request (vcek_url product (to_hex chip) (snp_tcb_version_of tcb)))))) False = Inr vcek
     \<and> stack_of_pem ssl (bytes_of (body (answer (http_request (vcek_issuer_chain_url product))))) = Inr stack
     \<and> crl_of ssl (bytes_of (body (answer (http_request (vcek_issuer_crl_url product))))) False = Inr crl
     \<and> length stack = 2
     \<and> e = \<lparr>ee_root_ca_certificate = Some (stack ! 1), ee_vcek_certificate_chain = vcek # stack,
            ee_vcek_issuer_chain_crl = Some crl\<rparr>"
proof -
  have qs: "qs = [http_request (vcek_url product (to_hex chip) (snp_tcb_version_of tcb)),
      http_request (vcek_issuer_chain_url product), http_request (vcek_issuer_crl_url product)]"
    using assms(1,2) by (simp add: download_endorsements_def Let_def)
  from parse_url_responses_Inr[OF assms(3,1)] show ?thesis
    by (auto simp: qs numeral_2_eq_2)
qed

lemma snp_download_fills_endorsements_witness:
  "\<exists>stack. length stack = (2 :: nat) \<and> stack_of_pem ex_snp_ssl [] = Inr stack"
proof -
  let ?answer = "\<lambda>_ :: HTTPRequest. \<lparr>status = 200, headers = [], body = ''answer''\<rparr>"
  let ?qs = "[http_request (vcek_url ''Milan'' (to_hex []) (snp_tcb_version_of [0])),
      http_request (vcek_issuer_chain_url ''Milan''), http_request (vcek_issuer_crl_url ''Milan'')]"
  have t: "sev_snp_endorsement_cache_url_template default_options = None" by (simp add: default_options_def)
  have d: "download_endorsements vf ''Milan'' [] [0] default_options = Inr ?qs" for vf
    using t by (simp add: download_endorsements_def)
  obtain e where "parse_url_responses ex_snp_ssl default_options (map ?answer ?qs) = Inr e"
    by (simp add: parse_url_responses_def default_options_def stack_of_pem_def x509_of_def x509_read_def
        crl_of_def stack_at_def throw_if_def) (simp add: ex_snp_ssl_def ex_ssl_def)
  from snp_download_fills_endorsements[OF t d this] show ?thesis
    by (auto simp: stack_of_pem_def ex_snp_ssl_def ex_ssl_def)
qed

text \<open>
  C3.  What the verification of a container instance adds to that of its report: a statement about the
  utility VM with an RSA signature under the key its DID document gives for the issuer, whose JSON
  payload names the report's measurement, and whose issuer and feed are those of a root of trust.
\<close>

theorem aci_verify_sound:
  assumes "aci_verify ssl cose parse ev en uvm opts rs = Inr claims"
  shows "snp_verify ssl ev en opts rs = Inr claims
   \<and> (\<exists>phdr payload j svn. uvm_statement_signed ssl cose parse uvm phdr payload
        \<and> ph_content_type phdr = ''application/json'' \<and> is_rsa_alg (ph_alg phdr)
        \<and> parse (string_of payload) = Inr j
        \<and> uvm_payload_from_json j = Inr (svn, to_hex (sn_measurement claims))
        \<and> (\<exists>root \<in> set uvm_roots_of_trust. uvm_did root = ph_iss phdr \<and> uvm_feed root = ph_feed phdr))"
proof -
  from assms obtain e where v: "snp_verify ssl ev en opts rs = Inr claims"
    "verify_uvm_endorsements ssl cose parse uvm (sn_measurement claims) = Inr e"
    by (auto simp: aci_verify_Inr is_ok_iff)
  show ?thesis
  proof (rule verify_uvm_endorsements_Inr[OF v(2)], goal_cases)
    case (1 phdr payload j)
    then obtain root where "root \<in> set uvm_roots_of_trust" "uvm_did root = ph_iss phdr" "uvm_feed root = ph_feed phdr"
      unfolding matches_uvm_roots_of_trust_def matches_root_iff by auto
    with 1 v(1) show ?case
      by (intro conjI exI[of _ phdr] exI[of _ payload] exI[of _ j] exI[of _ "uvm_svn e"] bexI[of _ root]) simp_all
  qed
qed

lemma aci_verify_sound_witness:
  "\<exists>phdr payload. uvm_statement_signed ex_snp_ssl ex_cose ex_uvm_parse [] phdr payload"
  using ex_aci_verifies[of "[]" None]
    aci_verify_sound[of ex_snp_ssl ex_cose ex_uvm_parse ex_snp_report "[1]" "[]" default_options None]
  by blast

text \<open>
  The security version of the utility VM is compared as a text: with the roots of trust of the
  code (version 0) every non-empty version whose first character is not below the digit 0 passes, so
  that the comparison never refuses a number.
\<close>

theorem uvm_svn_is_text:
  "matches_uvm_roots_of_trust e \<longleftrightarrow>
     (\<exists>root \<in> set uvm_roots_of_trust. uvm_did root = uvm_did e \<and> uvm_feed root = uvm_feed e)
     \<and> uvm_svn e \<noteq> [] \<and> 48 \<le> (of_char (hd (uvm_svn e)) :: nat)"
proof -
  have "uvm_svn root = ''0''" if "root \<in> set uvm_roots_of_trust" for root
    using that by (auto simp: uvm_roots_of_trust_def)
  then show ?thesis
    unfolding matches_uvm_roots_of_trust_def matches_root_iff by (metis string_le_digit_zero)
qed

text \<open>
  The claims of an accepted report of full size are the members of the packed structure
  \<open>snp::Attestation\<close>, each at the offset that the sizes of the members before it give; the structure has
  1184 bytes, and the message whose signature is checked is what precedes its last member.
\<close>

theorem snp_claims_follow_layout:
  assumes "snp_verify ssl ev en opts rs = Inr claims" and "length ev = layout_size snp_report_layout"
  shows "length ev = 1184 \<and> (\<exists>fin. claims = snp_claims_by_layout ev fin)
     \<and> (\<exists>vcek pk. pkey_of_x509 ssl vcek = Inr pk
          \<and> snp_verify_signature ssl pk (take (layout_offset snp_report_layout ''signature'') ev)
              (sn_signature_r claims) (sn_signature_s claims) = Inr True)"
proof -
  from snp_verify_Inr[OF assms(1)] obtain vcek fin where v: "report_signed ssl ev vcek"
    and c: "claims = snp_claims_of ev fin" unfolding snp_claims_of_take by blast
  have l: "length ev = 1184" using assms(2) by (simp add: layout_sizes)
  have o: "layout_offset snp_report_layout ''signature'' = 672" by (simp add: snp_report_layout_def layout_sizes)
  have "claims = snp_claims_by_layout ev fin" unfolding c by (rule snp_claims_by_layout_eq) (simp add: l)
  moreover have "sn_signature_r claims = sub 0x2A0 72 ev" "sn_signature_s claims = sub 0x2E8 72 ev"
    unfolding c by (simp_all add: snp_claims_of_def snp_signature_offset_def)
  ultimately show ?thesis using v l o unfolding report_signed_def by auto
qed

lemma snp_claims_follow_layout_witness:
  "\<exists>e fin. snp_claims_of ex_snp_report e = snp_claims_by_layout ex_snp_report fin"
proof -
  obtain e where "snp_verify ex_snp_ssl ex_snp_report [1] default_options None = Inr (snp_claims_of ex_snp_report e)"
    using ex_snp_verifies by blast
  moreover have "length ex_snp_report = layout_size snp_report_layout"
    by (simp add: ex_snp_report_fields(1) layout_sizes)
  ultimately show ?thesis using snp_claims_follow_layout by blast
qed

end
