(* ===== verification/ClaimsText.thy ===== *)
theory ClaimsText
  imports ClaimsJson
begin

text \<open>
  The texts of the claims: \<open>Claims::to_json\<close> of the three classes, \<open>sgx::Claims::to_cbor\<close>, and the
  serializer for the pointer that Open Enclave claims hold.  The vendored library's \<open>dump\<close> and \<open>to_cbor\<close>
  are parameters.
\<close>

section \<open>The pointer to SGX claims\<close>

definition sgx_claims_pointer_to_json :: "sgx_claims option \<Rightarrow> json" where
  "sgx_claims_pointer_to_json x = (case x of None \<Rightarrow> J_Null | Some c \<Rightarrow> sgx_claims_to_json c)"

definition sgx_claims_pointer_from_json :: "json \<Rightarrow> sgx_claims option result" where
  "sgx_claims_pointer_from_json j = andthen (sgx_claims_from_json j) (\<lambda>c. Inr (Some c))"

text \<open>A pointer is read back if it is not null; a null pointer is written but never read.\<close>

lemma sgx_claims_pointer_roundtrip:
  "sgx_claims_wf c \<Longrightarrow> sgx_claims_pointer_from_json (sgx_claims_pointer_to_json (Some c)) = Inr (Some c)"
  by (simp add: sgx_claims_pointer_from_json_def sgx_claims_pointer_to_json_def sgx_claims_roundtrip)

lemma null_sgx_claims_not_read:
  "sgx_claims_pointer_from_json (sgx_claims_pointer_to_json None) = Inl json_type_error"
  by (simp add: sgx_claims_pointer_from_json_def sgx_claims_pointer_to_json_def sgx_claims_from_json_def
      json_field_def json_at_def)

lemma oe_claims_to_json_pointer:
  "oe_claims_to_json x = J_Object [(''sgx_claims'', sgx_claims_pointer_to_json (Some (oc_sgx_claims x))),
     (''custom_claims'', custom_claims_to_json (oc_custom_claims x))]"
  by (simp add: oe_claims_to_json_def sgx_claims_pointer_to_json_def)

section \<open>Texts\<close>

type_synonym json_dump = "json \<Rightarrow> string result"

definition sgx_claims_text :: "json_dump \<Rightarrow> sgx_claims \<Rightarrow> string result" where
  "sgx_claims_text dump c = dump (sgx_claims_to_json c)"

definition sgx_claims_cbor :: "(json \<Rightarrow> bytes) \<Rightarrow> sgx_claims \<Rightarrow> bytes" where
  "sgx_claims_cbor to_cbor c = (let j = sgx_claims_to_json c in to_cbor j)"

definition snp_claims_text :: "json_dump \<Rightarrow> snp_claims \<Rightarrow> string result" where
  "snp_claims_text dump c = dump (snp_claims_to_json c)"

definition oe_claims_text :: "json_dump \<Rightarrow> oe_claims \<Rightarrow> string result" where
  "oe_claims_text dump c = dump (oe_claims_to_json c)"

text \<open>The virtual function \<open>to_json\<close>.\<close>

fun claims_text :: "json_dump \<Rightarrow> any_claims \<Rightarrow> string result" where
  "claims_text dump (Sgx_Claims c) = sgx_claims_text dump c"
| "claims_text dump (Snp_Claims c) = snp_claims_text dump c"
| "claims_text dump (Oe_Claims c) = oe_claims_text dump c"

section \<open>Which claims have a text\<close>

text \<open>
  \<open>dump\<close> throws when a string of the value, keys included, is not UTF-8; texts of ASCII characters are.
\<close>

primrec json_strings :: "json \<Rightarrow> string list" where
  "json_strings J_Null = []"
| "json_strings (J_Bool b) = []"
| "json_strings (J_Int i) = []"
| "json_strings (J_Float f) = []"
| "json_strings (J_String s) = [s]"
| "json_strings (J_Array xs) = concat (map json_strings xs)"
| "json_strings (J_Object m) = concat (map (\<lambda>(k, s). k # s) (map (map_prod id json_strings) m))"
| "json_strings (J_Binary b) = []"

definition dump_law :: "(string \<Rightarrow> bool) \<Rightarrow> json_dump \<Rightarrow> bool" where
  "dump_law utf8 dump \<longleftrightarrow> (\<forall>j. is_ok (dump j) \<longleftrightarrow> list_all utf8 (json_strings j))
     \<and> (\<forall>s. list_all (\<lambda>c. \<not> digit7 c) s \<longrightarrow> utf8 s)"

text \<open>The strings among the claims: the texts of the endorsements, and the names of the custom claims.\<close>

definition sgx_claims_strings :: "sgx_claims \<Rightarrow> string list" where
  "sgx_claims_strings c = (let e = the (q_endorsements c) in
     [e_root_ca e, e_pck_crl_issuer_chain e, e_root_ca_crl e, e_pck_crl e, e_tcb_info_issuer_chain e,
      e_tcb_info e, e_qe_identity_issuer_chain e, e_qe_identity e])"

fun claims_strings :: "any_claims \<Rightarrow> string list" where
  "claims_strings (Sgx_Claims c) = sgx_claims_strings c"
| "claims_strings (Snp_Claims c) = (let e = sn_endorsements c in
     [se_root_ca_certificate e, se_vcek_certificate_chain e]
       @ (case se_vcek_issuer_chain_crl e of None \<Rightarrow> [] | Some s \<Rightarrow> [s]))"
| "claims_strings (Oe_Claims c) = sgx_claims_strings (oc_sgx_claims c) @ map fst (oc_custom_claims c)"

lemma json_strings_bytes [simp]: "json_strings (json_of_bytes b) = []"
  by (simp add: json_of_bytes_def)

lemma json_strings_word [simp]: "json_strings (json_of_word w) = []"
  by (simp add: json_of_word_def)

lemma json_strings_custom: "json_strings (custom_claims_to_json m) = map fst m"
  by (induction m) (auto simp: custom_claims_to_json_def)

lemma ascii_utf8: "dump_law utf8 dump \<Longrightarrow> list_all (\<lambda>c. \<not> digit7 c) s \<Longrightarrow> utf8 s"
  by (simp add: dump_law_def)

lemma sgx_claims_dumps:
  assumes "dump_law utf8 dump"
  shows "list_all utf8 (json_strings (sgx_claims_to_json c)) \<longleftrightarrow> list_all utf8 (sgx_claims_strings c)"
  using assms
  by (simp add: sgx_claims_to_json_def sgx_endorsements_to_json_def sgx_signature_to_json_def
      report_body_to_json_def report_attributes_to_json_def sgx_claims_strings_def Let_def ascii_utf8[OF assms])

lemma snp_claims_dumps:
  assumes "dump_law utf8 dump"
  shows "list_all utf8 (json_strings (snp_claims_to_json c)) \<longleftrightarrow> list_all utf8 (claims_strings (Snp_Claims c))"
  by (simp add: snp_claims_to_json_def snp_endorsements_to_json_def snp_signature_to_json_def
      tcb_version_to_json_def json_of_string_opt_def Let_def ascii_utf8[OF assms] split: option.split)

lemma claims_text_ok:
  assumes "dump_law utf8 dump"
  shows "is_ok (claims_text dump c) \<longleftrightarrow> list_all utf8 (claims_strings c)"
proof -
  have d: "is_ok (dump j) \<longleftrightarrow> list_all utf8 (json_strings j)" for j
    using assms by (simp add: dump_law_def)
  show ?thesis
    by (cases c) (simp_all add: sgx_claims_text_def snp_claims_text_def oe_claims_text_def d
        sgx_claims_dumps[OF assms] snp_claims_dumps[OF assms] oe_claims_to_json_def json_strings_custom
        ascii_utf8[OF assms] del: claims_strings.simps(2))
qed

end
