(* ===== verification/TrackerSteps.thy ===== *)
theory TrackerSteps
  imports Tracker
begin

text \<open>
  The tracker as a step relation.  Its users, on any thread, submit requests, advance and erase them;
  clients deliver answers; the callbacks of finished requests do the same again, from within the step that
  runs them, and may throw.  A step is one such operation with all that is nested in it.  The interface
  \<open>tracker_evolution\<close> carries a relation on trackers from the single assignments to whole steps; it
  is interpreted with the invariant of the claims and with the order of a request's states.
\<close>

section \<open>Operations on a tracker\<close>

text \<open>
  One operation, given the \<open>advance\<close> that it calls.  Answers arrive for any request at any time, and the
  clients change by themselves.
\<close>

inductive tracker_call ::
  "bool \<Rightarrow> (HTTPRequestSetId \<Rightarrow> 'c \<Rightarrow> 'c) \<Rightarrow> ('a, 'cb, 'c) advance_fun \<Rightarrow>
   ('a, 'cb, 'c) tracker \<Rightarrow> ('a, 'cb, 'c) tracker \<Rightarrow> bool" for erasing er adv where
  Submit: "submit_by adv opts a has_client cb s = (s', r) \<Longrightarrow> tracker_call erasing er adv s s'"
| Advance: "advance_id adv i s = (s', r) \<Longrightarrow> tracker_call erasing er adv s s'"
| Deliver: "on_responses adv i out s = (s', r) \<Longrightarrow> tracker_call erasing er adv s s'"
| Client: "tracker_call erasing er adv s (s\<lparr>tr_client := c\<rparr>)"
| Erase: "erasing \<Longrightarrow> tracker_call erasing er adv s (erase_request er i s)"

inductive_cases tracker_call_cases: "tracker_call erasing er adv s s'"

lemma tracker_call_erase:
  "tracker_call True er adv s s' \<Longrightarrow> tracker_call False er adv s s' \<or> (\<exists>i. s' = erase_request er i s)"
  by (auto elim!: tracker_call_cases intro: tracker_call.intros)

text \<open>
  A callback is a program over these operations, nested in the transition that runs it; how it ends,
  by returning or by throwing, is not restricted.  While it runs, other threads may do the same.
\<close>

definition callback_law ::
  "bool \<Rightarrow> (HTTPRequestSetId \<Rightarrow> 'c \<Rightarrow> 'c) \<Rightarrow> ('a, 'cb, 'c) run_fun \<Rightarrow> bool" where
  "callback_law erasing er run \<longleftrightarrow>
     (\<forall>cb adv i s. (tracker_call erasing er adv)\<^sup>*\<^sup>* s (fst (run cb adv i s)))"

text \<open>
  A client touches the tracker by calling the callback that it is given, any number of times, with any
  answers: not at all within \<open>submit\<close> when it is asynchronous, once when it is synchronous.
\<close>

definition client_law :: "('a, 'cb, 'c) submit_fun \<Rightarrow> bool" where
  "client_law submit \<longleftrightarrow> (\<forall>rs cb c s c' s' r. submit rs cb c s = (c', s', r) \<longrightarrow>
     (\<lambda>s s'. \<exists>out r. cb out s = (s', r))\<^sup>*\<^sup>* s s')"

text \<open>A step is one operation, to any depth of nested calls.\<close>

definition tracker_step ::
  "('a, 'cb, 'c) submit_fun \<Rightarrow> ('a, 'cb, 'c) run_fun \<Rightarrow> (HTTPRequestSetId \<Rightarrow> 'c \<Rightarrow> 'c) \<Rightarrow>
   ('a, 'cb, 'c) tracker \<Rightarrow> ('a, 'cb, 'c) tracker \<Rightarrow> bool" where
  "tracker_step submit run er s s' \<longleftrightarrow> (\<exists>n. tracker_call True er (advance submit run n) s s')"

inductive reachable ::
  "('a, 'cb, 'c) submit_fun \<Rightarrow> ('a, 'cb, 'c) run_fun \<Rightarrow> (HTTPRequestSetId \<Rightarrow> 'c \<Rightarrow> 'c) \<Rightarrow>
   ('a, 'cb, 'c) tracker \<Rightarrow> bool" for submit run er where
  Start: "reachable submit run er (new_tracker c)"
| Step: "reachable submit run er s \<Longrightarrow> tracker_step submit run er s s' \<Longrightarrow> reachable submit run er s'"

section \<open>Clients and callbacks that keep the laws\<close>

text \<open>A client that answers later: it keeps the number of requests of each set.\<close>

definition queue_submit :: "('a, 'cb, nat list) submit_fun" where
  "queue_submit rs cb c s = (c @ [length rs], s, Inr (length c))"

lemma client_law_silent:
  assumes "\<And>rs cb c s. fst (snd (submit rs cb c s)) = s"
  shows "client_law submit"
  unfolding client_law_def
proof (intro allI impI)
  fix rs cb c s c' s' r
  assume "submit rs cb c s = (c', s', r)"
  with assms[of rs cb c s] have "s' = s" by simp
  then show "(\<lambda>s s'. \<exists>out r. cb out s = (s', r))\<^sup>*\<^sup>* s s'" by simp
qed

lemma client_law_queue: "client_law queue_submit"
  by (rule client_law_silent) (simp add: queue_submit_def)

lemma client_law_sync: "client_law (sync_submit exec)"
  unfolding client_law_def
proof (intro allI impI)
  fix rs cb c s c' s' r
  assume a: "sync_submit exec rs cb c s = (c', s', r)"
  have "s' = s \<or> (\<exists>out r. cb out s = (s', r))"
    using a by (auto simp: sync_submit_def Let_def split: prod.splits if_splits option.splits sum.splits)
  then show "(\<lambda>s s'. \<exists>out r. cb out s = (s', r))\<^sup>*\<^sup>* s s'"
    by (elim disjE) (auto intro: r_into_rtranclp)
qed

lemma callback_law_advance: "callback_law erasing er (advance_callback :: ('a, unit, 'c) run_fun)"
  unfolding callback_law_def
proof (intro allI)
  fix cb :: unit and adv :: "('a, unit, 'c) advance_fun" and i s
  obtain s' r where "advance_id adv i s = (s', r)" by force
  moreover from this have "fst (advance_callback cb adv i s) = s'"
    by (simp add: advance_callback_def split: sum.split)
  ultimately show "(tracker_call erasing er adv)\<^sup>*\<^sup>* s (fst (advance_callback cb adv i s))"
    by (auto intro: tracker_call.intros)
qed

text \<open>A callback that throws at once.\<close>

definition throwing_callback :: "('a, 'cb, 'c) run_fun" where
  "throwing_callback cb adv i s = (s, Inl (Runtime_Error ''callback''))"

lemma callback_law_throwing: "callback_law erasing er throwing_callback"
  by (simp add: callback_law_def throwing_callback_def)

section \<open>From assignments to steps\<close>

text \<open>
  \<open>whole\<close> relates the trackers before and after an operation, \<open>within i\<close> those before and after a part of
  a transition of request \<open>i\<close>, which may pass through states that no operation ends in.
\<close>

locale tracker_evolution =
  fixes whole :: "('a, 'cb, 'c) tracker \<Rightarrow> ('a, 'cb, 'c) tracker \<Rightarrow> bool"
    and within :: "RequestID \<Rightarrow> ('a, 'cb, 'c) tracker \<Rightarrow> ('a, 'cb, 'c) tracker \<Rightarrow> bool"
    and erasing :: bool
    and er :: "HTTPRequestSetId \<Rightarrow> 'c \<Rightarrow> 'c"
  assumes whole_frame: "tr_requests t = tr_requests s \<Longrightarrow> whole s t"
    and whole_trans: "whole s t \<Longrightarrow> whole t u \<Longrightarrow> whole s u"
    and whole_within: "whole s t \<Longrightarrow> within i s t"
    and within_trans: "within i s t \<Longrightarrow> within i t u \<Longrightarrow> within i s u"
    and within_whole: "within i s t \<Longrightarrow> find_request i s = Some rq \<Longrightarrow> rq_state rq < FINISHED \<Longrightarrow> whole s t"
    and state_within: "find_request i s = Some rq \<Longrightarrow> rq_state rq \<le> st \<Longrightarrow> st \<noteq> FINISHED \<Longrightarrow>
      within i s (set_state i st s)"
    and set_id_within: "find_request i s = Some rq \<Longrightarrow>
      within i s (put_request i (rq\<lparr>rq_http_request_set_id := k\<rparr>) s)"
    and finish_within: "find_request i s = Some rq \<Longrightarrow> rq_state rq = HAVE_ENDORSEMENTS \<Longrightarrow>
      rq_attestation rq = Some a \<Longrightarrow> att_verify a (rq_options rq) (Some out) = Inr cl \<Longrightarrow>
      within i s (put_request i (rq\<lparr>rq_state := FINISHED, rq_claims := Some cl\<rparr>) s)"
    and enqueue_whole: "find_request (next_request_id s) s = None \<Longrightarrow> rq_state rq = SUBMITTED \<Longrightarrow>
      whole s (enqueue rq s)"
    and erase_whole: "erasing \<Longrightarrow> whole s (erase_request er i s)"
begin

lemma whole_refl: "whole s s"
  by (rule whole_frame) (rule refl)

lemma whole_steps: "(\<And>s t. R s t \<Longrightarrow> whole s t) \<Longrightarrow> R\<^sup>*\<^sup>* s t \<Longrightarrow> whole s t"
  by (rotate_tac, induction rule: rtranclp_induct) (auto intro: whole_refl whole_trans)

text \<open>A function that may stand for a nested \<open>advance\<close>.\<close>

definition keeps :: "('a, 'cb, 'c) advance_fun \<Rightarrow> bool" where
  "keeps adv \<longleftrightarrow> (\<forall>i s. whole s (fst (adv i s)))"

lemma keepsD: "keeps adv \<Longrightarrow> adv i s = (t, r) \<Longrightarrow> whole s t"
  unfolding keeps_def by (metis fst_conv)

lemma keeps_advance_id: "keeps adv \<Longrightarrow> advance_id adv i s = (t, r) \<Longrightarrow> whole s t"
  by (auto simp: advance_id_def intro: whole_refl dest: keepsD split: option.splits)

lemma keeps_on_responses:
  assumes k: "keeps adv" and r: "on_responses adv i out s = (t, r)"
  shows "whole s t"
proof (cases "emplace i out (http_responses s)")
  case (Pair m b)
  let ?s = "s\<lparr>http_responses := m\<rparr>"
  obtain s1 r1 where 1: "advance_id adv i ?s = (s1, r1)" by force
  obtain s2 r2 where 2: "advance_id adv i s1 = (s2, r2)" by force
  have "whole s ?s" by (rule whole_frame) simp
  with keeps_advance_id[OF k 1] have w1: "whole s s1" by (blast intro: whole_trans)
  with keeps_advance_id[OF k 2] have w2: "whole s s2" by (blast intro: whole_trans)
  from r Pair 1 2 have "t = s \<or> t = s1 \<or> t = s2"
    by (auto simp: on_responses_def split: bool.splits sum.splits)
  with w1 w2 whole_refl show ?thesis by auto
qed

lemma keeps_submit_by:
  assumes k: "keeps adv" and r: "submit_by adv opts a has_client cb s = (t, r)"
  shows "whole s t"
proof (cases "find_request (next_request_id s) s")
  case None
  let ?rq = "\<lparr>rq_state = SUBMITTED, rq_options = opts, rq_attestation = a, rq_claims = None,
     rq_has_client = has_client, rq_callback = cb, rq_http_request_set_id = None\<rparr>"
  obtain u v where v: "adv (next_request_id s) (enqueue ?rq s) = (u, v)" by force
  have "t = u"
    using r v None by (auto simp: submit_by_def Let_def emplace_def enqueue_def find_request_def split: sum.splits)
  moreover have "whole s (enqueue ?rq s)" by (rule enqueue_whole[OF None]) simp
  ultimately show ?thesis using keepsD[OF k v] whole_trans by blast
next
  case (Some rq)
  then have "t = s\<lparr>next_request_id := (next_request_id s + 1) mod size_max\<rparr>"
    using r by (auto simp: submit_by_def Let_def emplace_def find_request_def)
  then show ?thesis by (simp add: whole_frame)
qed

lemma keeps_call:
  assumes "keeps adv" and "tracker_call erasing er adv s t"
  shows "whole s t"
  using assms(2)
  by (cases rule: tracker_call.cases)
    (auto intro: keeps_submit_by[OF assms(1)] keeps_advance_id[OF assms(1)] keeps_on_responses[OF assms(1)]
      whole_frame erase_whole)

lemma keeps_client:
  assumes "client_law submit" and "keeps adv" and "submit rs (on_responses adv i) c s = (c', t, r)"
  shows "whole s t"
proof (rule whole_steps)
  show "(\<lambda>s s'. \<exists>out r. on_responses adv i out s = (s', r))\<^sup>*\<^sup>* s t"
    using assms(1,3) unfolding client_law_def by blast
  show "whole s t" if "\<exists>out r. on_responses adv i out s = (t, r)" for s t
    using that keeps_on_responses[OF assms(2)] by blast
qed

lemma within_prepare:
  assumes client: "client_law submit" and k: "keeps adv"
    and p: "prepare_request submit adv i rq s = (t, r)"
  shows "within i s t \<and> (r = Inr False \<longrightarrow> t = s)"
proof (cases "t = s")
  case True
  with whole_within[OF whole_refl] show ?thesis by blast
next
  case False
  with p obtain rs c s1 r1 where
    sub: "submit rs (on_responses adv i) (tr_client s) s = (c, s1, r1)"
    and t: "t = s1\<lparr>tr_client := c\<rparr> \<or> (\<exists>q k. find_request i s1 = Some q
       \<and> t = put_request i (q\<lparr>rq_http_request_set_id := k\<rparr>) (s1\<lparr>tr_client := c\<rparr>))"
    and r: "r \<noteq> Inr False"
    by (force simp: prepare_request_def split: option.splits sum.splits if_splits prod.splits)
  have "whole s1 (s1\<lparr>tr_client := c\<rparr>)" by (rule whole_frame) simp
  with keeps_client[OF client k sub] have w: "within i s (s1\<lparr>tr_client := c\<rparr>)"
    by (blast intro: whole_trans whole_within)
  have "within i (s1\<lparr>tr_client := c\<rparr>) (put_request i (q\<lparr>rq_http_request_set_id := l\<rparr>) (s1\<lparr>tr_client := c\<rparr>))"
    if "find_request i s1 = Some q" for q l
    by (rule set_id_within) (simp add: that)
  with w t r show ?thesis by (auto intro: within_trans)
qed

lemma within_verify:
  assumes f: "find_request i s = Some rq" and st: "rq_state rq = HAVE_ENDORSEMENTS"
    and v: "verify_request i rq s = (t, r)"
  shows "case r of Inl e \<Rightarrow> within i s t | Inr u \<Rightarrow> within i s (set_state i FINISHED t)"
proof (cases "rq_attestation rq")
  case None
  with v show ?thesis by (auto simp: verify_request_def intro!: whole_within[OF whole_refl])
next
  case (Some a)
  let ?out = "case map_find i (http_responses s) of None \<Rightarrow> [] | Some r \<Rightarrow> r"
  let ?s = "s\<lparr>http_responses := erase i (http_responses s)\<rparr>"
  have w: "within i s ?s" by (intro whole_within whole_frame) simp
  show ?thesis
  proof (cases "att_verify a (rq_options rq) (Some ?out)")
    case (Inl e)
    with v Some have "t = ?s" "\<exists>e'. r = Inl e'" by (auto simp: verify_request_def Let_def)
    with w show ?thesis by auto
  next
    case (Inr cl)
    let ?c = "rq\<lparr>rq_claims := Some cl\<rparr>" and ?d = "rq\<lparr>rq_state := FINISHED, rq_claims := Some cl\<rparr>"
    have t: "t = put_request i ?c ?s" "r = Inr ()" using v Some Inr by (auto simp: verify_request_def Let_def)
    have u: "?c\<lparr>rq_state := FINISHED\<rparr> = ?d" by (cases rq) simp
    have "find_request i (put_request i ?c ?s) = Some ?c" by simp
    from set_state_Some[OF this, of FINISHED] have e: "set_state i FINISHED t = put_request i ?d ?s"
      unfolding t put_put u .
    have "within i ?s (put_request i ?d ?s)" by (rule finish_within[OF _ st Some Inr]) (simp add: f)
    with w show ?thesis unfolding t(2) e by (auto intro: within_trans)
  qed
qed

lemma within_body:
  assumes client: "client_law submit" and callback: "callback_law erasing er run" and k: "keeps adv"
    and f: "find_request i s = Some rq" and b: "advance_body submit run adv i rq s = (t, r)"
  shows "within i s t"
proof (cases "rq_state rq")
  case SUBMITTED
  let ?w = "set_state i WAITING_FOR_ENDORSEMENTS s"
  have w: "within i s ?w"
    by (rule state_within[OF f]) (simp_all add: SUBMITTED less_eq_request_state_def)
  obtain s1 p where p: "prepare_request submit adv i rq ?w = (s1, p)" by force
  note m = within_prepare[OF client k p]
  show ?thesis
  proof (cases "p = Inr False")
    case True
    with m have s1: "s1 = ?w" by blast
    obtain s2 v where v: "adv i (set_state i HAVE_ENDORSEMENTS ?w) = (s2, v)" by force
    have "within i ?w (set_state i HAVE_ENDORSEMENTS ?w)"
      by (rule state_within[of _ _ "rq\<lparr>rq_state := WAITING_FOR_ENDORSEMENTS\<rparr>"])
        (simp_all add: f less_eq_request_state_def)
    with w have "within i s (set_state i HAVE_ENDORSEMENTS ?w)" by (rule within_trans)
    with whole_within[OF keepsD[OF k v]] have "within i s s2" by (blast intro: within_trans)
    moreover have "t = s2" using b SUBMITTED p True s1 v by (auto simp: advance_body_def split: sum.splits)
    ultimately show ?thesis by simp
  next
    case False
    then have "t = s1" using b SUBMITTED p by (auto simp: advance_body_def split: sum.splits bool.splits)
    with m w show ?thesis by (blast intro: within_trans)
  qed
next
  case WAITING_FOR_ENDORSEMENTS
  have "within i s (set_state i HAVE_ENDORSEMENTS s)"
    by (rule state_within[OF f]) (simp_all add: WAITING_FOR_ENDORSEMENTS less_eq_request_state_def)
  with b WAITING_FOR_ENDORSEMENTS show ?thesis by (auto simp: advance_body_def)
next
  case HAVE_ENDORSEMENTS
  obtain s1 v where v: "verify_request i rq s = (s1, v)" by force
  note w = within_verify[OF f HAVE_ENDORSEMENTS v]
  have "whole (set_state i FINISHED s1) (fst (run cb adv i (set_state i FINISHED s1)))" for cb
  proof (rule whole_steps)
    show "(tracker_call erasing er adv)\<^sup>*\<^sup>* (set_state i FINISHED s1) (fst (run cb adv i (set_state i FINISHED s1)))"
      using callback unfolding callback_law_def by blast
  qed (rule keeps_call[OF k])
  then have "within i (set_state i FINISHED s1) (fst (run cb adv i (set_state i FINISHED s1)))" for cb
    by (rule whole_within)
  moreover have "t = s1 \<and> (\<exists>e. v = Inl e) \<or> (\<exists>u. v = Inr u) \<and> (t = set_state i FINISHED s1
      \<or> (\<exists>cb r'. run cb adv i (set_state i FINISHED s1) = (t, r')))"
    using b HAVE_ENDORSEMENTS v by (auto simp: advance_body_def Let_def split: sum.splits option.splits)
  ultimately show ?thesis using w by (auto intro: within_trans) (metis fst_conv within_trans)
qed (use b in \<open>auto simp: advance_body_def intro!: whole_within[OF whole_refl]\<close>)

text \<open>A transition from a state in which the request is not finished passes through its handler.\<close>

lemma keeps_advance_step:
  assumes client: "client_law submit" and callback: "callback_law erasing er run" and k: "keeps adv"
  shows "keeps (advance_step submit run adv)"
  unfolding keeps_def
proof (intro allI)
  fix i s
  show "whole s (fst (advance_step submit run adv i s))"
  proof (cases "find_request i s")
    case None
    then show ?thesis by (simp add: advance_step_def whole_refl)
  next
    case f: (Some rq)
    obtain t r where b: "advance_body submit run adv i rq s = (t, r)" by force
    have e: "fst (advance_step submit run adv i s) = t
       \<or> (\<exists>q. find_request i t = Some q) \<and> fst (advance_step submit run adv i s) = set_state i ERROR t"
      by (auto simp: advance_step_def advance_end_def f b split: sum.split option.split)
    show ?thesis
    proof (cases "rq_state rq < FINISHED")
      case True
      have w: "within i s t" by (rule within_body[OF client callback k f b])
      have "within i t (set_state i ERROR t)" if "find_request i t = Some q" for q
        by (rule state_within[OF that]) (cases "rq_state q"; simp add: less_eq_request_state_def)+
      with e w have "within i s (fst (advance_step submit run adv i s))" by (auto intro: within_trans)
      then show ?thesis by (rule within_whole[OF _ f True])
    next
      case False
      then have "rq_state rq = FINISHED \<or> rq_state rq = ERROR"
        by (cases "rq_state rq") (simp_all add: less_request_state_def)
      then have "fst (advance_step submit run adv i s) = s"
        by (auto simp: advance_step_def advance_body_def f put_request_id)
      then show ?thesis by (simp add: whole_refl)
    qed
  qed
qed

lemma keeps_advance:
  assumes "client_law submit" and "callback_law erasing er run"
  shows "keeps (advance submit run n)"
proof (induction n)
  case 0
  show ?case by (simp add: keeps_def advance.simps whole_refl)
next
  case (Suc n)
  show ?case unfolding advance.simps by (rule keeps_advance_step[OF assms Suc])
qed

lemma whole_call:
  "client_law submit \<Longrightarrow> callback_law erasing er run \<Longrightarrow>
   tracker_call erasing er (advance submit run n) s t \<Longrightarrow> whole s t"
  by (rule keeps_call[OF keeps_advance])

end
section \<open>The claims of a finished request come out of its own attestation\<close>

definition claims_verified :: "('a, 'cb) tracked_request \<Rightarrow> bool" where
  "claims_verified rq \<longleftrightarrow> (rq_state rq = FINISHED \<longrightarrow>
     (\<exists>a out cl. rq_attestation rq = Some a \<and> att_verify a (rq_options rq) (Some out) = Inr cl
        \<and> rq_claims rq = Some cl))"

definition requests_ok :: "('a, 'cb, 'c) tracker \<Rightarrow> bool" where
  "requests_ok s \<longleftrightarrow> (\<forall>j rq. find_request j s = Some rq \<longrightarrow> claims_verified rq)"

lemma requests_ok_Some: "requests_ok s \<Longrightarrow> find_request j s = Some rq \<Longrightarrow> claims_verified rq"
  unfolding requests_ok_def by blast

lemma requests_ok_put: "requests_ok s \<Longrightarrow> claims_verified rq \<Longrightarrow> requests_ok (put_request i rq s)"
  unfolding requests_ok_def by auto

lemma find_enqueue:
  "find_request (next_request_id s) s = None \<Longrightarrow>
   find_request j (enqueue rq s) = (if j = next_request_id s then Some rq else find_request j s)"
  by (auto simp: enqueue_def find_request_def map_find_snoc split: option.split)

lemma find_erase_request:
  "find_request j (erase_request er i s) = (if j = i then None else find_request j s)"
  by (auto simp: erase_request_def Let_def find_request_def map_find_erase split: option.splits)

interpretation verified: tracker_evolution
    "\<lambda>s t. requests_ok s \<longrightarrow> requests_ok t" "\<lambda>i s t. requests_ok s \<longrightarrow> requests_ok t" erasing er for erasing er
proof unfold_locales
  fix s t :: "('a, 'b, 'c) tracker"
  assume "tr_requests t = tr_requests s"
  then show "requests_ok s \<longrightarrow> requests_ok t" by (simp add: requests_ok_def find_request_def)
next
  fix i st and s :: "('a, 'b, 'c) tracker" and rq :: "('a, 'b) tracked_request"
  assume "find_request i s = Some rq" "st \<noteq> FINISHED"
  then show "requests_ok s \<longrightarrow> requests_ok (set_state i st s)"
    by (auto simp: set_state_Some claims_verified_def intro!: requests_ok_put)
next
  fix i k and s :: "('a, 'b, 'c) tracker" and rq :: "('a, 'b) tracked_request"
  assume "find_request i s = Some rq"
  then show "requests_ok s \<longrightarrow> requests_ok (put_request i (rq\<lparr>rq_http_request_set_id := k\<rparr>) s)"
    using requests_ok_Some[of s i rq] by (auto simp: claims_verified_def intro!: requests_ok_put)
next
  fix s :: "('a, 'b, 'c) tracker" and rq :: "('a, 'b) tracked_request"
  assume "find_request (next_request_id s) s = None" "rq_state rq = SUBMITTED"
  then show "requests_ok s \<longrightarrow> requests_ok (enqueue rq s)"
    by (auto simp: requests_ok_def find_enqueue claims_verified_def)
next
  fix s :: "('a, 'b, 'c) tracker" and er i
  show "requests_ok s \<longrightarrow> requests_ok (erase_request er i s)"
    by (auto simp: requests_ok_def find_erase_request)
next
  fix i a out cl and s :: "('a, 'b, 'c) tracker" and rq :: "('a, 'b) tracked_request"
  assume "rq_attestation rq = Some a" "att_verify a (rq_options rq) (Some out) = Inr cl"
  then show "requests_ok s \<longrightarrow> requests_ok (put_request i (rq\<lparr>rq_state := FINISHED, rq_claims := Some cl\<rparr>) s)"
    using requests_ok_put[of s "rq\<lparr>rq_state := FINISHED, rq_claims := Some cl\<rparr>" i]
    by (auto simp: claims_verified_def)
qed blast+

lemma reachable_ok:
  assumes "client_law submit" and "callback_law True er run" and "reachable submit run er s"
  shows "requests_ok s"
  using assms(3)
proof (induction rule: reachable.induct)
  case (Start c)
  show ?case by (simp add: requests_ok_def find_request_def new_tracker_def)
next
  case (Step s s')
  then obtain n where "tracker_call True er (advance submit run n) s s'" unfolding tracker_step_def by blast
  from verified.whole_call[OF assms(1,2) this] Step.IH show ?case by blast
qed

section \<open>Requests only move forward\<close>

text \<open>
  Within a transition a request may be finished and then fail, when its callback throws; between two
  operations it does not.
\<close>

definition grows :: "('a, 'cb) tracked_request \<Rightarrow> ('a, 'cb) tracked_request \<Rightarrow> bool" where
  "grows rq rq' \<longleftrightarrow> rq_state rq \<le> rq_state rq' \<and> rq_attestation rq' = rq_attestation rq
     \<and> rq_options rq' = rq_options rq \<and> rq_callback rq' = rq_callback rq"

definition evolves :: "('a, 'cb) tracked_request \<Rightarrow> ('a, 'cb) tracked_request \<Rightarrow> bool" where
  "evolves rq rq' \<longleftrightarrow> grows rq rq' \<and> (rq_state rq = FINISHED \<longrightarrow> rq' = rq)
     \<and> (rq_state rq = ERROR \<longrightarrow> rq_state rq' = ERROR)"

lemma grows_refl [simp]: "grows rq rq" and evolves_refl [simp]: "evolves rq rq"
  by (simp_all add: grows_def evolves_def)

lemma grows_trans: "grows p q \<Longrightarrow> grows q r \<Longrightarrow> grows p r"
  unfolding grows_def by auto

lemma evolves_trans: "evolves p q \<Longrightarrow> evolves q r \<Longrightarrow> evolves p r"
  unfolding evolves_def by (auto intro: grows_trans)

lemma evolves_grows: "evolves p q \<Longrightarrow> grows p q"
  unfolding evolves_def by blast

lemma grows_evolves: "grows p q \<Longrightarrow> rq_state p < FINISHED \<Longrightarrow> evolves p q"
  unfolding evolves_def by (auto simp: less_request_state_def)

text \<open>Every entry is still there, and has moved by \<open>P\<close>, which may depend on its number.\<close>

definition entries_by ::
  "(RequestID \<Rightarrow> ('a, 'cb) tracked_request \<Rightarrow> ('a, 'cb) tracked_request \<Rightarrow> bool) \<Rightarrow>
   ('a, 'cb, 'c) tracker \<Rightarrow> ('a, 'cb, 'c) tracker \<Rightarrow> bool" where
  "entries_by P s t \<longleftrightarrow> (\<forall>j rq. find_request j s = Some rq \<longrightarrow> (\<exists>rq'. find_request j t = Some rq' \<and> P j rq rq'))"

abbreviation moved :: "RequestID \<Rightarrow> RequestID \<Rightarrow> ('a, 'cb) tracked_request \<Rightarrow> ('a, 'cb) tracked_request \<Rightarrow> bool" where
  "moved i j \<equiv> if j = i then grows else evolves"

lemma moved_trans: "moved i j p q \<Longrightarrow> moved i j q r \<Longrightarrow> moved i j p r"
  by (cases "j = i") (simp_all, erule (1) grows_trans, erule (1) evolves_trans)

lemma moved_evolves:
  "find_request i s = Some rq \<Longrightarrow> rq_state rq < FINISHED \<Longrightarrow> find_request j s = Some p \<Longrightarrow> moved i j p q \<Longrightarrow> evolves p q"
  by (cases "j = i") (simp_all add: grows_evolves)

lemma entries_by_mono: "entries_by P s t \<Longrightarrow> (\<And>j p q. find_request j s = Some p \<Longrightarrow> P j p q \<Longrightarrow> Q j p q) \<Longrightarrow> entries_by Q s t"
  unfolding entries_by_def by blast

lemma entries_by_trans:
  "entries_by P s t \<Longrightarrow> entries_by P t u \<Longrightarrow> (\<And>j p q r. P j p q \<Longrightarrow> P j q r \<Longrightarrow> P j p r) \<Longrightarrow> entries_by P s u"
  unfolding entries_by_def by blast

lemma moved_put:
  "find_request i s = Some rq \<Longrightarrow> grows rq rq' \<Longrightarrow> entries_by (moved i) s (put_request i rq' s)"
  unfolding entries_by_def by auto

interpretation forward: tracker_evolution
    "entries_by (\<lambda>j. evolves)" "\<lambda>i. entries_by (moved i)" False er for er
proof unfold_locales
  fix s t :: "('a, 'b, 'c) tracker"
  assume "tr_requests t = tr_requests s"
  then show "entries_by (\<lambda>j. evolves) s t" by (simp add: entries_by_def find_request_def)
next
  fix s t u :: "('a, 'b, 'c) tracker"
  show "entries_by (\<lambda>j. evolves) s t \<Longrightarrow> entries_by (\<lambda>j. evolves) t u \<Longrightarrow> entries_by (\<lambda>j. evolves) s u"
    by (erule (1) entries_by_trans) (rule evolves_trans)
next
  fix i and s t :: "('a, 'b, 'c) tracker"
  show "entries_by (\<lambda>j. evolves) s t \<Longrightarrow> entries_by (moved i) s t"
    by (erule entries_by_mono) (auto intro: evolves_grows)
next
  fix i and s t u :: "('a, 'b, 'c) tracker"
  show "entries_by (moved i) s t \<Longrightarrow> entries_by (moved i) t u \<Longrightarrow> entries_by (moved i) s u"
    by (erule (1) entries_by_trans) (rule moved_trans)
next
  fix i and s t :: "('a, 'b, 'c) tracker" and rq :: "('a, 'b) tracked_request"
  show "entries_by (moved i) s t \<Longrightarrow> find_request i s = Some rq \<Longrightarrow> rq_state rq < FINISHED \<Longrightarrow>
      entries_by (\<lambda>j. evolves) s t"
    by (erule entries_by_mono) (rule moved_evolves)
next
  fix i st and s :: "('a, 'b, 'c) tracker" and rq :: "('a, 'b) tracked_request"
  show "find_request i s = Some rq \<Longrightarrow> rq_state rq \<le> st \<Longrightarrow> entries_by (moved i) s (set_state i st s)"
    by (simp add: set_state_Some moved_put grows_def)
next
  fix i k and s :: "('a, 'b, 'c) tracker" and rq :: "('a, 'b) tracked_request"
  show "find_request i s = Some rq \<Longrightarrow> entries_by (moved i) s (put_request i (rq\<lparr>rq_http_request_set_id := k\<rparr>) s)"
    by (simp add: moved_put grows_def)
next
  fix i cl and s :: "('a, 'b, 'c) tracker" and rq :: "('a, 'b) tracked_request"
  show "find_request i s = Some rq \<Longrightarrow> rq_state rq = HAVE_ENDORSEMENTS \<Longrightarrow>
      entries_by (moved i) s (put_request i (rq\<lparr>rq_state := FINISHED, rq_claims := Some cl\<rparr>) s)"
    by (erule moved_put) (simp add: grows_def less_eq_request_state_def)
next
  fix s :: "('a, 'b, 'c) tracker" and rq :: "('a, 'b) tracked_request"
  show "find_request (next_request_id s) s = None \<Longrightarrow> entries_by (\<lambda>j. evolves) s (enqueue rq s)"
    by (auto simp: entries_by_def find_enqueue)
qed simp

lemma tracker_step_evolves:
  assumes "client_law submit" and "callback_law False er run" and "tracker_step submit run er s s'"
  shows "entries_by (\<lambda>j. evolves) s s' \<or> (\<exists>i. s' = erase_request er i s)"
  using assms(3) forward.whole_call[OF assms(1,2)] tracker_call_erase unfolding tracker_step_def by blast

text \<open>The runs of \<open>verify_synchronized\<close> are among these, with their callback and any client.\<close>

lemma synchronized_reachable: "reachable submit advance_callback er (fst (verify_synchronized submit er a opts c))"
proof -
  let ?s = "new_tracker c :: ('a, unit, 'b) tracker"
  obtain s r where sub: "submit_request submit advance_callback 3 opts a True (Some ()) ?s = (s, r)" by force
  have "tracker_step submit advance_callback er ?s s"
    using sub unfolding tracker_step_def submit_request_def by (blast intro: tracker_call.Submit)
  then have r: "reachable submit advance_callback er s" by (rule reachable.Step[OF reachable.Start])
  have "tracker_step submit advance_callback er s (erase_request er i s)" for i
    unfolding tracker_step_def by (blast intro: tracker_call.Erase)
  then have "reachable submit advance_callback er (erase_request er i s)" for i by (rule reachable.Step[OF r])
  with r show ?thesis
    by (auto simp: verify_synchronized_def sub split: sum.split request_state.split)
qed

end
