(* ===== verification/EnvExample.thy ===== *)
theory EnvExample
  imports SevExample Attestation TrackerSteps
begin

text \<open>
  The platforms of \<open>SgxExample\<close> and \<open>SevExample\<close> as an environment of the attestation classes, an
  attestation that verifies in it, and a tracker that waits for its endorsements.
\<close>

definition ex_env :: "nat environment" where
  "ex_env = \<lparr>env_ssl = ex_ssl, env_cose = ex_cose, env_json_parse = ex_parse,
     env_from_cbor = (\<lambda>_. Inr J_Null), env_strptime = ex_strptime, env_vformat = (\<lambda>_ _. Inr '''')\<rparr>"

definition ex_sgx :: any_attestation where
  "ex_sgx = Sgx_Attestation ex_evidence ex_endorsements"

lemma ex_endorsements_nonempty [simp]: "ex_endorsements \<noteq> []"
  by (simp add: ex_endorsements_def encode_collateral_def put_word_def)

lemma ex_sgx_prepare: "att_prepare (attestation_of ex_env ex_sgx) default_options = Inr None"
  by (simp add: attestation_of_def ex_sgx_def prepare_endorsements_def default_options_def)

lemma ex_sgx_verify:
  "\<exists>cl. att_verify (attestation_of ex_env ex_sgx) default_options None = Inr (Sgx_Claims cl)
     \<and> att_verify (attestation_of ex_env ex_sgx) default_options (Some []) = Inr (Sgx_Claims cl)"
  using ex_verifies
  by (auto simp: attestation_of_def ex_sgx_def ex_env_def any_verify_prepared_def is_ok_iff verify_no_answers)

lemma ex_sync: "sync_ok new_sync_client" "fresh_id (new_tracker c)"
  by (simp_all add: sync_ok_def new_sync_client_def fresh_id_def new_tracker_def map_wf_def keys_def map_find_def)

text \<open>An attestation that asks for one request and verifies on any answer.\<close>

definition ex_fetching :: "any_claims attestation" where
  "ex_fetching = \<lparr>att_prepare = (\<lambda>_. Inr (Some [http_request ''url''])),
     att_verify = (\<lambda>opts _. att_verify (attestation_of ex_env ex_sgx) opts None)\<rparr>"

lemma ex_fetching_verify:
  "\<exists>cl. \<forall>out. att_verify ex_fetching default_options (Some out) = Inr (Sgx_Claims cl)"
  using ex_sgx_verify by (auto simp: ex_fetching_def)

text \<open>Its request, and a tracker in which it waits.\<close>

definition ex_waiting_request :: "(any_claims, unit) tracked_request" where
  "ex_waiting_request = (new_request default_options ex_fetching None)\<lparr>rq_state := WAITING_FOR_ENDORSEMENTS\<rparr>"

definition ex_waiting :: "(any_claims, unit, nat list) tracker" where
  "ex_waiting = (new_tracker [])\<lparr>tr_requests := [(0, ex_waiting_request)]\<rparr>"

lemma ex_waiting_facts:
  "find_request 0 ex_waiting = Some ex_waiting_request" "map_find 0 (http_responses ex_waiting) = None"
  "rq_state ex_waiting_request = WAITING_FOR_ENDORSEMENTS" "rq_attestation ex_waiting_request = Some ex_fetching"
  "rq_options ex_waiting_request = default_options"
  by (simp_all add: ex_waiting_def ex_waiting_request_def find_request_def new_tracker_def new_request_def map_find_def)

text \<open>A reachable state: the client answers within \<open>submit\<close>, and the callback advances the request again.\<close>

definition ex_exec :: "HTTPRequest \<Rightarrow> HTTPResponse result" where
  "ex_exec q = Inr (empty_response\<lparr>status := 200\<rparr>)"

lemma ex_reachable:
  "\<exists>s cl. reachable (sync_submit ex_exec) advance_callback sync_erase s \<and> request_result 0 s = Inr (Sgx_Claims cl)"
proof -
  let ?t = "new_tracker new_sync_client :: (any_claims, unit, sync_client) tracker"
  obtain s r where s: "submit_request (sync_submit ex_exec) advance_callback 3 default_options
     (Some ex_fetching) True (Some ()) ?t = (s, r)" by force
  obtain cl where "att_verify ex_fetching default_options (Some out) = Inr (Sgx_Claims cl)" for out
    using ex_fetching_verify by blast
  then have "verify_fetched ex_exec ex_fetching default_options (Some []) = Inr (Sgx_Claims cl)"
    by (simp add: verify_fetched_def ex_fetching_def ex_exec_def)
  moreover have "sync_ok (tr_client ?t)" "fresh_id ?t" "next_request_id ?t = 0"
    using ex_sync by (simp_all add: new_tracker_def)
  ultimately have "request_result 0 s = Inr (Sgx_Claims cl)"
    using sync_submit_request_reports[OF _ _ s[unfolded numeral_3_eq_3]]
    by (simp add: reports_def request_result_Inr)
  moreover have "tracker_step (sync_submit ex_exec) advance_callback sync_erase ?t s"
    using s unfolding tracker_step_def submit_request_def by (blast intro: tracker_call.Submit)
  then have "reachable (sync_submit ex_exec) advance_callback sync_erase s"
    by (rule reachable.Step[OF reachable.Start])
  ultimately show ?thesis by blast
qed

end
