(* ===== verification/OeCompress.thy ===== *)
theory OeCompress
  imports OpenEnclave
begin

text \<open>
  Compression of Open Enclave evidence does to the quote what the SGX compression does, and keeps the
  custom claims behind it.
\<close>

section \<open>The two compressions of the certification data\<close>

lemma write_bytes_append:
  "write_bytes off bs ev = Inr ev' \<Longrightarrow> write_bytes off bs (ev @ cc) = Inr (ev' @ cc)"
  by (auto simp: write_bytes_def split: if_splits)

lemma sd_compress_resize:
  assumes "sd_compress ssl sd ev True = Inr (ev', k)" and "k \<noteq> 0"
  shows "\<exists>e. sd_compress ssl sd ev False = Inr (e, k) \<and> length e = length ev
     \<and> vec_resize (size_minus (length ev) k) e = Inr ev'"
proof -
  let ?cd = "sd_certification_data sd" and ?o = "sd_cd_raw sd"
  from assms have ne: "ev \<noteq> []" and cd: "length ?cd > 5 \<and> starts_with_dashes ?cd"
    by (auto simp: sd_compress_def throw_if_Inr Let_def split: if_splits)
  then obtain der e1 e2 where d: "pem_to_der_loop ssl (length ?cd) ?cd [] = Inr der"
    "write_bytes (?o + 6) der ev = Inr e1" "write_bytes (?o + 2) (le_bytes 4 (length der)) e1 = Inr e2"
    "k = size_minus (length ?cd) (length der)" "vec_resize (size_minus (length e2) k) e2 = Inr ev'"
    using assms(1) by (auto simp: sd_compress_def throw_if_Inr Let_def andthen_Inr)
  moreover have "length e2 = length ev" using write_bytes_Inr(1)[OF d(2)] write_bytes_Inr(1)[OF d(3)] by simp
  ultimately show ?thesis using ne cd by (auto simp: sd_compress_def Let_def)
qed

lemma sd_compress_append:
  assumes "sd_compress ssl sd ev False = Inr (e, k)" and "k \<noteq> 0"
  shows "sd_compress ssl sd (ev @ cc) False = Inr (e @ cc, k)"
proof -
  let ?cd = "sd_certification_data sd" and ?o = "sd_cd_raw sd"
  from assms have ne: "ev \<noteq> []" and cd: "length ?cd > 5 \<and> starts_with_dashes ?cd"
    by (auto simp: sd_compress_def throw_if_Inr Let_def split: if_splits)
  then obtain der e1 where d: "pem_to_der_loop ssl (length ?cd) ?cd [] = Inr der"
    "write_bytes (?o + 6) der ev = Inr e1" "write_bytes (?o + 2) (le_bytes 4 (length der)) e1 = Inr e"
    "k = size_minus (length ?cd) (length der)"
    using assms(1) by (auto simp: sd_compress_def throw_if_Inr Let_def andthen_Inr)
  with write_bytes_append[OF d(2)] write_bytes_append[OF d(3)] ne cd show ?thesis
    by (simp add: sd_compress_def Let_def)
qed

text \<open>A quote keeps its layout when bytes are appended to it.\<close>

lemma signature_data_append:
  assumes "signature_data_ok q"
  shows "signature_data_ok (q @ cc)" and "raw_certification_data (q @ cc) = raw_certification_data q"
    and "signature_data_at (q @ cc) cd = signature_data_at q cd"
proof -
  from assms have l: "1014 + auth_size q + 6 + cd_size q \<le> length q"
    by (simp add: signature_data_ok_def cd_offset_def)
  then have a: "auth_size (q @ cc) = auth_size q" by (simp add: auth_size_def sub_append_left)
  then have o: "cd_offset (q @ cc) = cd_offset q" by (simp add: cd_offset_def)
  with l have s: "cd_size (q @ cc) = cd_size q" by (simp add: cd_size_def sub_append_left cd_offset_def)
  show "raw_certification_data (q @ cc) = raw_certification_data q"
    using l unfolding raw_certification_data_def o s by (simp add: sub_append_left cd_offset_def)
  show "signature_data_ok (q @ cc)"
    using assms l unfolding signature_data_ok_def o s a by (auto simp: sub_append_left cd_offset_def)
  show "signature_data_at (q @ cc) cd = signature_data_at q cd" by (simp add: signature_data_at_def a o)
qed

lemma parse_quote_append: "parse_quote q = Inr sp \<Longrightarrow> parse_quote (q @ cc) = Inr sp"
  by (auto simp: parse_quote_Inr quote_header_ok_def sub_append_left sgx_layout)

section \<open>Moving the claims forward\<close>

lemma move_forward_append: "move_forward k (is @ js) ev = move_forward k js (move_forward k is ev)"
  by (induction k "is" ev rule: move_forward.induct) simp_all

lemma move_forward_prefix:
  assumes "length a = m" and "k \<le> m" and "0 < k"
  shows "j \<le> length cc \<Longrightarrow>
     move_forward k [m..<m + j] (a @ cc) = take (m - k) a @ take j cc @ drop (m - k + j) (a @ cc)"
proof (induction j)
  case 0
  have "take (m - k) (a @ cc) = take (m - k) a" using assms by simp
  then have "a @ cc = take (m - k) a @ drop (m - k) (a @ cc)"
    using append_take_drop_id[of "m - k" "a @ cc"] by metis
  then show ?case by (simp del: drop_append take_append)
next
  case (Suc j)
  let ?ev = "take (m - k) a @ take j cc @ drop (m - k + j) (a @ cc)"
  have lt: "m - k + j < length (a @ cc)" using Suc.prems assms by simp
  have ti: "length (take (m - k) a @ take j cc) = m - k + j" using Suc.prems assms by simp
  have n: "?ev ! (m + j) = cc ! j"
  proof -
    have "\<not> m + j < m - k + j" using assms by simp
    then have "?ev ! (m + j) = drop (m - k + j) (a @ cc) ! (m + j - (m - k + j))"
      using nth_append[of "take (m - k) a @ take j cc" "drop (m - k + j) (a @ cc)" "m + j"]
      unfolding ti append_assoc by (metis (full_types))
    also have "\<dots> = (a @ cc) ! (m + j)"
      using nth_drop[of "m - k + j" "a @ cc" "m + j - (m - k + j)"] lt assms by (simp del: drop_append)
    also have "\<dots> = cc ! j" using assms by (simp add: nth_append)
    finally show ?thesis .
  qed
  have "?ev[m + j - k := cc ! j] =
      (take (m - k) a @ take j cc) @ (drop (m - k + j) (a @ cc))[0 := cc ! j]"
    using list_update_append[of "take (m - k) a @ take j cc" "drop (m - k + j) (a @ cc)" "m - k + j" "cc ! j"]
      ti assms by simp
  also have "(drop (m - k + j) (a @ cc))[0 := cc ! j] = cc ! j # drop (Suc (m - k + j)) (a @ cc)"
    using lt Cons_nth_drop_Suc[OF lt] by (metis list_update_code(2))
  also have "(take (m - k) a @ take j cc) @ cc ! j # drop (Suc (m - k + j)) (a @ cc)
      = take (m - k) a @ take (Suc j) cc @ drop (m - k + Suc j) (a @ cc)"
    using Suc.prems by (simp add: take_Suc_conv_app_nth)
  finally have u: "?ev[m + j - k := cc ! j] = take (m - k) a @ take (Suc j) cc @ drop (m - k + Suc j) (a @ cc)" .
  have "move_forward k [m..<m + Suc j] (a @ cc) = move_forward k [m + j] (move_forward k [m..<m + j] (a @ cc))"
    using move_forward_append[of k "[m..<m + j]" "[m + j]" "a @ cc"] by simp
  also have "move_forward k [m..<m + j] (a @ cc) = ?ev" using Suc by simp
  finally show ?case using n u by simp
qed

lemma move_forward_claims:
  assumes "length a = m" and "k \<le> m" and "0 < k"
  shows "\<exists>junk. length junk = k
     \<and> move_forward k [m..<length (a @ cc)] (a @ cc) = take (m - k) a @ cc @ junk"
  using move_forward_prefix[OF assms, of "length cc" cc] assms
  by (intro exI[of _ "drop (m - k + length cc) (a @ cc)"]) simp

section \<open>The equivalence\<close>

lemma oe_compress_claims:
  assumes laws: "x509_io_laws ssl"
    and ok: "compress_pck_certificate_chain ssl q True = Inr q'"
    and pem: "starts_with_dashes (raw_certification_data q)" "5 < length (raw_certification_data q)"
    and sz: "length q = 436 + le_nat (sub 432 4 q)" "length (q @ cc) \<le> vector_max_size"
  shows "oe_compress_pck_certificate_chain ssl (q @ cc) True = Inr (q' @ cc)"
proof -
  let ?sl = "le_nat (sub 432 4 q)"
  from ok obtain sp sd ek where pq: "parse_quote q = Inr sp" and sd: "new_signature_data ssl sp q = Inr sd"
    and c: "sd_compress ssl sd q True = Inr ek"
    unfolding compress_pck_certificate_chain_def andthen_Inr by blast
  obtain e2 k where ek: "ek = (e2, k)" by (cases ek)
  have sp: "sp = (0, 432)" using pq by (simp add: parse_quote_Inr sgx_layout)
  from sd pem have sok: "signature_data_ok q" and sde: "sd = signature_data_at q (raw_certification_data q)"
    unfolding sp by (auto simp: new_signature_data_Inr normalise_certification_data_def)
  from signature_data_append[OF sok, of cc] pem
  have sd': "new_signature_data ssl sp (q @ cc) = Inr sd"
    unfolding sp sde new_signature_data_Inr by (simp add: normalise_certification_data_def)
  have q436: "436 \<le> length q" using sz(1) by simp
  have k: "k \<noteq> 0 \<and> k < ?sl \<and> k \<le> length q"
  proof -
    let ?cd = "raw_certification_data q"
    from c[unfolded ek] pem obtain der where der: "pem_to_der_loop ssl (length ?cd) ?cd [] = Inr der"
      and kk: "k = size_minus (length ?cd) (length der)"
      unfolding sde by (auto simp: sd_compress_def throw_if_Inr Let_def andthen_Inr signature_data_at_def)
    from pem_to_der_loop_Inr[OF laws der] pem(2) have "length der < length ?cd" by auto
    moreover have "length ?cd = cd_size q" "cd_offset q + 6 + cd_size q \<le> length q" "436 \<le> cd_offset q"
      using sok by (auto simp: raw_certification_data_def signature_data_ok_def cd_offset_def)
    moreover have "length ?cd < size_max"
      using calculation sz(2) by (simp add: vector_max_size_def size_max_def)
    moreover have "k = length ?cd - length der" unfolding kk
      using calculation by (intro size_minus_le) simp_all
    ultimately show ?thesis using sz(1) by linarith
  qed
  then obtain e where e: "sd_compress ssl sd q False = Inr (e, k)" "length e = length q"
    "vec_resize (size_minus (length q) k) e = Inr e2"
    using sd_compress_resize[of ssl sd q e2 k] c[unfolded ek] by blast
  have lt: "length (q @ cc) < size_max" using sz(2) by (simp add: vector_max_size_def size_max_def)
  have e2: "e2 = take (length q - k) e"
    using e(2,3) k lt by (simp add: vec_resize_def throw_if_Inr size_minus_le)
  note ok' = ok[unfolded compress_pck_certificate_chain_def signature_len_offset_def pq andthen_simps sd c ek prod.case]
  have "\<not> length q < length e2" using e2 e(2) by simp
  with ok' k obtain sl where sl: "peek_le e2 432 4 = Inr sl"
    and w: "(if k < sl then write_bytes 432 (le_bytes 4 (sl - k)) e2 else Inr e2) = Inr q'"
    by (auto simp: andthen_Inr)
  have l436: "436 \<le> length q - k" using sl e2 e(2) by (simp add: peek_le_Inr)
  have sle: "peek_le e 432 4 = Inr sl" "peek_le (e @ cc) 432 4 = Inr sl"
    using sl l436 e(2) unfolding e2 by (auto simp: peek_le_if sub_take sub_append_left split: if_splits)
  have slq: "sl = ?sl"
  proof -
    from e(1) pem obtain der e1 where d: "write_bytes (cd_offset q + 6) der q = Inr e1"
      "write_bytes (cd_offset q + 2) (le_bytes 4 (length der)) e1 = Inr e"
      unfolding sde by (auto simp: sd_compress_def throw_if_Inr Let_def andthen_Inr signature_data_at_def)
    have "sub 432 4 e = sub 432 4 q"
      using write_bytes_Inr(4)[OF d(2), of 432 4] write_bytes_Inr(4)[OF d(1), of 432 4] by (simp add: cd_offset_def)
    with sle(1) show ?thesis by (auto simp: peek_le_if split: if_splits)
  qed
  with k w have w: "write_bytes 432 (le_bytes 4 (sl - k)) e2 = Inr q'" by simp
  obtain junk where j: "length junk = k"
    "move_forward k [436 + sl..<length (e @ cc)] (e @ cc) = take (length q - k) e @ cc @ junk"
    using move_forward_claims[of e "length q" k cc] e(2) k sz(1) slq by auto
  have w': "write_bytes 432 (le_bytes 4 (sl - k)) (take (length q - k) e @ cc @ junk) = Inr (q' @ cc @ junk)"
    using write_bytes_append[OF w] unfolding e2 .
  have lq: "length q' = length q - k" using write_bytes_Inr(1)[OF w] e2 e(2) by simp
  have r: "vec_resize (size_minus (length (q' @ cc @ junk)) k) (q' @ cc @ junk) = Inr (q' @ cc)"
  proof -
    have "size_minus (length (q' @ cc @ junk)) k = length (q' @ cc @ junk) - k"
      using lq k j(1) lt by (intro size_minus_le) simp_all
    then show ?thesis using lq j(1) k sz(2) by (simp add: vec_resize_def throw_if_def)
  qed
  have ne: "(q = [] \<and> cc = []) = False" using q436 by auto
  show ?thesis
    unfolding oe_compress_pck_certificate_chain_def
    using q436 parse_quote_append[OF pq] sd' sd_compress_append[OF e(1)] k sle(2) slq j(2) w' r
    by (simp add: signature_len_offset_def sgx_quote_t_size_def Let_def throw_if_def ne)
qed

end
