(* ===== verification/OePlugin.thy ===== *)
theory OePlugin
  imports OpenEnclave SgxLayout
begin

text \<open>
  The branch of \<open>extract_sgx_attestation\<close> in \<open>oe_impl.h\<close> for evidence with a plugin header, which the local
  constant \<open>with_plugin_header\<close> keeps from being taken, and the layouts of the structures of that file.
\<close>

section \<open>Structures\<close>

definition oe_attestation_header_layout :: layout where
  "oe_attestation_header_layout = [(''version'', 4), (''format_id'', 16), (''data_size'', 8), (''data'', 0)]"

definition oe_endorsements_layout :: layout where
  "oe_endorsements_layout = [(''version'', 4), (''enclave_type'', 4), (''buffer_size'', 4), (''num_elements'', 4),
     (''buffer'', 0)]"

text \<open>An array of as many items as the enumeration of fields counts, each a pointer and a size.\<close>

datatype oe_sgx_endorsements_fields = OE_SGX_ENDORSEMENT_FIELD_VERSION | OE_SGX_ENDORSEMENT_FIELD_TCB_INFO
  | OE_SGX_ENDORSEMENT_FIELD_TCB_ISSUER_CHAIN | OE_SGX_ENDORSEMENT_FIELD_CRL_PCK_CERT
  | OE_SGX_ENDORSEMENT_FIELD_CRL_PCK_PROC_CA | OE_SGX_ENDORSEMENT_FIELD_CRL_ISSUER_CHAIN_PCK_CERT
  | OE_SGX_ENDORSEMENT_FIELD_QE_ID_INFO | OE_SGX_ENDORSEMENT_FIELD_QE_ID_ISSUER_CHAIN
  | OE_SGX_ENDORSEMENT_FIELD_CREATION_DATETIME

definition oe_sgx_endorsement_fields :: "oe_sgx_endorsements_fields list" where
  "oe_sgx_endorsement_fields = [OE_SGX_ENDORSEMENT_FIELD_VERSION, OE_SGX_ENDORSEMENT_FIELD_TCB_INFO,
     OE_SGX_ENDORSEMENT_FIELD_TCB_ISSUER_CHAIN, OE_SGX_ENDORSEMENT_FIELD_CRL_PCK_CERT,
     OE_SGX_ENDORSEMENT_FIELD_CRL_PCK_PROC_CA, OE_SGX_ENDORSEMENT_FIELD_CRL_ISSUER_CHAIN_PCK_CERT,
     OE_SGX_ENDORSEMENT_FIELD_QE_ID_INFO, OE_SGX_ENDORSEMENT_FIELD_QE_ID_ISSUER_CHAIN,
     OE_SGX_ENDORSEMENT_FIELD_CREATION_DATETIME]"

definition oe_sgx_endorsement_item_layout :: layout where
  "oe_sgx_endorsement_item_layout = [(''data'', 8), (''size'', 4)]"

text \<open>The custom claims behind a quote: a header, and an entry for each claim before its name and value.\<close>

definition oe_custom_claims_header_layout :: layout where
  "oe_custom_claims_header_layout = [(''version'', 8), (''num_claims'', 8)]"

definition oe_custom_claims_entry_layout :: layout where
  "oe_custom_claims_entry_layout = [(''name_size'', 8), (''value_size'', 8), (''name'', 0)]"

lemma oe_custom_claims_layouts:
  "layout_size oe_custom_claims_header_layout = 16" "layout_offset oe_custom_claims_header_layout ''num_claims'' = 8"
  "layout_size oe_custom_claims_entry_layout = 16" "layout_offset oe_custom_claims_entry_layout ''value_size'' = 8"
  "layout_offset oe_custom_claims_entry_layout ''name'' = 16"
  by code_simp+

lemma oe_layouts:
  "layout_size oe_attestation_header_layout = 28" "layout_offset oe_attestation_header_layout ''data'' = 28"
  "layout_size oe_endorsements_layout = oe_endorsements_t_size"
  "layout_offset oe_endorsements_layout ''buffer'' = oe_endorsements_t_size"
  "length oe_sgx_endorsement_fields * layout_size oe_sgx_endorsement_item_layout = oe_sgx_endorsements_t_size"
  by code_simp+

section \<open>The branch\<close>

definition OE_ATTESTATION_HEADER_VERSION :: nat where "OE_ATTESTATION_HEADER_VERSION = 3"

definition sgx_remote_uuid :: bytes where
  "sgx_remote_uuid = [0xa3, 0xa2, 0x1e, 0x87, 0x1b, 0x4d, 0x40, 0x14, 0xb7, 0x0a, 0xa1, 0x25, 0xd2, 0xfb, 0xcd, 0x8c]"

text \<open>
  The sum of a declared size and the size of the header, in the arithmetic of 64 bits.
\<close>

definition total_size :: "nat \<Rightarrow> nat" where
  "total_size data_size = (data_size + 28) mod 2 ^ 64"

text \<open>
  The checks of a header, of the evidence or of the endorsements; \<open>format\<close> is the buffer whose format
  identifier is compared, which is that of the evidence in both cases.  The size of the data is only
  checked not to be too small.
\<close>

definition check_plugin_header :: "bytes \<Rightarrow> bytes \<Rightarrow> string \<Rightarrow> nat result" where
  "check_plugin_header data format what =
     throw_if (length data < 28)
       (Runtime_Error (''Unknown '' @ what @ '' format: too small to contain attestation format header''))
     (andthen (peek_le data 0 4) (\<lambda>version.
      throw_if (version \<noteq> OE_ATTESTATION_HEADER_VERSION)
        (Runtime_Error (''Unsupported '' @ what @ '' format version''))
      (andthen (peek_le data 20 8) (\<lambda>data_size.
       throw_if (total_size data_size < length data)
         (Runtime_Error (''Unsupported '' @ what @ '' format: excess '' @ (if what = ''evidence'' then ''evidence data'' else ''data'')))
       (andthen (peek format 4 16) (\<lambda>format_id.
        throw_if (format_id \<noteq> sgx_remote_uuid)
          (Runtime_Error (''Unsupported '' @ what @ '' format: only OE_FORMAT_UUID_SGX_ECDSA is supported''))
        (Inr data_size)))))))"

text \<open>\<open>std::vector(data, data + data_size)\<close>.\<close>

definition plugin_data :: "bytes \<Rightarrow> nat \<Rightarrow> bytes result" where
  "plugin_data data data_size =
     throw_if (vector_max_size < data_size) (Logic_Error ''cannot create std::vector larger than max_size()'')
       (peek data 28 data_size)"

text \<open>Without endorsements the pointer to their header stays null, but it is followed nevertheless.\<close>

definition extract_with_plugin_header :: "bytes \<Rightarrow> bytes \<Rightarrow> ((bytes \<times> bytes) \<times> bytes) result" where
  "extract_with_plugin_header evidence endorsements =
     throw_if (evidence = []) (Runtime_Error ''No evidence to verify'')
     (andthen (check_plugin_header evidence evidence ''evidence'') (\<lambda>evidence_size.
      andthen (if endorsements \<noteq> []
               then andthen (check_plugin_header endorsements evidence ''endorsements'') (\<lambda>n. Inr (Some n))
               else Inr None) (\<lambda>endorsements_size.
      andthen (plugin_data evidence evidence_size) (\<lambda>ev.
      andthen (case endorsements_size of
          None \<Rightarrow> Inl (Undefined_Behaviour ''access through a null pointer'')
        | Some n \<Rightarrow> plugin_data endorsements n) (\<lambda>en.
        Inr ((ev, en), []))))))"

text \<open>The function with its constant as an argument.\<close>

definition extract_sgx_attestation_with :: "bool \<Rightarrow> bytes \<Rightarrow> bytes \<Rightarrow> ((bytes \<times> bytes) \<times> bytes) result" where
  "extract_sgx_attestation_with with_plugin_header evidence endorsements =
     (if with_plugin_header then extract_with_plugin_header evidence endorsements
      else extract_sgx_attestation evidence endorsements)"

section \<open>What it accepts\<close>

definition with_header :: "bytes \<Rightarrow> bytes \<Rightarrow> bytes" where
  "with_header uuid data = le_bytes 4 OE_ATTESTATION_HEADER_VERSION @ uuid @ le_bytes 8 (length data) @ data"

lemma split_header:
  assumes "28 \<le> length b"
  shows "b = sub 0 4 b @ sub 4 16 b @ sub 20 8 b @ drop 28 b"
proof -
  have "take 4 b @ take 16 (drop 4 b) @ take 8 (drop 20 b) @ drop 28 b = b"
    using append_take_drop_id[of 4 b] append_take_drop_id[of 16 "drop 4 b"] append_take_drop_id[of 8 "drop 20 b"]
    by simp
  then show ?thesis by (simp add: sub_def)
qed

lemma total_size_eq: "n \<le> vector_max_size \<Longrightarrow> total_size n = n + 28"
  by (simp add: total_size_def vector_max_size_def)

lemma check_plugin_header_Inr:
  "check_plugin_header b fmt what = Inr n \<longleftrightarrow> 28 \<le> length b \<and> 20 \<le> length fmt
     \<and> le_nat (sub 0 4 b) = OE_ATTESTATION_HEADER_VERSION \<and> n = le_nat (sub 20 8 b)
     \<and> length b \<le> total_size n \<and> sub 4 16 fmt = sgx_remote_uuid" (is "?l \<longleftrightarrow> ?r")
proof -
  have e: "?l \<longleftrightarrow> 28 \<le> length b \<and> (\<exists>v. peek_le b 0 4 = Inr v \<and> v = OE_ATTESTATION_HEADER_VERSION
     \<and> (\<exists>d. peek_le b 20 8 = Inr d \<and> length b \<le> total_size d \<and> (\<exists>f. peek fmt 4 16 = Inr f \<and> f = sgx_remote_uuid \<and> d = n)))"
    unfolding check_plugin_header_def throw_if_Inr andthen_Inr not_less not_not sum.inject by (rule refl)
  have "28 \<le> length b \<Longrightarrow> (peek_le b 0 4 = Inr v) = (v = le_nat (sub 0 4 b))"
    "28 \<le> length b \<Longrightarrow> (peek_le b 20 8 = Inr v) = (v = le_nat (sub 20 8 b))" for v
    by (auto simp: peek_le_if)
  moreover have "(peek fmt 4 16 = Inr v) = (20 \<le> length fmt \<and> v = sub 4 16 fmt)" for v
    by (simp add: peek_Inr sub_def)
  ultimately show ?thesis unfolding e by metis
qed

lemma plugin_data_Inr:
  "plugin_data b n = Inr d \<longleftrightarrow> n \<le> vector_max_size \<and> 28 + n \<le> length b \<and> d = sub 28 n b"
  unfolding plugin_data_def throw_if_Inr peek_Inr sub_def not_less ..

lemma plugin_checks_Inr: "(\<exists>n. check_plugin_header b fmt what = Inr n \<and> plugin_data b n = Inr d) \<longleftrightarrow>
  28 \<le> length b \<and> 20 \<le> length fmt
     \<and> le_nat (sub 0 4 b) = OE_ATTESTATION_HEADER_VERSION
     \<and> length b \<le> total_size (le_nat (sub 20 8 b)) \<and> sub 4 16 fmt = sgx_remote_uuid \<and>
   le_nat (sub 20 8 b) \<le> vector_max_size \<and> 28 + le_nat (sub 20 8 b) \<le> length b \<and> d = sub 28 (le_nat (sub 20 8 b)) b"
  unfolding check_plugin_header_Inr plugin_data_Inr by blast

lemma plugin_header_Inr:
  "(\<exists>n. check_plugin_header b fmt what = Inr n \<and> plugin_data b n = Inr d) \<longleftrightarrow>
     (\<exists>u. length u = 16 \<and> b = with_header u d) \<and> length d \<le> vector_max_size
       \<and> sub 4 16 fmt = sgx_remote_uuid" (is "?l = ?r")
proof
  assume ?l
  then have l: "28 \<le> length b" and v: "le_nat (sub 0 4 b) = OE_ATTESTATION_HEADER_VERSION"
    and s: "length b \<le> total_size (le_nat (sub 20 8 b))" and f: "sub 4 16 fmt = sgx_remote_uuid"
    and n: "le_nat (sub 20 8 b) \<le> vector_max_size" "28 + le_nat (sub 20 8 b) \<le> length b"
    and d: "d = sub 28 (le_nat (sub 20 8 b)) b"
    unfolding plugin_checks_Inr by blast+
  have "total_size (le_nat (sub 20 8 b)) = le_nat (sub 20 8 b) + 28"
    by (rule total_size_eq[OF n(1)])
  with s n(2) have len: "length b = le_nat (sub 20 8 b) + 28" by simp
  then have "le_nat (sub 20 8 b) = length b - 28" by linarith
  moreover have "sub 28 (length b - 28) b = drop 28 b" by (simp add: sub_def)
  ultimately have dd: "d = drop 28 b" using d by metis
  have "length (sub 0 4 b) = 4" "length (sub 20 8 b) = 8" using l by simp_all
  moreover have ld: "length d = le_nat (sub 20 8 b)" unfolding dd length_drop using len by linarith
  ultimately have "sub 0 4 b = le_bytes 4 OE_ATTESTATION_HEADER_VERSION" "sub 20 8 b = le_bytes 8 (length d)"
    using le_bytes_le_nat[of "sub 0 4 b"] le_bytes_le_nat[of "sub 20 8 b"] v by metis+
  with split_header[OF l] have "b = with_header (sub 4 16 b) d" unfolding with_header_def dd by metis
  moreover have "length (sub 4 16 b) = 16" using l by simp
  ultimately show ?r using n(1) f unfolding ld by blast
next
  assume ?r
  then obtain u where u: "length u = 16" "b = with_header u d" and d: "length d \<le> vector_max_size"
    and f: "sub 4 16 fmt = sgx_remote_uuid" by blast
  have s: "sub 0 4 b = le_bytes 4 OE_ATTESTATION_HEADER_VERSION" "sub 20 8 b = le_bytes 8 (length d)"
    "sub 28 (length d) b = d" "length b = 28 + length d"
    using u by (simp_all add: with_header_def sub_def)
  have "length d < 256 ^ 8" using d by (simp add: vector_max_size_def)
  then have n: "le_nat (sub 0 4 b) = OE_ATTESTATION_HEADER_VERSION" "le_nat (sub 20 8 b) = length d"
    unfolding s by (simp_all add: le_nat_le_bytes OE_ATTESTATION_HEADER_VERSION_def)
  have "length (sub 4 16 fmt) = 16" using f by (simp add: sgx_remote_uuid_def)
  then have "20 \<le> length fmt" by simp
  moreover have "total_size (length d) = length d + 28" by (rule total_size_eq[OF d])
  ultimately have "check_plugin_header b fmt what = Inr (length d)"
    unfolding check_plugin_header_Inr n s(4) using f by simp
  moreover have "plugin_data b (length d) = Inr d" unfolding plugin_data_Inr s(3,4) using d by simp
  ultimately show ?l by blast
qed

lemma extract_with_plugin_header_Inr:
  "extract_with_plugin_header ev en = Inr r \<longleftrightarrow>
     (\<exists>d1 d2 u. length u = 16 \<and> ev = with_header sgx_remote_uuid d1 \<and> en = with_header u d2
        \<and> length d1 \<le> vector_max_size \<and> length d2 \<le> vector_max_size \<and> r = ((d1, d2), []))"
proof -
  have ne: "with_header u d \<noteq> []" for u d
  proof -
    have "0 < length (with_header u d)" by (simp add: with_header_def)
    then show ?thesis by (simp only: length_greater_0_conv simp_thms)
  qed
  have u: "sub 4 16 (with_header u d) = u" if "length u = 16" for u d
    using that by (simp add: with_header_def sub_def)
  have s: "length sgx_remote_uuid = 16" by (simp add: sgx_remote_uuid_def)
  have "extract_with_plugin_header ev en = Inr r \<longleftrightarrow> ev \<noteq> [] \<and> en \<noteq> [] \<and>
     (\<exists>d1 d2. (\<exists>n. check_plugin_header ev ev ''evidence'' = Inr n \<and> plugin_data ev n = Inr d1)
        \<and> (\<exists>n. check_plugin_header en ev ''endorsements'' = Inr n \<and> plugin_data en n = Inr d2) \<and> r = ((d1, d2), []))"
    by (auto simp: extract_with_plugin_header_def throw_if_Inr andthen_Inr)
  also have "\<dots> \<longleftrightarrow> ev \<noteq> [] \<and> en \<noteq> [] \<and> (\<exists>d1 d2.
        ((\<exists>u. length u = 16 \<and> ev = with_header u d1) \<and> length d1 \<le> vector_max_size \<and> sub 4 16 ev = sgx_remote_uuid)
      \<and> ((\<exists>u. length u = 16 \<and> en = with_header u d2) \<and> length d2 \<le> vector_max_size \<and> sub 4 16 ev = sgx_remote_uuid)
      \<and> r = ((d1, d2), []))"
    unfolding plugin_header_Inr ..
  also have "\<dots> \<longleftrightarrow> (\<exists>d1 d2 u. length u = 16 \<and> ev = with_header sgx_remote_uuid d1 \<and> en = with_header u d2
        \<and> length d1 \<le> vector_max_size \<and> length d2 \<le> vector_max_size \<and> r = ((d1, d2), []))" (is "?a \<longleftrightarrow> ?b")
  proof
    assume ?a
    then obtain d1 d2 v u where a: "length v = 16" "ev = with_header v d1" "length d1 \<le> vector_max_size"
      "sub 4 16 ev = sgx_remote_uuid" "length u = 16" "en = with_header u d2" "length d2 \<le> vector_max_size"
      "r = ((d1, d2), [])" by (elim conjE exE)
    moreover have "v = sgx_remote_uuid" using u[OF a(1), of d1] a(4) unfolding a(2) by simp
    ultimately show ?b by blast
  next
    assume ?b
    then obtain d1 d2 u' where b: "length u' = 16" "ev = with_header sgx_remote_uuid d1" "en = with_header u' d2"
      "length d1 \<le> vector_max_size" "length d2 \<le> vector_max_size" "r = ((d1, d2), [])" by (elim conjE exE)
    moreover have "sub 4 16 ev = sgx_remote_uuid" unfolding b(2) by (rule u[OF s])
    moreover have "ev \<noteq> []" "en \<noteq> []" unfolding b(2,3) by (rule ne)+
    ultimately show ?a using s by blast
  qed
  finally show ?thesis .
qed

end
