(* ===== verification/OeProps.thy ===== *)
theory OeProps
  imports ClaimsText EnvExample OeCompress OePlugin
begin

text \<open>The properties of Open Enclave attestations.\<close>

section \<open>Lemmas\<close>

definition oe_items_ok :: "bytes list \<Rightarrow> bool" where
  "oe_items_ok items \<longleftrightarrow> length items = 9 \<and> items ! 0 = le_bytes 4 1 \<and> items ! 8 \<noteq> []
     \<and> 36 + length (concat items) < 2 ^ 32 \<and> 56 \<le> length (concat items)"

definition oe_collateral :: "bytes list \<Rightarrow> bytes" where
  "oe_collateral items = encode_collateral 3 1 0
     [items ! 5, items ! 4, items ! 3, items ! 2, items ! 1, items ! 7, items ! 6]"

lemma extract_oe_items: "oe_items_ok items \<Longrightarrow> extract_collateral (encode_oe_endorsements items) = Inr (oe_collateral items)"
  unfolding oe_items_ok_def oe_collateral_def by (intro extract_collateral_encoded) simp_all

lemma encode_oe_endorsements_nonempty [simp]: "encode_oe_endorsements items \<noteq> []"
proof -
  have "length (le_bytes 4 1) = 4" by simp
  then have "le_bytes 4 1 \<noteq> []" by (metis list.size(3) zero_neq_numeral)
  then show ?thesis by (simp add: encode_oe_endorsements_def Let_def)
qed

lemma oe_verify_split:
  assumes "length q = sgx_quote_t_size + le_nat (sub signature_len_offset 4 q)" and "oe_items_ok items"
  shows "snd (oe_verify ssl parse strptime (new_oe_attestation (q @ cc) (encode_oe_endorsements items)) opts rs) =
     andthen (verify ssl parse strptime q (oe_collateral items) opts rs) (\<lambda>sc.
     andthen (extract_custom_claims cc []) (\<lambda>m. Inr \<lparr>oc_sgx_claims = sc, oc_custom_claims = m\<rparr>))"
  using oe_verify_new[OF encode_oe_endorsements_nonempty, of ssl parse strptime "q @ cc" items opts rs]
    extract_sgx_attestation_append[OF assms(1), of cc "encode_oe_endorsements items"] extract_oe_items[OF assms(2)]
  by simp

text \<open>The eight bytes of a field at the end of which stands a character.\<close>

lemma le_nat_append: "le_nat (xs @ ys) = le_nat xs + 256 ^ length xs * le_nat ys"
  by (induction xs) (simp_all add: algebra_simps)

lemma le_nat_ascii:
  assumes "length bs = 8" and "0 < bs ! 7" and "bs ! 7 < 128"
  shows "2 ^ 56 \<le> le_nat bs \<and> le_nat bs < 2 ^ 63"
proof -
  have "bs = take 7 bs @ [bs ! 7]"
    using assms(1) take_Suc_conv_app_nth[of 7 bs] by simp
  then have e: "le_nat bs = le_nat (take 7 bs) + 256 ^ 7 * unat (bs ! 7)"
    using le_nat_append[of "take 7 bs" "[bs ! 7]"] assms(1) by simp
  have "le_nat (take 7 bs) < 256 ^ 7" using le_nat_bound[of "take 7 bs"] assms(1) by simp
  moreover have "1 \<le> unat (bs ! 7)" using assms(2) by (simp add: unat_gt_0 Suc_leI word_gt_0)
  moreover have "unat (bs ! 7) \<le> 127"
  proof -
    have "unat (bs ! 7) < unat (128 :: byte)" using assms(3) word_less_nat_alt by blast
    then show ?thesis by simp
  qed
  ultimately show ?thesis unfolding e by simp
qed

lemma second_custom_claim_refused:
  fixes name :: string and val :: bytes and claims :: "(string \<times> bytes) list"
  defines "cc \<equiv> encode_custom_claims ((name, val) # claims)"
  assumes "8 \<le> length name" and "list_all (\<lambda>c. 0 < (of_char c :: nat) \<and> (of_char c :: nat) < 128) name"
    and "length cc < 2 ^ 56"
  shows "\<exists>e. custom_claim cc 1 = Inl e"
proof (cases "verify_within (32, 16) cc")
  case (Inl e)
  then show ?thesis by (simp add: custom_claim_def Let_def)
next
  case (Inr u)
  let ?b = "sub 32 8 cc"
  have h: "cc = (le_bytes 8 1 @ le_bytes 8 (length ((name, val) # claims)) @ le_bytes 8 (length name + 1)
      @ le_bytes 8 (length val)) @ bytes_of name @ [0] @ val
      @ concat (map (\<lambda>(name, value). le_bytes 8 (length name + 1) @ le_bytes 8 (length value)
         @ bytes_of name @ [0] @ value) claims)"
    by (simp add: cc_def encode_custom_claims_def)
  have b: "?b = take 8 (bytes_of name)" unfolding h sub_def using assms(2) by simp
  have "bytes_of name ! 7 = of_nat (of_char (name ! 7))"
    using assms(2) by (simp add: bytes_of_def byte_of_char_def)
  moreover have n: "0 < (of_char (name ! 7) :: nat)" "(of_char (name ! 7) :: nat) < 128"
    using assms(2,3) by (auto simp: list_all_length)
  ultimately have "unat (?b ! 7) = of_char (name ! 7)"
    unfolding b by (simp add: unat_of_nat)
  with n have "0 < ?b ! 7" "?b ! 7 < 128"
    by (simp_all add: word_gt_0 word_less_nat_alt unat_eq_zero[symmetric] del: unat_eq_zero)
  then have big: "2 ^ 56 \<le> le_nat ?b \<and> le_nat ?b < 2 ^ 63"
    using b assms(2) by (intro le_nat_ascii) simp_all
  have l: "48 \<le> length cc" using Inr by (simp add: verify_within_if split: if_splits)
  have p: "peek_le cc 32 8 = Inr (le_nat ?b)" using l by (simp add: peek_le_if)
  obtain vs where vs: "peek_le cc 40 8 = Inr vs" using l by (simp add: peek_le_if)
  let ?o = "(48 + uint (of_nat (le_nat ?b) :: u64) - 1) mod 2 ^ 64"
  have "uint (of_nat (le_nat ?b) :: u64) = int (le_nat ?b)" using big by (simp add: uint_nat unat_of_nat)
  then have "?o = int (le_nat ?b) + 47" using big by simp
  with big assms(4) have "\<not> ?o < int (length cc)" by linarith
  then have w: "\<exists>e. verify_within_size 48 (of_nat (le_nat ?b)) cc = Inl e"
    unfolding verify_within_size_def verify_within_ptr_def by (auto simp: throw_if_def)
  show ?thesis using Inr p vs w by (auto simp: custom_claim_def Let_def)
qed

lemma second_claim_fails:
  assumes "8 \<le> length name" and "list_all (\<lambda>c. 0 < (of_char c :: nat) \<and> (of_char c :: nat) < 128) name"
    and "claims \<noteq> []" and "length (encode_custom_claims ((name, val) # claims)) < 2 ^ 56"
  shows "\<exists>e. extract_custom_claims (encode_custom_claims ((name, val) # claims)) m = Inl e"
proof -
  let ?cc = "encode_custom_claims ((name, val) # claims)"
  let ?n = "length claims + 1"
  have l: "16 \<le> length ?cc" by (simp add: encode_custom_claims_def)
  have "?n \<le> length ?cc"
  proof -
    have "length cs \<le> length (concat (map (\<lambda>(name, value). le_bytes 8 (length name + 1) @ le_bytes 8 (length value)
        @ bytes_of name @ [0] @ value) cs))" for cs :: "(string \<times> bytes) list"
      by (induction cs) (auto simp: split_beta)
    from this[of claims] show ?thesis by (simp add: encode_custom_claims_def)
  qed
  then have n: "?n < 256 ^ 8" using assms(4) by simp
  have s: "sub 0 8 ?cc = le_bytes 8 1" "sub 8 8 ?cc = le_bytes 8 ?n"
    by (simp_all add: encode_custom_claims_def sub_def del: le_bytes.simps)
  have "peek_le ?cc 0 8 = Inr 1" "peek_le ?cc 8 8 = Inr ?n"
    using l n unfolding peek_le_if s by (simp_all add: le_nat_le_bytes del: le_bytes.simps)
  moreover obtain e where e: "custom_claim ?cc 1 = Inl e"
    using second_custom_claim_refused[OF assms(1,2,4)] by blast
  moreover have "[0..<?n] = 0 # [Suc 0..<?n]" by (rule upt_conv_Cons) simp
  moreover have "[Suc 0..<?n] = Suc 0 # [Suc (Suc 0)..<?n]" by (rule upt_conv_Cons) (use assms(3) in simp)
  ultimately show ?thesis using l
    by (cases "custom_claim_step ?cc 0 m")
      (simp_all add: extract_custom_claims_def custom_claim_step_def)
qed

section \<open>An example\<close>

definition ex_oe_items :: "bytes list" where
  "ex_oe_items = [le_bytes 4 1, bytes_of ex_tcb_info, bytes_of ''chain'', bytes_of ''crl'', bytes_of ''crl'',
     bytes_of ''chain'', bytes_of ex_qe_identity, bytes_of ''chain'', [1]]"

lemma ex_oe_items_facts:
  "length ex_oe_items = 9" "ex_oe_items ! 0 = le_bytes 4 1" "ex_oe_items ! 8 \<noteq> []"
  "36 + length (concat ex_oe_items) < 2 ^ 32" "56 \<le> length (concat ex_oe_items)"
  "ex_endorsements = encode_collateral 3 1 0 [ex_oe_items ! 5, ex_oe_items ! 4, ex_oe_items ! 3, ex_oe_items ! 2,
     ex_oe_items ! 1, ex_oe_items ! 7, ex_oe_items ! 6]"
  "length ex_endorsements \<le> vector_max_size"
  by (simp_all add: ex_oe_items_def ex_endorsements_def encode_collateral_def put_blob_def ex_tcb_info_def
      ex_qe_identity_def vector_max_size_def)

lemma ex_evidence_sized: "length ex_evidence = sgx_quote_t_size + le_nat (sub signature_len_offset 4 ex_evidence)"
  using ex_evidence_size(1) by (simp add: sgx_quote_t_size_def signature_len_offset_def)

lemma ex_oe_verifies:
  "\<exists>sc. snd (oe_verify ex_ssl ex_parse ex_strptime (new_oe_attestation (ex_evidence @ [])
     (encode_oe_endorsements ex_oe_items)) default_options None) = Inr \<lparr>oc_sgx_claims = sc, oc_custom_claims = []\<rparr>"
proof -
  have "oe_items_ok ex_oe_items" using ex_oe_items_facts by (simp add: oe_items_ok_def)
  moreover have "oe_collateral ex_oe_items = ex_endorsements" using ex_oe_items_facts(6) by (simp add: oe_collateral_def)
  ultimately show ?thesis
    using oe_verify_split[OF ex_evidence_sized, of ex_oe_items ex_ssl ex_parse ex_strptime "[]" default_options None]
      ex_verifies
    by (auto simp: is_ok_iff extract_custom_claims_def)
qed

section \<open>Properties\<close>

text \<open>
  C4.  An Open Enclave attestation is verified as the SGX attestation inside it: of evidence made of a
  quote and custom claims, and endorsements in the Open Enclave format, the SGX verifier gets the quote
  and the seven items in its own format, which it parses back to the items.
\<close>

theorem oe_verify_is_sgx:
  assumes "length q = sgx_quote_t_size + le_nat (sub signature_len_offset 4 q)"
    and "length items = 9" and "items ! 0 = le_bytes 4 1" and "items ! 8 \<noteq> []"
    and "36 + length (concat items) < 2 ^ 32" and "56 \<le> length (concat items)"
    and "sc = encode_collateral 3 1 0 [items ! 5, items ! 4, items ! 3, items ! 2, items ! 1, items ! 7, items ! 6]"
    and "length sc \<le> vector_max_size"
  shows "snd (oe_verify ssl parse strptime (new_oe_attestation (q @ cc) (encode_oe_endorsements items)) opts rs) =
     andthen (verify ssl parse strptime q sc opts rs) (\<lambda>c.
     andthen (extract_custom_claims cc []) (\<lambda>m. Inr \<lparr>oc_sgx_claims = c, oc_custom_claims = m\<rparr>))
   \<and> parse_collateral sc = Inr \<lparr>major_version = 3, minor_version = 1, tee_type = 0, root_ca = '''',
       pck_crl_issuer_chain = string_of (items ! 5), root_ca_crl = string_of (items ! 4),
       pck_crl = string_of (items ! 3), tcb_info_issuer_chain = string_of (items ! 2),
       tcb_info = string_of (items ! 1), qe_identity_issuer_chain = string_of (items ! 7),
       qe_identity = string_of (items ! 6)\<rparr>"
proof -
  have ok: "oe_items_ok items" using assms(2-6) by (simp add: oe_items_ok_def)
  have "sc = oe_collateral items" using assms(7) by (simp add: oe_collateral_def)
  with oe_verify_split[OF assms(1) ok, of ssl parse strptime cc opts rs] parse_encode_collateral[OF assms(7,8)]
  show ?thesis by simp
qed

lemma oe_verify_is_sgx_witness:
  "is_ok (snd (oe_verify ex_ssl ex_parse ex_strptime (new_oe_attestation (ex_evidence @ [])
     (encode_oe_endorsements ex_oe_items)) default_options None))"
  using oe_verify_is_sgx[OF ex_evidence_sized ex_oe_items_facts, of ex_ssl ex_parse ex_strptime "[]" default_options None]
    ex_verifies
  by (auto simp: is_ok_iff extract_custom_claims_def)

lemma oe_claims_exchanged:
  assumes "length q = sgx_quote_t_size + le_nat (sub signature_len_offset 4 q)"
    and "snd (oe_verify ssl parse strptime (new_oe_attestation (q @ cc) en) opts rs) = Inr claims"
    and "val \<noteq> []" and "33 + length name + length val \<le> vector_max_size"
  shows "snd (oe_verify ssl parse strptime
       (new_oe_attestation (q @ encode_custom_claims [(name, val)]) en) opts rs)
     = Inr (claims\<lparr>oc_custom_claims := [(name, val)]\<rparr>)"
proof -
  have en: "en \<noteq> []" using assms(2) by (auto simp: oe_verify_def new_oe_attestation_def)
  show ?thesis
    using assms(2) extract_custom_claims_single[OF assms(3,4)] en
    by (auto simp: oe_verify_new[OF en] extract_sgx_attestation_append[OF assms(1)] andthen_Inr)
qed

text \<open>
  C24.  The custom claims are not authenticated: whatever follows the quote can be exchanged for any other
  claims the format can express, and the same quote is accepted with them.
\<close>

theorem oe_custom_claims_unauthenticated:
  assumes "length q = sgx_quote_t_size + le_nat (sub signature_len_offset 4 q)"
    and "snd (oe_verify ssl parse strptime (new_oe_attestation (q @ cc) en) opts rs) = Inr claims"
    and "val \<noteq> []" and "33 + length name + length val \<le> vector_max_size"
  shows "snd (oe_verify ssl parse strptime
       (new_oe_attestation (q @ encode_custom_claims [(name, val)]) en) opts rs)
     = Inr (claims\<lparr>oc_custom_claims := [(name, val)]\<rparr>)"
  by (rule oe_claims_exchanged[OF assms])

lemma oe_custom_claims_unauthenticated_witness:
  "\<exists>c. snd (oe_verify ex_ssl ex_parse ex_strptime (new_oe_attestation
       (ex_evidence @ encode_custom_claims [(''forged'', [1])]) (encode_oe_endorsements ex_oe_items)) default_options None)
     = Inr c \<and> oc_custom_claims c = [(''forged'', [1])]"
proof -
  obtain c where "snd (oe_verify ex_ssl ex_parse ex_strptime (new_oe_attestation (ex_evidence @ [])
     (encode_oe_endorsements ex_oe_items)) default_options None) = Inr c" using ex_oe_verifies by blast
  from oe_custom_claims_unauthenticated[OF ex_evidence_sized this, of "[1]" "''forged''"]
  show ?thesis by (simp add: vector_max_size_def)
qed

text \<open>
  C40. The claims of accepted Open Enclave evidence can be written as text if and only if all strings in them are
  UTF-8: the texts of the endorsements and the names of the custom claims.  Since these names are not
  authenticated, what follows an accepted quote can be exchanged for a custom claim of any name: the evidence
  is still accepted, with the same SGX claims, and now it depends on that name, too, whether its claims
  can be written.
\<close>

theorem accepted_claims_without_text:
  assumes "dump_law utf8 dump"
    and "length q = sgx_quote_t_size + le_nat (sub signature_len_offset 4 q)"
    and "snd (oe_verify ssl parse strptime (new_oe_attestation (q @ cc) en) opts rs) = Inr claims"
    and "val \<noteq> []" and "33 + length name + length val \<le> vector_max_size"
  shows "(is_ok (claims_text dump (Oe_Claims claims)) \<longleftrightarrow>
       list_all utf8 (sgx_claims_strings (oc_sgx_claims claims)) \<and> list_all utf8 (map fst (oc_custom_claims claims)))
   \<and> (\<exists>x. snd (oe_verify ssl parse strptime
         (new_oe_attestation (q @ encode_custom_claims [(name, val)]) en) opts rs) = Inr x
       \<and> oc_sgx_claims x = oc_sgx_claims claims
       \<and> (is_ok (claims_text dump (Oe_Claims x)) \<longleftrightarrow>
            list_all utf8 (sgx_claims_strings (oc_sgx_claims claims)) \<and> utf8 name))"
proof -
  have t: "is_ok (claims_text dump (Oe_Claims c)) \<longleftrightarrow>
     list_all utf8 (sgx_claims_strings (oc_sgx_claims c)) \<and> list_all utf8 (map fst (oc_custom_claims c))" for c
    by (simp only: claims_text_ok[OF assms(1)] claims_strings.simps list_all_append)
  from oe_claims_exchanged[OF assms(2-5)] show ?thesis by (simp add: t del: claims_text.simps)
qed

lemma accepted_claims_without_text_witness:
  "\<exists>x. snd (oe_verify ex_ssl ex_parse ex_strptime (new_oe_attestation
       (ex_evidence @ encode_custom_claims [([CHR 0xFF], [1])]) (encode_oe_endorsements ex_oe_items)) default_options None)
     = Inr x \<and> \<not> is_ok (claims_text (\<lambda>j. if list_all (list_all (\<lambda>c. \<not> digit7 c)) (json_strings j)
         then Inr [] else Inl json_type_error) (Oe_Claims x))"
proof -
  let ?utf8 = "list_all (\<lambda>c. \<not> digit7 c)"
  let ?dump = "\<lambda>j. if list_all ?utf8 (json_strings j) then Inr [] else Inl json_type_error"
  have l: "dump_law ?utf8 ?dump" and u: "\<not> ?utf8 [CHR 0xFF]" by (simp_all add: dump_law_def is_ok_iff)
  obtain c where "snd (oe_verify ex_ssl ex_parse ex_strptime (new_oe_attestation (ex_evidence @ [])
     (encode_oe_endorsements ex_oe_items)) default_options None) = Inr c" using ex_oe_verifies by blast
  from accepted_claims_without_text[OF l ex_evidence_sized this, of "[1]" "[CHR 0xFF]"] u
  show ?thesis by (auto simp: vector_max_size_def simp del: claims_text.simps)
qed

text \<open>
  Evidence with more than one custom claim is refused as soon as the first one's name has eight
  ASCII characters: the second entry is looked for inside the first one's name, whose characters
  are taken for a size.
\<close>

theorem oe_second_claim_refused:
  assumes "8 \<le> length name" and "list_all (\<lambda>c. 0 < (of_char c :: nat) \<and> (of_char c :: nat) < 128) name"
    and "claims \<noteq> []" and "length (encode_custom_claims ((name, val) # claims)) < 2 ^ 56"
  shows "\<exists>e. extract_custom_claims (encode_custom_claims ((name, val) # claims)) [] = Inl e"
  by (rule second_claim_fails[OF assms])

lemma oe_second_claim_refused_witness:
  "\<exists>e. extract_custom_claims (encode_custom_claims [(''enclave_id'', [1]), (''version'', [2])]) [] = Inl e"
  by (rule oe_second_claim_refused) (simp_all add: encode_custom_claims_def)



text \<open>
  With the branch for a plugin header, the split of evidence and endorsements accepts exactly pairs of
  headers of version 3 followed by as many bytes as they announce, and returns these bytes.  The
  identifier in the header of the evidence must be that of SGX ECDSA; the one in the header of the
  endorsements is not looked at.
\<close>

theorem oe_plugin_header_roundtrip:
  "extract_sgx_attestation_with True ev en = Inr r \<longleftrightarrow>
     (\<exists>d1 d2 u. length u = 16 \<and> ev = with_header sgx_remote_uuid d1 \<and> en = with_header u d2
        \<and> length d1 \<le> vector_max_size \<and> length d2 \<le> vector_max_size \<and> r = ((d1, d2), []))"
  by (simp add: extract_sgx_attestation_with_def extract_with_plugin_header_Inr)

end
