(* ===== verification/AsyncHttp.thy ===== *)
theory AsyncHttp
  imports Http
begin

text \<open>
  \<open>CurlClient\<close> of \<open>http_client_curl.cpp\<close>, the client behind \<open>AsynchronousHTTPClient\<close>: a request set is
  submitted to a curl multi handle and polled by its own monitor thread until every answer has a
  status.  What curl does during one poll is an event: the data it writes, how many transfers still
  run, which ones are reported as done.  The callback of a set is called with the client's mutex held, so
  what it does cannot touch the client (\<open>std::mutex\<close> is not recursive): it acts on a state of its own.
\<close>

section \<open>Curl\<close>

text \<open>A write through the pointer to the i-th response of the set.\<close>

datatype curl_write = Body_Data nat string | Header_Data nat string string

fun apply_write :: "curl_write \<Rightarrow> HTTPResponse list \<Rightarrow> HTTPResponse list result" where
  "apply_write (Body_Data i chunk) rs =
     Inr (if i < length rs then rs[i := body_write_fun chunk (rs ! i)] else rs)"
| "apply_write (Header_Data i buffer after) rs =
     (if i < length rs then andthen (header_write_fun buffer after (rs ! i)) (\<lambda>r. Inr (rs[i := r])) else Inr rs)"

fun apply_writes :: "curl_write list \<Rightarrow> HTTPResponse list \<Rightarrow> HTTPResponse list result" where
  "apply_writes [] rs = Inr rs"
| "apply_writes (w # ws) rs = andthen (apply_write w rs) (apply_writes ws)"

record curl_event =
  ev_perform_ok :: bool
  ev_writes :: "curl_write list"
  ev_running :: nat
  ev_wait_ok :: bool
  ev_messages :: "(nat \<times> u32) list"

text \<open>A header that curl passes on whole: it has its colon, and memory follows it.\<close>

fun write_ok :: "curl_write \<Rightarrow> bool" where
  "write_ok (Body_Data i chunk) = True"
| "write_ok (Header_Data i buffer after) = is_ok (header_write_fun buffer after empty_response)"

lemma apply_writes_ok: "list_all write_ok ws \<Longrightarrow> \<exists>rs'. apply_writes ws rs = Inr rs'"
proof (induction ws arbitrary: rs)
  case (Cons w ws)
  have "\<exists>rs'. apply_write w rs = Inr rs'"
  proof (cases w)
    case (Header_Data i buffer after)
    with Cons.prems have "is_ok (header_write_fun buffer after (rs ! i))"
      using header_write_ok[of buffer after "rs ! i" empty_response] by simp
    with Header_Data show ?thesis by (auto simp: is_ok_iff)
  qed simp
  with Cons show ?case by auto
qed simp

section \<open>The client\<close>

text \<open>A monitor is the flag \<open>keep_going\<close> and the callback, which may be empty.\<close>

record 'cb monitor =
  keep_going :: bool
  mon_callback :: "'cb option"

record 'cb curl_client =
  curl_requests :: "(HTTPRequestSetId, HTTPRequest list) std_map"
  curl_responses :: "(HTTPRequestSetId, HTTPResponse list) std_map"
  monitor_threads :: "(HTTPRequestSetId, 'cb monitor) std_map"

definition new_curl_client :: "'cb curl_client" where
  "new_curl_client = \<lparr>curl_requests = [], curl_responses = [], monitor_threads = []\<rparr>"

definition curl_writes ::
  "HTTPRequestSetId \<Rightarrow> curl_write list \<Rightarrow> 'cb curl_client \<Rightarrow> 'cb curl_client \<times> unit result" where
  "curl_writes sid ws c = (case map_find sid (curl_responses c) of
       None \<Rightarrow> (c, Inr ())
     | Some rs \<Rightarrow> (case apply_writes ws rs of
          Inl e \<Rightarrow> (c, Inl e)
        | Inr rs' \<Rightarrow> (c\<lparr>curl_responses := assign sid rs' (curl_responses c)\<rparr>, Inr ())))"

text \<open>
  \<open>submit\<close>; \<open>init_ok\<close> and \<open>easy_ok\<close> tell whether the handles could be created.  The identifier of the
  set is the number of sets.
\<close>

definition curl_submit ::
  "bool \<Rightarrow> bool \<Rightarrow> curl_event \<Rightarrow> HTTPRequest list \<Rightarrow> 'cb option \<Rightarrow> 'cb curl_client \<Rightarrow>
   'cb curl_client \<times> HTTPRequestSetId result" where
  "curl_submit init_ok easy_ok ev rs cb c =
     (let sid = length (curl_requests c);
          (m, ok) = emplace sid rs (curl_requests c)
      in if \<not> ok then (c, Inl Bad_Alloc)
         else let c = c\<lparr>curl_requests := m\<rparr> in
           if \<not> init_ok then (c, Inl Bad_Alloc)
           else let (m, ok) = emplace sid (replicate (length rs) empty_response) (curl_responses c) in
             if \<not> ok then (c, Inl Bad_Alloc)
             else let c = c\<lparr>curl_responses := m\<rparr> in
               if \<not> easy_ok then (c, Inl Bad_Alloc)
               else case curl_writes sid (ev_writes ev) c of
                   (c, Inl e) \<Rightarrow> (c, Inl e)
                 | (c, Inr _) \<Rightarrow>
                     if \<not> ev_perform_ok ev then (c, Inl (Runtime_Error ''curl_multi_perform unsuccessful''))
                     else (c\<lparr>monitor_threads :=
                              assign sid \<lparr>keep_going = True, mon_callback = cb\<rparr> (monitor_threads c)\<rparr>, Inr sid))"

definition curl_is_complete ::
  "curl_event \<Rightarrow> HTTPRequestSetId \<Rightarrow> 'cb curl_client \<Rightarrow> 'cb curl_client \<times> bool result" where
  "curl_is_complete ev sid c =
     (case map_find sid (curl_requests c) of
        None \<Rightarrow> (c, Inl (Runtime_Error ''no such request set''))
      | Some _ \<Rightarrow>
          (case curl_writes sid (ev_writes ev) c of
             (c, Inl e) \<Rightarrow> (c, Inl e)
           | (c, Inr _) \<Rightarrow>
               if \<not> ev_perform_ok ev then (c, Inr True)
               else if ev_running ev > 0 then (c, Inr False)
               else case map_find sid (curl_responses c) of
                 None \<Rightarrow> (c, Inr False)
               | Some rs \<Rightarrow> (c, Inr (list_all (\<lambda>r. status r \<noteq> 0) rs))))"

text \<open>\<open>complete\<close>: the status of the finished transfer, and the retry.\<close>

definition curl_complete ::
  "(string \<Rightarrow> int) \<Rightarrow> HTTPRequestSetId \<Rightarrow> nat \<times> u32 \<Rightarrow> 'cb curl_client \<Rightarrow> 'cb curl_client \<times> unit result" where
  "curl_complete atol sid msg c =
     (case map_find sid (curl_requests c) of
        None \<Rightarrow> (c, Inr ())
      | Some qs \<Rightarrow>
          (case map_find sid (curl_responses c) of
             None \<Rightarrow> (c, Inl (Runtime_Error ''response set not found''))
           | Some rs \<Rightarrow>
               (let rs = (if length rs \<noteq> length qs
                          then take (length qs) rs @ replicate (length qs - length rs) empty_response else rs);
                    i = fst msg
                in if length rs \<le> i
                   then (c\<lparr>curl_responses := assign sid rs (curl_responses c)\<rparr>,
                         Inl (Runtime_Error ''request index too large''))
                   else (let r = snd (must_retry atol ((rs ! i)\<lparr>status := snd msg\<rparr>))
                         in (c\<lparr>curl_responses := assign sid (rs[i := r]) (curl_responses c)\<rparr>, Inr ())))))"

fun consume_msgs ::
  "(string \<Rightarrow> int) \<Rightarrow> HTTPRequestSetId \<Rightarrow> (nat \<times> u32) list \<Rightarrow> 'cb curl_client \<Rightarrow>
   'cb curl_client \<times> unit result" where
  "consume_msgs atol sid [] c = (c, Inr ())"
| "consume_msgs atol sid (m # ms) c =
     (case curl_complete atol sid m c of
        (c, Inl e) \<Rightarrow> (c, Inl e)
      | (c, Inr _) \<Rightarrow> consume_msgs atol sid ms c)"

definition stop_monitor :: "HTTPRequestSetId \<Rightarrow> 'cb curl_client \<Rightarrow> 'cb curl_client" where
  "stop_monitor sid c = (case map_find sid (monitor_threads c) of
       None \<Rightarrow> c
     | Some m \<Rightarrow> c\<lparr>monitor_threads := assign sid (m\<lparr>keep_going := False\<rparr>) (monitor_threads c)\<rparr>)"

text \<open>\<open>poll\<close>; \<open>run\<close> is what calling a callback does to the caller's state.\<close>

definition curl_poll ::
  "(string \<Rightarrow> int) \<Rightarrow> ('cb \<Rightarrow> HTTPResponse list \<Rightarrow> 's \<Rightarrow> 's \<times> unit result) \<Rightarrow> curl_event \<Rightarrow> HTTPRequestSetId \<Rightarrow>
   'cb option \<Rightarrow> 'cb curl_client \<Rightarrow> 's \<Rightarrow> 'cb curl_client \<times> 's \<times> bool result" where
  "curl_poll atol run ev sid callback c s =
     (case curl_is_complete ev sid c of
        (c, Inl e) \<Rightarrow> (c, s, Inl e)
      | (c, Inr False) \<Rightarrow>
          if \<not> ev_wait_ok ev then (c, s, Inl (Runtime_Error ''curl_multi_wait failed''))
          else (case consume_msgs atol sid (ev_messages ev) c of
                  (c, Inl e) \<Rightarrow> (c, s, Inl e)
                | (c, Inr _) \<Rightarrow> (c, s, Inr True))
      | (c, Inr True) \<Rightarrow>
          (case callback of
             None \<Rightarrow> (stop_monitor sid c, s, Inr False)
           | Some cb \<Rightarrow>
               (case consume_msgs atol sid (ev_messages ev) c of
                  (c, Inl e) \<Rightarrow> (c, s, Inl e)
                | (c, Inr _) \<Rightarrow>
                    (case map_find sid (curl_responses c) of
                       None \<Rightarrow> (c, s, Inl (Runtime_Error ''could not find url responses''))
                     | Some rs \<Rightarrow>
                         (let c = c\<lparr>curl_responses := assign sid [] (curl_responses c)\<rparr>
                          in case run cb rs s of
                               (s, Inl e) \<Rightarrow> (c, s, Inl e)
                             | (s, Inr _) \<Rightarrow>
                                 (stop_monitor sid (c\<lparr>curl_responses := erase sid (curl_responses c),
                                     curl_requests := erase sid (curl_requests c)\<rparr>), s, Inr False))))))"

text \<open>
  \<open>MonitorThread::run\<close> over the events of its polls; \<open>None\<close> when it is still running after them.  An
  exception leaves the thread's function, which ends the process.
\<close>

fun monitor_run ::
  "(string \<Rightarrow> int) \<Rightarrow> ('cb \<Rightarrow> HTTPResponse list \<Rightarrow> 's \<Rightarrow> 's \<times> unit result) \<Rightarrow> HTTPRequestSetId \<Rightarrow> 'cb option \<Rightarrow>
   curl_event list \<Rightarrow> 'cb curl_client \<Rightarrow> 's \<Rightarrow> 'cb curl_client \<times> 's \<times> unit result option" where
  "monitor_run atol run sid cb [] c s = (c, s, None)"
| "monitor_run atol run sid cb (ev # evs) c s =
     (case curl_poll atol run ev sid cb c s of
        (c, s, Inl e) \<Rightarrow> (c, s, Some (Inl e))
      | (c, s, Inr False) \<Rightarrow> (c, s, Some (Inr ()))
      | (c, s, Inr True) \<Rightarrow> monitor_run atol run sid cb evs c s)"

text \<open>\<open>erase\<close>: erasing the end iterator is undefined.\<close>

definition curl_erase :: "HTTPRequestSetId \<Rightarrow> 'cb curl_client \<Rightarrow> 'cb curl_client \<times> unit result" where
  "curl_erase sid c =
     (case map_find sid (monitor_threads c) of
        None \<Rightarrow> (c, Inl (Undefined_Behaviour ''erase(end())''))
      | Some _ \<Rightarrow> (c\<lparr>monitor_threads := erase sid (monitor_threads c),
                     curl_requests := erase sid (curl_requests c),
                     curl_responses := erase sid (curl_responses c)\<rparr>, Inr ()))"

section \<open>The invariant\<close>

text \<open>Every set of answers belongs to a set of requests of the same size.\<close>

definition set_fits :: "HTTPRequestSetId \<Rightarrow> 'cb curl_client \<Rightarrow> bool" where
  "set_fits sid c \<longleftrightarrow> pred_option (\<lambda>rs. map_option length (map_find sid (curl_requests c)) = Some (length rs))
     (map_find sid (curl_responses c))"

definition responses_fit :: "'cb curl_client \<Rightarrow> bool" where
  "responses_fit c \<longleftrightarrow> map_wf (curl_requests c) \<and> map_wf (curl_responses c) \<and> (\<forall>sid. set_fits sid c)"

lemma responses_fitD:
  assumes "responses_fit c" and "map_find sid (curl_responses c) = Some rs"
  obtains qs where "map_find sid (curl_requests c) = Some qs" "length qs = length rs"
proof -
  have "set_fits sid c" using assms(1) by (simp add: responses_fit_def)
  with assms(2) that show thesis by (auto simp: set_fits_def)
qed

lemma length_apply_write: "apply_write w rs = Inr rs' \<Longrightarrow> length rs' = length rs"
  by (cases w) (auto simp: andthen_Inr split: if_splits)

lemma length_writes: "apply_writes ws rs = Inr rs' \<Longrightarrow> length rs' = length rs"
  by (induction ws arbitrary: rs) (auto simp: andthen_Inr dest: length_apply_write)

lemma responses_fit_update:
  assumes "responses_fit c" and "map_find sid (curl_responses c) = Some rs" and "length rs' = length rs"
  shows "responses_fit (c\<lparr>curl_responses := assign sid rs' (curl_responses c)\<rparr>)"
proof -
  have "set_fits j (c\<lparr>curl_responses := assign sid rs' (curl_responses c)\<rparr>)" for j
  proof -
    have "set_fits j c" using assms(1) by (simp add: responses_fit_def)
    with assms(2,3) show ?thesis by (auto simp: set_fits_def map_find_assign)
  qed
  with assms(1) show ?thesis by (simp add: responses_fit_def map_wf_assign)
qed

lemma curl_writes_fit: "responses_fit c \<Longrightarrow> curl_writes sid ws c = (c', r) \<Longrightarrow> responses_fit c'"
  by (auto simp: curl_writes_def dest: length_writes intro: responses_fit_update split: option.splits sum.splits)

lemma curl_writes_frame:
  "curl_writes sid ws c = (c', r) \<Longrightarrow> curl_requests c' = curl_requests c \<and> monitor_threads c' = monitor_threads c"
  by (auto simp: curl_writes_def split: option.splits sum.splits)

lemma responses_fit_monitors [simp]:
  "responses_fit (c\<lparr>monitor_threads := m\<rparr>) = responses_fit c"
  by (simp add: responses_fit_def set_fits_def)

lemma stop_monitor_fit [simp]: "responses_fit (stop_monitor sid c) = responses_fit c"
  by (simp add: stop_monitor_def split: option.split)

lemma stop_monitor_frame [simp]: "curl_requests (stop_monitor sid c) = curl_requests c"
  "curl_responses (stop_monitor sid c) = curl_responses c"
  by (simp_all add: stop_monitor_def split: option.split)

lemma new_curl_client_fit: "responses_fit new_curl_client"
  by (simp add: responses_fit_def set_fits_def new_curl_client_def map_wf_def)

lemma new_set_fit:
  assumes "responses_fit c" and "map_find sid (curl_requests c) = None"
  shows "responses_fit (c\<lparr>curl_requests := curl_requests c @ [(sid, rs)]\<rparr>)"
    and "length xs = length rs \<Longrightarrow> responses_fit (c\<lparr>curl_requests := curl_requests c @ [(sid, rs)],
           curl_responses := curl_responses c @ [(sid, xs)]\<rparr>)"
    and "map_find sid (curl_responses c) = None"
proof -
  show n: "map_find sid (curl_responses c) = None"
    using assms(2) by (metis responses_fitD[OF assms(1)] option.distinct(1) option.exhaust)
  have w: "map_wf (curl_requests c @ [(sid, rs)])" "map_wf (curl_responses c @ [(sid, xs)])"
    using assms n by (simp_all add: responses_fit_def map_wf_snoc flip: map_find_keys)
  have f: "set_fits j c" for j using assms(1) by (simp add: responses_fit_def)
  have "set_fits j (c\<lparr>curl_requests := curl_requests c @ [(sid, rs)]\<rparr>)" for j
    using f[of j] assms(2) n by (auto simp: set_fits_def map_find_snoc split: option.splits)
  with w assms(1) show "responses_fit (c\<lparr>curl_requests := curl_requests c @ [(sid, rs)]\<rparr>)"
    by (simp add: responses_fit_def)
  assume l: "length xs = length rs"
  have "set_fits j (c\<lparr>curl_requests := curl_requests c @ [(sid, rs)],
      curl_responses := curl_responses c @ [(sid, xs)]\<rparr>)" for j
    using f[of j] assms(2) n l by (auto simp: set_fits_def map_find_snoc split: option.splits)
  with w show "responses_fit (c\<lparr>curl_requests := curl_requests c @ [(sid, rs)],
      curl_responses := curl_responses c @ [(sid, xs)]\<rparr>)" by (simp add: responses_fit_def)
qed

lemma curl_submit_fit:
  assumes "responses_fit c" and "curl_submit init_ok easy_ok ev rs cb c = (c', r)"
  shows "responses_fit c'"
proof (cases "map_find (length (curl_requests c)) (curl_requests c)")
  case None
  let ?n = "length (curl_requests c)"
  note n = new_set_fit(1,2)[OF assms(1) None] and n3 = new_set_fit(3)[OF assms(1) None]
  let ?c = "c\<lparr>curl_requests := curl_requests c @ [(?n, rs)],
      curl_responses := curl_responses c @ [(?n, replicate (length rs) empty_response)]\<rparr>"
  obtain c1 r1 where 1: "curl_writes ?n (ev_writes ev) ?c = (c1, r1)" by force
  have "responses_fit c1" by (rule curl_writes_fit[OF n(2) 1]) simp
  moreover have "c' = c \<or> c' = c\<lparr>curl_requests := curl_requests c @ [(?n, rs)]\<rparr> \<or> c' = ?c \<or> c' = c1
     \<or> (\<exists>m. c' = c1\<lparr>monitor_threads := m\<rparr>)"
    using assms(2) None n3 1 by (auto simp: curl_submit_def Let_def emplace_def split: if_splits sum.splits)
  ultimately show ?thesis using assms(1) n(1) n(2)[of "replicate (length rs) empty_response"] by auto
next
  case (Some q)
  with assms show ?thesis by (simp add: curl_submit_def Let_def emplace_def)
qed

lemma curl_is_complete_frame:
  "curl_is_complete ev sid c = (c', r) \<Longrightarrow> c' = c \<or> (\<exists>r'. curl_writes sid (ev_writes ev) c = (c', r'))"
  by (auto simp: curl_is_complete_def split: option.splits if_splits sum.splits prod.splits)

lemma curl_is_complete_fit: "responses_fit c \<Longrightarrow> curl_is_complete ev sid c = (c', r) \<Longrightarrow> responses_fit c'"
  using curl_is_complete_frame[of ev sid c c' r] curl_writes_fit by auto

lemma curl_is_complete_requests: "curl_is_complete ev sid c = (c', r) \<Longrightarrow> curl_requests c' = curl_requests c"
  using curl_is_complete_frame[of ev sid c c' r] by (auto dest: curl_writes_frame)

text \<open>\<open>complete\<close> never has to resize; it fails only for an index that is not one of the set's.\<close>

lemma curl_complete_fit:
  assumes "responses_fit c" and "curl_complete atol sid msg c = (c', r)"
  shows "responses_fit c'" and "curl_requests c' = curl_requests c" and "monitor_threads c' = monitor_threads c"
    and "map_find sid (curl_responses c) = Some rs \<Longrightarrow> fst msg < length rs \<Longrightarrow> r = Inr ()"
proof -
  have "responses_fit c' \<and> curl_requests c' = curl_requests c \<and> monitor_threads c' = monitor_threads c
    \<and> (map_find sid (curl_responses c) = Some rs \<longrightarrow> fst msg < length rs \<longrightarrow> r = Inr ())"
  proof (cases "map_find sid (curl_responses c)")
    case None
    with assms show ?thesis by (auto simp: curl_complete_def split: option.splits)
  next
    case (Some rs')
    then obtain qs where "map_find sid (curl_requests c) = Some qs" "length qs = length rs'"
      using responses_fitD[OF assms(1)] by blast
    with Some assms show ?thesis
      by (auto simp: curl_complete_def Let_def intro!: responses_fit_update split: if_splits)
  qed
  then show "responses_fit c'" "curl_requests c' = curl_requests c" "monitor_threads c' = monitor_threads c"
    "map_find sid (curl_responses c) = Some rs \<Longrightarrow> fst msg < length rs \<Longrightarrow> r = Inr ()" by blast+
qed

lemma consume_msgs_fit:
  "responses_fit c \<Longrightarrow> consume_msgs atol sid ms c = (c', r) \<Longrightarrow>
   responses_fit c' \<and> curl_requests c' = curl_requests c \<and> monitor_threads c' = monitor_threads c"
proof (induction ms arbitrary: c)
  case Nil
  then show ?case by simp
next
  case (Cons m ms)
  obtain c1 r1 where 1: "curl_complete atol sid m c = (c1, r1)" by force
  note f = curl_complete_fit[OF Cons.prems(1) 1]
  show ?case
  proof (cases r1)
    case (Inl e)
    with 1 Cons.prems(2) f show ?thesis by simp
  next
    case (Inr u)
    with 1 Cons.prems(2) have "consume_msgs atol sid ms c1 = (c', r)" by simp
    from Cons.IH[OF f(1) this] f show ?thesis by simp
  qed
qed

lemma erase_set_fit:
  assumes "responses_fit c"
  shows "responses_fit (c\<lparr>curl_requests := erase sid (curl_requests c), curl_responses := erase sid (curl_responses c)\<rparr>)"
proof -
  have "set_fits j c" for j using assms by (simp add: responses_fit_def)
  then have "set_fits j (c\<lparr>curl_requests := erase sid (curl_requests c),
      curl_responses := erase sid (curl_responses c)\<rparr>)" for j
    unfolding set_fits_def by (simp add: map_find_erase)
  with assms show ?thesis by (simp add: responses_fit_def store.inv_del)
qed

lemma curl_erase_fit: "responses_fit c \<Longrightarrow> curl_erase sid c = (c', r) \<Longrightarrow> responses_fit c'"
  using erase_set_fit[of c sid] by (auto simp: curl_erase_def responses_fit_def set_fits_def split: option.splits)

section \<open>What a monitor does\<close>

text \<open>A poll that goes on has not called the callback.\<close>

lemma curl_poll_goes_on:
  assumes "responses_fit c" and "curl_poll atol run ev sid callback c s = (c', s', Inr True)"
  shows "s' = s \<and> responses_fit c' \<and> curl_requests c' = curl_requests c \<and> map_find sid (curl_requests c) \<noteq> None"
proof -
  obtain c1 r1 where 1: "curl_is_complete ev sid c = (c1, r1)" by force
  have f1: "responses_fit c1" "curl_requests c1 = curl_requests c"
    using curl_is_complete_fit[OF assms(1) 1] curl_is_complete_requests[OF 1] by auto
  obtain c2 r2 where 2: "consume_msgs atol sid (ev_messages ev) c1 = (c2, r2)" by force
  note f2 = consume_msgs_fit[OF f1(1) 2]
  have "r1 = Inr False \<and> ev_wait_ok ev \<and> c' = c2 \<and> s' = s"
    using assms(2) 1 2 by (auto simp: curl_poll_def Let_def split: sum.splits bool.splits option.splits prod.splits if_splits)
  moreover have "map_find sid (curl_requests c) \<noteq> None"
    using 1 calculation by (auto simp: curl_is_complete_def split: option.splits)
  ultimately show ?thesis using f1 f2 by auto
qed

text \<open>The last poll calls it with an answer for every request, and forgets the set.\<close>

lemma curl_poll_delivers:
  assumes "responses_fit c" and "curl_poll atol run ev sid (Some cb) c s = (c', s', Inr False)"
  shows "\<exists>qs out. map_find sid (curl_requests c) = Some qs \<and> length out = length qs
     \<and> run cb out s = (s', Inr ())
     \<and> (ev_perform_ok ev \<and> ev_messages ev = [] \<longrightarrow> list_all (\<lambda>r. status r \<noteq> 0) out)
     \<and> curl_requests c' = erase sid (curl_requests c) \<and> map_find sid (curl_responses c') = None
     \<and> responses_fit c'"
proof -
  obtain c1 r1 where 1: "curl_is_complete ev sid c = (c1, r1)" by force
  have f1: "responses_fit c1" "curl_requests c1 = curl_requests c"
    using curl_is_complete_fit[OF assms(1) 1] curl_is_complete_requests[OF 1] by auto
  obtain c2 r2 where 2: "consume_msgs atol sid (ev_messages ev) c1 = (c2, r2)" by force
  note f2 = consume_msgs_fit[OF f1(1) 2]
  note P = assms(2)[unfolded curl_poll_def 1 prod.case]
  have t: "r1 = Inr True" using P 2
    by (auto split: sum.splits bool.splits if_splits)
  have r2: "r2 = Inr ()" using P 2 unfolding t by (auto split: sum.splits)
  from P obtain out where o: "map_find sid (curl_responses c2) = Some out" and cb: "run cb out s = (s', Inr ())"
    and c': "c' = stop_monitor sid (c2\<lparr>curl_responses := erase sid (assign sid [] (curl_responses c2)),
         curl_requests := erase sid (curl_requests c2)\<rparr>)"
    unfolding t using 2 r2 by (auto simp: Let_def split: option.splits prod.splits sum.splits)
  have f2': "responses_fit c2" using f2 by blast
  obtain qs where q: "map_find sid (curl_requests c2) = Some qs" "length qs = length out"
    by (rule responses_fitD[OF f2' o])
  have e: "erase sid (assign sid x m) = erase sid m" for x :: "HTTPResponse list" and m
    by (induction m) (auto simp: erase_def)
  have u: "c2\<lparr>curl_responses := a, curl_requests := b\<rparr> = c2\<lparr>curl_requests := b, curl_responses := a\<rparr>" for a b
    by (cases c2) simp
  have "responses_fit c'" unfolding c' stop_monitor_fit e u by (rule erase_set_fit[OF f2'])
  moreover have "list_all (\<lambda>r. status r \<noteq> 0) out" if "ev_perform_ok ev" "ev_messages ev = []"
  proof -
    have "c2 = c1" using 2 that(2) by simp
    with 1 that(1) o t show ?thesis
      by (auto simp: curl_is_complete_def split: option.splits if_splits prod.splits sum.splits)
  qed
  ultimately show ?thesis using q cb f1 f2
    by (intro exI[of _ qs] exI[of _ out]) (auto simp: c' e map_find_erase)
qed

text \<open>While a monitor runs, the callback has not been called; when it ends, exactly once.\<close>

lemma monitor_run_running:
  assumes "responses_fit c" and "monitor_run atol run sid cb evs c s = (c', s', None)"
  shows "s' = s \<and> responses_fit c' \<and> curl_requests c' = curl_requests c"
  using assms
proof (induction evs arbitrary: c s)
  case (Cons ev evs)
  obtain c1 s1 r where p: "curl_poll atol run ev sid cb c s = (c1, s1, r)"
    by (cases "curl_poll atol run ev sid cb c s")
  from Cons.prems(2) p have "r = Inr True" and m: "monitor_run atol run sid cb evs c1 s1 = (c', s', None)"
    by (auto split: sum.splits bool.splits)
  with curl_poll_goes_on[OF Cons.prems(1), of atol run ev sid cb s c1 s1] p
  have "s1 = s \<and> responses_fit c1 \<and> curl_requests c1 = curl_requests c" by simp
  with Cons.IH[OF _ m] show ?case by simp
qed simp

lemma monitor_run_ends:
  assumes "responses_fit c" and "monitor_run atol run sid (Some cb) evs c s = (c', s', Some (Inr u))"
  shows "\<exists>qs out. map_find sid (curl_requests c) = Some qs \<and> length out = length qs
     \<and> run cb out s = (s', Inr ())
     \<and> (list_all (\<lambda>r. status r \<noteq> 0) out
          \<or> (\<exists>ev \<in> set evs. \<not> ev_perform_ok ev \<or> ev_messages ev \<noteq> []))
     \<and> curl_requests c' = erase sid (curl_requests c) \<and> responses_fit c'"
  using assms
proof (induction evs arbitrary: c s)
  case (Cons ev evs)
  obtain c1 s1 r where p: "curl_poll atol run ev sid (Some cb) c s = (c1, s1, r)"
    by (cases "curl_poll atol run ev sid (Some cb) c s")
  from Cons.prems(2) p obtain b where r: "r = Inr b" by (auto split: sum.splits)
  show ?case
  proof (cases b)
    case True
    with p r curl_poll_goes_on[OF Cons.prems(1), of atol run ev sid "Some cb" s c1 s1]
    have g: "s1 = s" "responses_fit c1" "curl_requests c1 = curl_requests c" by simp_all
    have m: "monitor_run atol run sid (Some cb) evs c1 s1 = (c', s', Some (Inr u))"
      using Cons.prems(2) p r True by simp
    from Cons.IH[OF g(2) m] g show ?thesis by fastforce
  next
    case False
    with Cons.prems(2) p r have e: "c1 = c'" "s1 = s'" by auto
    from curl_poll_delivers[OF Cons.prems(1), of atol run ev sid cb s c' s'] p r False e
    obtain qs out where *: "map_find sid (curl_requests c) = Some qs" "length out = length qs"
      "run cb out s = (s', Inr ())"
      "ev_perform_ok ev \<and> ev_messages ev = [] \<longrightarrow> list_all (\<lambda>r. status r \<noteq> 0) out"
      "curl_requests c' = erase sid (curl_requests c)" "responses_fit c'" by auto
    then show ?thesis by (intro exI[of _ qs] exI[of _ out]) auto
  qed
qed simp

section \<open>Identifiers and retries\<close>

text \<open>A submission fails at once exactly when the number of sets is the identifier of one of them.\<close>

lemma curl_submit_taken:
  assumes "map_find (length (curl_requests c)) (curl_requests c) \<noteq> None"
  shows "curl_submit init_ok easy_ok ev rs cb c = (c, Inl Bad_Alloc)"
  using assms by (auto simp: curl_submit_def Let_def emplace_def)

text \<open>The sets in use are numbered from zero; when one below the last is finished, the next one fails.\<close>

lemma curl_submit_collides:
  assumes "responses_fit c" and "keys (curl_requests c) = {..<Suc n}" and "k < n"
    and "curl_requests c' = erase k (curl_requests c)"
  shows "curl_submit init_ok easy_ok ev rs cb c' = (c', Inl Bad_Alloc)"
proof (rule curl_submit_taken)
  have "map_wf (curl_requests c)" using assms(1) by (simp add: responses_fit_def)
  from store.size_key_reused[OF this, of "\<lambda>i. i" n k] assms(2-4)
  show "map_find (length (curl_requests c')) (curl_requests c') \<noteq> None" by simp
qed

text \<open>Every poll of a server that asks to retry leaves the client as it was.\<close>

definition ask_again :: curl_event where
  "ask_again = \<lparr>ev_perform_ok = True, ev_writes = [Header_Data 0 ''Retry-After: 1'' [CHR 0x00]],
     ev_running = 0, ev_wait_ok = True, ev_messages = [(0, 429)]\<rparr>"

lemma assign_same: "map_find k m = Some v \<Longrightarrow> assign k v m = m"
  by (induction m) (auto split: if_splits)

lemma retry_header: "header_write_fun ''Retry-After: 1'' [CHR 0x00] empty_response =
   Inr (empty_response\<lparr>headers := [(''Retry-After'', ''1'' @ [CHR 0x00])]\<rparr>)"
proof -
  have "str_find ''Retry-After: 1'' '':'' 0 = Some 11" by (simp add: str_find.simps occurs_at_def)
  moreover have "c_str (''Retry-After: 1'' @ [CHR 0x00]) = ''Retry-After: 1''" by (simp add: c_str_def)
  ultimately show ?thesis
    by (simp add: header_write_fun_def empty_response_def emplace_def Let_def throw_if_def size_max_def string_max_size_def)
qed

lemma ask_again_poll:
  assumes "map_find sid (curl_requests c) = Some [q]" and "map_find sid (curl_responses c) = Some [empty_response]"
    and "atol ''1'' \<noteq> 0"
  shows "curl_poll atol run ask_again sid cb c s = (c, s, Inr True)"
proof -
  let ?h = "empty_response\<lparr>headers := [(''Retry-After'', ''1'' @ [CHR 0x00])]\<rparr>"
  let ?c = "c\<lparr>curl_responses := assign sid [?h] (curl_responses c)\<rparr>"
  have w: "curl_writes sid (ev_writes ask_again) c = (?c, Inr ())"
    using assms(2) by (simp add: curl_writes_def ask_again_def retry_header)
  have ic: "curl_is_complete ask_again sid c = (?c, Inr False)"
    using assms(1,2) by (simp add: curl_is_complete_def w Let_def map_find_assign)
      (simp add: ask_again_def empty_response_def)
  have mr: "must_retry atol (?h\<lparr>status := 429\<rparr>) = (True, empty_response)"
    using assms(3)
    by (simp add: must_retry_def get_header_string_def get_header_data_def empty_response_def c_str_def)
  have "consume_msgs atol sid (ev_messages ask_again) ?c = (c, Inr ())"
    using assms(1,2) mr
    by (simp add: ask_again_def curl_complete_def Let_def map_find_assign assign_same)
  then show ?thesis by (simp add: curl_poll_def ic) (simp add: ask_again_def)
qed

lemma ask_again_forever:
  assumes "map_find sid (curl_requests c) = Some [q]" and "map_find sid (curl_responses c) = Some [empty_response]"
    and "atol ''1'' \<noteq> 0"
  shows "monitor_run atol run sid cb (replicate n ask_again) c s = (c, s, None)"
proof -
  have "curl_poll atol run ask_again sid cb c s = (c, s, Inr True)"
    by (rule ask_again_poll) (rule assms)+
  then show ?thesis by (induction n) simp_all
qed

end
