(* ===== verification/TrackerProps.thy ===== *)
theory TrackerProps
  imports EnvExample AsyncHttp
begin

text \<open>The properties of the request tracker and the drivers, with the clients they run on.\<close>

lemma attestation_law_of:
  assumes "sync_ok c"
  shows "snd (verify_synchronized (sync_submit exec) er (Some (attestation_of E a)) opts c) =
     (case verify_synchronous (sync_submit exec) (attestation_of E a) opts c of
        Inr cl \<Rightarrow> Inr cl | Inl e \<Rightarrow> Inl (if is_std_exception e then Runtime_Error ''error'' else e))"
  unfolding attestation_of_def by (rule any_law.synchronized_synchronous[OF assms])

text \<open>
  C5.  The two drivers agree: for every attestation of the library, over the synchronous client, the one
  that goes through the tracker's state machine returns what the direct one returns; only the message
  of an error is lost.
\<close>

theorem synchronized_is_synchronous:
  assumes "sync_ok c"
  shows "snd (verify_synchronized (sync_submit exec) er (Some (attestation_of E a)) opts c) =
     (case verify_synchronous (sync_submit exec) (attestation_of E a) opts c of
        Inr cl \<Rightarrow> Inr cl | Inl e \<Rightarrow> Inl (if is_std_exception e then Runtime_Error ''error'' else e))"
  by (rule attestation_law_of[OF assms])

lemma synchronized_is_synchronous_witness:
  "\<exists>cl. snd (verify_synchronized (sync_submit (\<lambda>_. Inl Bad_Alloc)) (\<lambda>k c. c) (Some (attestation_of ex_env ex_sgx)) default_options
     new_sync_client) = Inr (Sgx_Claims cl)"
  unfolding synchronized_is_synchronous[OF ex_sync(1)] verify_synchronous_fetched[OF ex_sync(1)]
  using ex_sgx_verify by (auto simp: verify_fetched_def ex_sgx_prepare)

text \<open>
  C11.  Claims that \<open>verify_synchronized\<close> returns for an SGX attestation are those of the SGX verifier, on
  answers that were all fetched with status 200 for the requests that the attestation prepared, or on
  no answers when it needs none.
\<close>

theorem synchronized_sgx_sound:
  assumes "sync_ok c"
    and "snd (verify_synchronized (sync_submit exec) er (Some (attestation_of E (Sgx_Attestation ev en))) opts c) = Inr cl"
  shows "\<exists>sc rs. cl = Sgx_Claims sc
     \<and> verify (env_ssl E) (env_json_parse E) (env_strptime E) ev en opts rs = Inr sc
     \<and> (case prepare_endorsements (env_ssl E) (env_vformat E) ev en opts of
          Inr (Some qs) \<Rightarrow> (\<exists>out. rs = Some out \<and> list_all2 (sync_answers exec) qs out)
        | Inr None \<Rightarrow> rs = None
        | Inl _ \<Rightarrow> False)"
proof -
  let ?prep = "prepare_endorsements (env_ssl E) (env_vformat E) ev en opts"
  from assms(2) have f: "verify_fetched exec (attestation_of E (Sgx_Attestation ev en)) opts None = Inr cl"
    unfolding attestation_law_of[OF assms(1)] verify_synchronous_fetched[OF assms(1)] by (simp split: sum.splits)
  show ?thesis
  proof (cases ?prep)
    case (Inl e)
    with f show ?thesis by (simp add: verify_fetched_def attestation_of_def)
  next
    case (Inr q)
    with f show ?thesis
      by (cases q) (auto simp: verify_fetched_def attestation_of_def any_verify_prepared_def andthen_Inr fetch_all_Inr)
  qed
qed

lemma synchronized_sgx_sound_witness:
  "\<exists>sc. verify ex_ssl ex_parse ex_strptime ex_evidence ex_endorsements default_options None = Inr sc"
proof -
  obtain cl where "snd (verify_synchronized (sync_submit (\<lambda>q. Inl Bad_Alloc)) (\<lambda>k c. c)
      (Some (attestation_of ex_env (Sgx_Attestation ex_evidence ex_endorsements))) default_options new_sync_client)
    = Inr (Sgx_Claims cl)"
    using ex_sgx_verify
    by (auto simp: attestation_law_of[OF ex_sync(1)] verify_synchronous_fetched[OF ex_sync(1)]
        verify_fetched_def ex_sgx_prepare[unfolded ex_sgx_def] ex_sgx_def)
  from synchronized_sgx_sound[OF ex_sync(1) this] show ?thesis
    by (auto simp: ex_env_def prepare_endorsements_def default_options_def)
qed

text \<open>
  A request submitted to the tracker over the synchronous client is completed when \<open>submit\<close> returns:
  \<open>result\<close> gives the claims of the verification on the fetched answers, an exception leaves the
  request in the state \<open>ERROR\<close>, and \<open>submit\<close> itself throws only what is no \<open>std::exception\<close>.
\<close>

theorem submitted_request_completes:
  assumes "sync_ok (tr_client s)" and "fresh_id s"
    and "submit_request (sync_submit exec) advance_callback (Suc (Suc (Suc n))) opts
       (Some (attestation_of E a)) True cb s = (s', r)"
  shows "case verify_fetched exec (attestation_of E a) opts (Some []) of
       Inr cl \<Rightarrow> r = Inr (next_request_id s) \<and> request_result (next_request_id s) s' = Inr cl
     | Inl e \<Rightarrow> if is_std_exception e
         then r = Inr (next_request_id s) \<and> request_state_of (next_request_id s) s' = ERROR
         else r = Inl e"
  using sync_submit_request_reports[OF assms]
  by (auto simp: reports_def request_result_Inr split: sum.splits if_splits)

lemma submitted_request_completes_witness:
  "\<exists>cl. request_result 0 (fst (submit_request (sync_submit (\<lambda>_. Inl Bad_Alloc)) advance_callback 3 default_options
     (Some (attestation_of ex_env ex_sgx)) True None (new_tracker new_sync_client))) = Inr (Sgx_Claims cl)"
proof -
  obtain s' r where s: "submit_request (sync_submit (\<lambda>_. Inl Bad_Alloc)) advance_callback 3 default_options
     (Some (attestation_of ex_env ex_sgx)) True None (new_tracker new_sync_client) = (s', r)" by force
  have c: "sync_ok (tr_client (new_tracker new_sync_client :: (any_claims, unit, sync_client) tracker))"
    "next_request_id (new_tracker new_sync_client :: (any_claims, unit, sync_client) tracker) = 0"
    using ex_sync(1) by (simp_all add: new_tracker_def)
  obtain cl where "verify_fetched (\<lambda>_. Inl Bad_Alloc) (attestation_of ex_env ex_sgx) default_options (Some []) = Inr (Sgx_Claims cl)"
    using ex_sgx_verify by (auto simp: verify_fetched_def ex_sgx_prepare)
  with submitted_request_completes[OF c(1) ex_sync(2) s[unfolded numeral_3_eq_3]] s c(2) show ?thesis by auto
qed

text \<open>
  C6.  Whatever users, clients and callbacks do, in any order and nested to any depth, a result is always
  the outcome of verifying the attestation of the request with the options of the request.  Callbacks
  may submit, advance and erase requests, their own included, and may throw; the client answers within
  \<open>submit\<close> or later.  The runs of \<open>verify_synchronized\<close> are covered (\<open>synchronized_reachable\<close>).
\<close>

theorem reachable_result_verified:
  assumes "client_law submit" and "callback_law True er run"
    and "reachable submit run er s" and "request_result i s = Inr cl"
  shows "\<exists>rq a out. find_request i s = Some rq \<and> rq_state rq = FINISHED \<and> rq_attestation rq = Some a
     \<and> att_verify a (rq_options rq) (Some out) = Inr cl"
proof -
  from assms(4) obtain rq where rq: "find_request i s = Some rq" "rq_state rq = FINISHED" "rq_claims rq = Some cl"
    unfolding request_result_Inr by blast
  with requests_ok_Some[OF reachable_ok[OF assms(1-3)]] show ?thesis unfolding claims_verified_def by fastforce
qed

lemma reachable_result_verified_witness:
  "\<exists>s rq a out cl. find_request 0 (s :: (any_claims, unit, sync_client) tracker) = Some rq
     \<and> rq_attestation rq = Some a \<and> att_verify a (rq_options rq) (Some out) = Inr (Sgx_Claims cl)"
proof -
  obtain s cl where "reachable (sync_submit ex_exec) advance_callback sync_erase s" "request_result 0 s = Inr (Sgx_Claims cl)"
    using ex_reachable by blast
  from reachable_result_verified[OF client_law_sync callback_law_advance this] show ?thesis by blast
qed

text \<open>
  C7.  A step of the tracker, with all the calls nested in it, loses a request only by erasing it, moves
  every other one forward in the order of the states and keeps its attestation, options and callback; a
  request that was finished before the step does not change, claims included, and a failed one stays
  failed.  Callbacks may submit and advance requests and may throw, but do not erase any: the number of
  an erased request may be given to another one.
\<close>

theorem tracker_only_forward:
  assumes "client_law submit" and "callback_law False er run" and "tracker_step submit run er s s'"
    and "find_request i s = Some rq"
  shows "case find_request i s' of
       None \<Rightarrow> s' = erase_request er i s
     | Some rq' \<Rightarrow> rq_state rq \<le> rq_state rq' \<and> rq_attestation rq' = rq_attestation rq
         \<and> rq_options rq' = rq_options rq \<and> rq_callback rq' = rq_callback rq
         \<and> (rq_state rq = FINISHED \<longrightarrow> rq' = rq) \<and> (rq_state rq = ERROR \<longrightarrow> rq_state rq' = ERROR)"
  using tracker_step_evolves[OF assms(1-3)]
proof
  assume "entries_by (\<lambda>j. evolves) s s'"
  with assms(4) show ?thesis unfolding entries_by_def evolves_def grows_def by fastforce
next
  assume "\<exists>j. s' = erase_request er j s"
  with assms(4) show ?thesis by (auto simp: find_erase_request)
qed

lemma tracker_only_forward_witness:
  "\<exists>s rq rq'. find_request 0 (s :: (any_claims, unit, sync_client) tracker) = Some rq \<and> rq_state rq = FINISHED
     \<and> rq' = rq"
proof -
  let ?adv = "advance (sync_submit ex_exec) advance_callback 3"
  obtain s cl where "request_result 0 (s :: (any_claims, unit, sync_client) tracker) = Inr (Sgx_Claims cl)"
    using ex_reachable by blast
  then obtain rq where rq: "find_request 0 s = Some rq" "rq_state rq = FINISHED"
    unfolding request_result_Inr by blast
  have "advance_id ?adv 0 s = (s, Inr (state_number FINISHED))"
    using advance_finished[OF rq, of "sync_submit ex_exec" advance_callback 2] rq(1)
    by (simp add: advance_id_def eval_nat_numeral)
  then have "tracker_step (sync_submit ex_exec) advance_callback sync_erase s s"
    unfolding tracker_step_def by (blast intro: tracker_call.Advance)
  from tracker_only_forward[OF client_law_sync callback_law_advance this rq(1)] rq show ?thesis by auto
qed



text \<open>
  \<open>advance\<close> does not wait for anything: two calls of it on a request whose endorsements are still being
  fetched verify the attestation on no answers, and that settles the request.  The answers that come
  later stay in \<open>http_responses\<close> and change nothing.
\<close>

theorem early_advance_ignores_answers:
  assumes "find_request i s = Some rq" and "rq_state rq = WAITING_FOR_ENDORSEMENTS" and "rq_attestation rq = Some a"
    and "map_find i (http_responses s) = None"
    and "case att_verify a (rq_options rq) (Some []) of Inl e \<Rightarrow> is_std_exception e | Inr cl \<Rightarrow> True"
  shows "\<exists>s1 s2 s3 v. advance submit advance_callback 2 i s = (s1, Inr (state_number HAVE_ENDORSEMENTS))
     \<and> advance submit advance_callback 2 i s1 = (s2, Inr v)
     \<and> (case att_verify a (rq_options rq) (Some []) of
          Inl e \<Rightarrow> request_state_of i s2 = ERROR
        | Inr cl \<Rightarrow> request_result i s2 = Inr cl)
     \<and> on_responses (advance submit advance_callback 2) i out s2 = (s3, Inr ())
     \<and> find_request i s3 = find_request i s2 \<and> map_find i (http_responses s3) = Some out"
proof -
  let ?h = "rq\<lparr>rq_state := HAVE_ENDORSEMENTS\<rparr>" and ?adv = "advance submit advance_callback 2"
  let ?s1 = "put_request i ?h s"
  have two: "(2 :: nat) = Suc (Suc 0)" by simp
  have a1: "?adv i s = (?s1, Inr (state_number HAVE_ENDORSEMENTS))"
    unfolding two using advance_waiting[OF assms(1,2)] set_state_Some[OF assms(1)] by simp
  have f1: "find_request i ?s1 = Some ?h" by simp
  have m1: "map_find i (http_responses ?s1) = None" using assms(4) by simp
  have a2: "?adv i ?s1 = settle i ?h a [] ?s1"
    unfolding two using callbacks.advance_have[OF f1, of a "[]" submit 0] assms(3) m1 erase_absent[OF m1]
    by (simp add: put_request_same)
  obtain s2 v where s2: "settle i ?h a [] ?s1 = (s2, Inr v)"
    using assms(5) by (auto simp: settle_def split: sum.splits)
  then obtain q where q: "find_request i s2 = Some q" "rq_state q = FINISHED \<or> rq_state q = ERROR"
    and r: "http_responses s2 = http_responses s"
    using settle_Inr[OF s2] by (auto simp: settle_def split: sum.splits if_splits)
  have settled: "case att_verify a (rq_options rq) (Some []) of
          Inl e \<Rightarrow> request_state_of i s2 = ERROR | Inr cl \<Rightarrow> request_result i s2 = Inr cl"
    using s2 by (auto simp: settle_def request_result_Inr request_state_of_def split: sum.splits if_splits)
  let ?s3 = "s2\<lparr>http_responses := http_responses s2 @ [(i, out)]\<rparr>"
  have f3: "find_request i ?s3 = Some q" using q(1) by simp
  have a3: "\<exists>x. ?adv i ?s3 = (?s3, Inr x)"
    using q(2) advance_finished[OF f3, of submit advance_callback "Suc 0"]
      advance_error[OF f3, of submit advance_callback "Suc 0"] put_request_id[OF f3, of ERROR]
    unfolding two by (auto simp: set_state_Some[OF f3])
  have "on_responses ?adv i out s2 = (?s3, Inr ())"
    using assms(4) r a3 f3 by (auto simp: on_responses_def emplace_def advance_id_def)
  moreover have "find_request i ?s3 = find_request i s2" "map_find i (http_responses ?s3) = Some out"
    using assms(4) r by (simp_all add: map_find_snoc)
  moreover have "?adv i ?s1 = (s2, Inr v)" using a2 s2 by simp
  ultimately show ?thesis using a1 settled by blast
qed

lemma early_advance_ignores_answers_witness:
  "\<exists>cl s2. request_result 0 s2 = Inr (Sgx_Claims cl)
     \<and> (\<exists>s1 v. advance queue_submit advance_callback 2 0 s1 = (s2, Inr v))"
proof -
  obtain cl where "att_verify ex_fetching default_options (Some []) = Inr (Sgx_Claims cl)"
    using ex_fetching_verify by blast
  with ex_waiting_facts(5) have v: "att_verify ex_fetching (rq_options ex_waiting_request) (Some []) = Inr (Sgx_Claims cl)"
    by simp
  then have "case att_verify ex_fetching (rq_options ex_waiting_request) (Some []) of
      Inl e \<Rightarrow> is_std_exception e | Inr cl \<Rightarrow> True" by simp
  from early_advance_ignores_answers[OF ex_waiting_facts(1,3,4,2) this, of queue_submit "[]"] show ?thesis
    unfolding v sum.case by blast
qed

text \<open>
  C8.  The tracker over the asynchronous client: when the monitor of a set ends, the request that waits
  for it has been verified on one answer per request of the set, and is completed.
\<close>

theorem monitored_request_completes:
  assumes "responses_fit c" and "find_request i s = Some rq" and "rq_state rq = WAITING_FOR_ENDORSEMENTS"
    and "rq_attestation rq = Some a" and "map_find i (http_responses s) = None"
    and "monitor_run atol (on_responses (advance submit advance_callback (Suc (Suc n)))) sid (Some i) evs c s
       = (c', s', Some (Inr u))"
  shows "\<exists>qs out. map_find sid (curl_requests c) = Some qs \<and> length out = length qs
     \<and> (case att_verify a (rq_options rq) (Some out) of
          Inr cl \<Rightarrow> request_result i s' = Inr cl
        | Inl e \<Rightarrow> is_std_exception e \<and> request_state_of i s' = ERROR)
     \<and> map_find sid (curl_requests c') = None \<and> responses_fit c'"
proof -
  from monitor_run_ends[OF assms(1,6)] obtain qs out where
    q: "map_find sid (curl_requests c) = Some qs" "length out = length qs"
    and run: "on_responses (advance submit advance_callback (Suc (Suc n))) i out s = (s', Inr ())"
    and c': "curl_requests c' = erase sid (curl_requests c)" "responses_fit c'" by blast
  obtain t v where t: "settle i rq a out s = (t, v)" by force
  with run callbacks.on_responses_waiting[OF assms(2-5), of submit n out]
  obtain x where x: "t = s'" "v = Inr x" by (auto split: sum.splits)
  have "case att_verify a (rq_options rq) (Some out) of
          Inr cl \<Rightarrow> request_result i s' = Inr cl
        | Inl e \<Rightarrow> is_std_exception e \<and> request_state_of i s' = ERROR"
    using t unfolding x by (auto simp: settle_def request_result_Inr request_state_of_def split: sum.splits if_splits)
  with q c' show ?thesis by (auto simp: map_find_erase)
qed

lemma monitored_request_completes_witness:
  "\<exists>cl s'. request_result 0 (s' :: (any_claims, unit, nat list) tracker) = Inr (Sgx_Claims cl)"
proof -
  let ?rs = "[empty_response\<lparr>status := 200\<rparr>]"
  let ?c = "\<lparr>curl_requests = [(0, [http_request ''url''])], curl_responses = [(0, ?rs)],
     monitor_threads = []\<rparr> :: nat curl_client"
  let ?run = "on_responses (advance queue_submit advance_callback (Suc (Suc 0)))"
  let ?ev = "\<lparr>ev_perform_ok = True, ev_writes = [], ev_running = 0, ev_wait_ok = True, ev_messages = []\<rparr>"
  have fit: "responses_fit ?c"
    by (simp add: responses_fit_def set_fits_def map_wf_def map_find_def)
  obtain cl where v: "att_verify ex_fetching default_options (Some out) = Inr (Sgx_Claims cl)" for out
    using ex_fetching_verify by blast
  obtain s' where run: "?run 0 ?rs ex_waiting = (s', Inr ())"
    using callbacks.on_responses_waiting[OF ex_waiting_facts(1,3,4,2), of queue_submit 0 ?rs] v
    by (simp add: settle_def ex_waiting_facts(5))
  then obtain c' where "monitor_run (\<lambda>_. 0) ?run 0 (Some 0) [?ev] ?c ex_waiting = (c', s', Some (Inr ()))"
    by (simp add: curl_poll_def curl_is_complete_def curl_writes_def Let_def)
  from monitored_request_completes[OF fit ex_waiting_facts(1,3,4,2) this] v show ?thesis
    by (auto simp: ex_waiting_facts(5))
qed

end
