(* ===== verification/AsyncSteps.thy ===== *)
theory AsyncSteps
  imports AsyncHttp
begin

text \<open>
  The asynchronous client over time: the states it can reach, and the proof that a monitor ends once curl
  has reported every transfer of its set.
\<close>

section \<open>The reachable clients\<close>

text \<open>
  Any operation, on any set, with anything curl may do.  A poll whose exception leaves the monitor thread
  ends the process, so that it leads to no further state.
\<close>

inductive curl_step ::
  "('cb \<Rightarrow> HTTPResponse list \<Rightarrow> 's \<Rightarrow> 's \<times> unit result) \<Rightarrow> 'cb curl_client \<Rightarrow> 'cb curl_client \<Rightarrow> bool"
  for run where
  Curl_Submit: "curl_submit init_ok easy_ok ev rs cb c = (c', r) \<Longrightarrow> curl_step run c c'"
| Curl_Is_Complete: "curl_is_complete ev sid c = (c', r) \<Longrightarrow> curl_step run c c'"
| Curl_Poll: "curl_poll atol run ev sid cb c s = (c', s', Inr b) \<Longrightarrow> curl_step run c c'"
| Curl_Erase: "curl_erase sid c = (c', r) \<Longrightarrow> curl_step run c c'"

inductive curl_reachable ::
  "('cb \<Rightarrow> HTTPResponse list \<Rightarrow> 's \<Rightarrow> 's \<times> unit result) \<Rightarrow> 'cb curl_client \<Rightarrow> bool" for run where
  Curl_New: "curl_reachable run new_curl_client"
| Curl_Next: "curl_reachable run c \<Longrightarrow> curl_step run c c' \<Longrightarrow> curl_reachable run c'"

lemma curl_poll_fit:
  assumes "responses_fit c" and "curl_poll atol run ev sid cb c s = (c', s', Inr b)"
  shows "responses_fit c'"
proof (cases b)
  case True
  with curl_poll_goes_on[OF assms(1), of atol run ev sid cb s c' s'] assms(2) show ?thesis by simp
next
  case False
  show ?thesis
  proof (cases cb)
    case None
    obtain c1 r1 where 1: "curl_is_complete ev sid c = (c1, r1)" by force
    with assms(2) None False have "c' = stop_monitor sid c1"
      by (auto simp: curl_poll_def split: sum.splits bool.splits prod.splits if_splits)
    with curl_is_complete_fit[OF assms(1) 1] show ?thesis by simp
  next
    case (Some k)
    with curl_poll_delivers[OF assms(1), of atol run ev sid k s c' s'] assms(2) False show ?thesis by auto
  qed
qed

lemma curl_step_fit: "curl_step run c c' \<Longrightarrow> responses_fit c \<Longrightarrow> responses_fit c'"
  by (induction rule: curl_step.induct)
    (auto intro: curl_submit_fit curl_is_complete_fit curl_poll_fit curl_erase_fit)

lemma curl_reachable_fit: "curl_reachable run c \<Longrightarrow> responses_fit c"
  by (induction rule: curl_reachable.induct) (auto intro: new_curl_client_fit curl_step_fit)

section \<open>Progress\<close>

text \<open>The set has \<open>n\<close> answers, and those of \<open>D\<close> have a status.\<close>

definition answered :: "HTTPRequestSetId \<Rightarrow> nat \<Rightarrow> nat set \<Rightarrow> 'cb curl_client \<Rightarrow> bool" where
  "answered sid n D c \<longleftrightarrow> responses_fit c
     \<and> pred_option (\<lambda>rs. length rs = n \<and> (\<forall>i \<in> D. i < n \<longrightarrow> status (rs ! i) \<noteq> 0)) (map_find sid (curl_responses c))
     \<and> map_find sid (curl_responses c) \<noteq> None"

text \<open>
  curl does its work, the headers it passes on are whole, and the transfers it reports are the set's, each
  with a status, none to be retried.  (A transfer that fails early is reported, too, but has no status.)
\<close>

definition sound_event :: "nat \<Rightarrow> curl_event \<Rightarrow> bool" where
  "sound_event n ev \<longleftrightarrow> ev_perform_ok ev \<and> ev_wait_ok ev \<and> list_all write_ok (ev_writes ev)
     \<and> list_all (\<lambda>(i, st). i < n \<and> st \<noteq> 0 \<and> st \<noteq> 429) (ev_messages ev)"

lemma status_apply_write: "apply_write w rs = Inr rs' \<Longrightarrow> status (rs' ! i) = status (rs ! i)"
  by (cases w)
    (auto simp: andthen_Inr nth_list_update body_write_fun_def dest: header_write_status split: if_splits)

lemma status_writes: "apply_writes ws rs = Inr rs' \<Longrightarrow> status (rs' ! i) = status (rs ! i)"
  by (induction ws arbitrary: rs) (auto simp: andthen_Inr dest: status_apply_write)

lemma answeredE:
  assumes "answered sid n D c"
  obtains rs qs where "responses_fit c" "map_find sid (curl_responses c) = Some rs" "length rs = n"
    "\<And>i. i \<in> D \<Longrightarrow> i < n \<Longrightarrow> status (rs ! i) \<noteq> 0" "map_find sid (curl_requests c) = Some qs" "length qs = n"
proof -
  from assms obtain rs where rs: "responses_fit c" "map_find sid (curl_responses c) = Some rs" "length rs = n"
    "\<And>i. i \<in> D \<Longrightarrow> i < n \<Longrightarrow> status (rs ! i) \<noteq> 0" by (auto simp: answered_def)
  obtain qs where "map_find sid (curl_requests c) = Some qs" "length qs = length rs"
    by (rule responses_fitD[OF rs(1,2)])
  with rs that show thesis by blast
qed

lemma answered_writes:
  assumes "answered sid n D c" and "list_all write_ok ws"
  shows "\<exists>c'. curl_writes sid ws c = (c', Inr ()) \<and> answered sid n D c'"
proof -
  obtain rs where rs: "map_find sid (curl_responses c) = Some rs" "length rs = n"
    "\<And>i. i \<in> D \<Longrightarrow> i < n \<Longrightarrow> status (rs ! i) \<noteq> 0" by (rule answeredE[OF assms(1)]) blast
  obtain rs' where rs': "apply_writes ws rs = Inr rs'" using apply_writes_ok[OF assms(2)] by blast
  then have w: "curl_writes sid ws c = (c\<lparr>curl_responses := assign sid rs' (curl_responses c)\<rparr>, Inr ())"
    by (simp add: curl_writes_def rs(1))
  have "responses_fit (c\<lparr>curl_responses := assign sid rs' (curl_responses c)\<rparr>)"
    by (rule curl_writes_fit[OF _ w]) (use assms(1) in \<open>simp add: answered_def\<close>)
  with w rs rs' show ?thesis
    by (auto simp: answered_def map_find_assign length_writes status_writes)
qed

lemma curl_complete_answered:
  assumes "answered sid n D c" and "i < n" and "st \<noteq> 0" and "st \<noteq> 429"
  shows "\<exists>c'. curl_complete atol sid (i, st) c = (c', Inr ()) \<and> answered sid n (insert i D) c'"
proof -
  obtain rs qs where rs: "responses_fit c" "map_find sid (curl_responses c) = Some rs" "length rs = n"
    "\<And>i. i \<in> D \<Longrightarrow> i < n \<Longrightarrow> status (rs ! i) \<noteq> 0" "map_find sid (curl_requests c) = Some qs" "length qs = n"
    by (rule answeredE[OF assms(1)]) blast
  have "must_retry atol ((rs ! i)\<lparr>status := st\<rparr>) = (False, (rs ! i)\<lparr>status := st\<rparr>)"
    using assms(4) by (simp add: must_retry_def)
  then have "curl_complete atol sid (i, st) c =
      (c\<lparr>curl_responses := assign sid (rs[i := (rs ! i)\<lparr>status := st\<rparr>]) (curl_responses c)\<rparr>, Inr ())"
    using rs assms(2) by (simp add: curl_complete_def Let_def)
  moreover have "answered sid n (insert i D)
      (c\<lparr>curl_responses := assign sid (rs[i := (rs ! i)\<lparr>status := st\<rparr>]) (curl_responses c)\<rparr>)"
    using responses_fit_update[OF rs(1,2)] rs(3,4) assms(2,3)
    by (auto simp: answered_def map_find_assign nth_list_update)
  ultimately show ?thesis by blast
qed

lemma consume_msgs_answered:
  assumes "answered sid n D c" and "list_all (\<lambda>(i, st). i < n \<and> st \<noteq> 0 \<and> st \<noteq> 429) ms"
  shows "\<exists>c'. consume_msgs atol sid ms c = (c', Inr ()) \<and> answered sid n (D \<union> fst ` set ms) c'"
  using assms
proof (induction ms arbitrary: c D)
  case (Cons m ms)
  obtain i st where m: "m = (i, st)" by force
  with Cons.prems obtain c1 where 1: "curl_complete atol sid (i, st) c = (c1, Inr ())"
    "answered sid n (insert i D) c1"
    using curl_complete_answered[of sid n D c i st atol] by auto
  from Cons.IH[OF 1(2)] Cons.prems(2) m 1(1) show ?case by auto
qed simp

text \<open>One poll either goes on with the answers it has got, or calls the callback.\<close>

lemma curl_poll_answered:
  assumes "answered sid n D c" and "sound_event n ev"
  shows "(\<exists>c'. curl_poll atol run ev sid (Some cb) c s = (c', s, Inr True)
        \<and> answered sid n (D \<union> fst ` set (ev_messages ev)) c' \<and> \<not> (ev_running ev = 0 \<and> {..<n} \<subseteq> D))
     \<or> (\<exists>c' out s' r. curl_poll atol run ev sid (Some cb) c s = (c', s', andthen r (\<lambda>_. Inr False))
        \<and> length out = n \<and> list_all (\<lambda>x. status x \<noteq> 0) out \<and> run cb out s = (s', r))"
proof -
  have ok: "ev_perform_ok ev" "ev_wait_ok ev" "list_all write_ok (ev_writes ev)"
    using assms(2) by (simp_all add: sound_event_def)
  obtain c0 where w: "curl_writes sid (ev_writes ev) c = (c0, Inr ())" and a: "answered sid n D c0"
    using answered_writes[OF assms(1) ok(3)] by blast
  obtain rs qs where rs: "map_find sid (curl_responses c0) = Some rs" "length rs = n"
    "\<And>i. i \<in> D \<Longrightarrow> i < n \<Longrightarrow> status (rs ! i) \<noteq> 0" "map_find sid (curl_requests c0) = Some qs"
    by (rule answeredE[OF a]) blast
  have ic: "curl_is_complete ev sid c = (c0, Inr (ev_running ev = 0 \<and> list_all (\<lambda>r. status r \<noteq> 0) rs))"
    using rs ok w curl_writes_frame[OF w] by (simp add: curl_is_complete_def)
  obtain c1 where c1: "consume_msgs atol sid (ev_messages ev) c0 = (c1, Inr ())"
    "answered sid n (D \<union> fst ` set (ev_messages ev)) c1"
    using consume_msgs_answered[OF a, of "ev_messages ev" atol] assms(2) by (auto simp: sound_event_def)
  show ?thesis
  proof (cases "ev_running ev = 0 \<and> list_all (\<lambda>r. status r \<noteq> 0) rs")
    case False
    have "\<not> (ev_running ev = 0 \<and> {..<n} \<subseteq> D)"
      using False rs(2,3) by (auto simp: list_all_length subset_eq)
    moreover have "curl_poll atol run ev sid (Some cb) c s = (c1, s, Inr True)"
      using False ok c1(1) by (auto simp: curl_poll_def ic)
    ultimately show ?thesis using c1(2) by blast
  next
    case True
    have all: "answered sid n {..<n} c0" using a True rs(1,2) by (auto simp: answered_def list_all_length)
    obtain c2 where "consume_msgs atol sid (ev_messages ev) c0 = (c2, Inr ())"
      "answered sid n ({..<n} \<union> fst ` set (ev_messages ev)) c2"
      using consume_msgs_answered[OF all, of "ev_messages ev" atol] assms(2) by (auto simp: sound_event_def)
    with c1(1) have "answered sid n ({..<n} \<union> fst ` set (ev_messages ev)) c1" by simp
    then obtain out where out: "map_find sid (curl_responses c1) = Some out" "length out = n"
      "list_all (\<lambda>x. status x \<noteq> 0) out" by (auto simp: answered_def list_all_length)
    obtain s' r where run: "run cb out s = (s', r)" by force
    from True have "curl_is_complete ev sid c = (c0, Inr True)" using ic by simp
    then have "\<exists>c'. curl_poll atol run ev sid (Some cb) c s = (c', s', andthen r (\<lambda>_. Inr False))"
      using c1(1) out(1) run by (cases r) (simp_all add: curl_poll_def Let_def)
    with out run show ?thesis by blast
  qed
qed

lemma monitor_run_completes:
  assumes "answered sid n D c" and "\<forall>ev \<in> set (evs @ [fin]). sound_event n ev" and "ev_running fin = 0"
    and "{..<n} \<subseteq> D \<union> fst ` set (concat (map ev_messages evs))"
  shows "\<exists>c' s' r out. monitor_run atol run sid (Some cb) (evs @ [fin]) c s = (c', s', Some r)
     \<and> length out = n \<and> list_all (\<lambda>x. status x \<noteq> 0) out \<and> run cb out s = (s', r)"
  using assms
proof (induction evs arbitrary: c D)
  case Nil
  have f: "sound_event n fin" using Nil.prems(2) by simp
  from curl_poll_answered[OF Nil.prems(1) f, of atol run cb s] Nil.prems(3,4)
  obtain c' out s' r where p: "curl_poll atol run fin sid (Some cb) c s = (c', s', andthen r (\<lambda>_. Inr False))"
    "length out = n" "list_all (\<lambda>x. status x \<noteq> 0) out" "run cb out s = (s', r)" by auto
  then show ?case by (cases r) auto
next
  case (Cons ev evs)
  have f: "sound_event n ev" using Cons.prems(2) by simp
  from curl_poll_answered[OF Cons.prems(1) f, of atol run cb s] show ?case
  proof (elim disjE exE conjE, goal_cases)
    case (1 c1)
    have "{..<n} \<subseteq> (D \<union> fst ` set (ev_messages ev)) \<union> fst ` set (concat (map ev_messages evs))"
      using Cons.prems(4) by auto
    with Cons.IH[OF 1(2) _ Cons.prems(3)] Cons.prems(2) 1(1) show ?case by auto
  next
    case (2 c' out s' r)
    then show ?case by (cases r) auto
  qed
qed

text \<open>The state right after a submission.\<close>

lemma curl_submit_answered:
  assumes "responses_fit c" and "curl_submit init_ok easy_ok ev rs cb c = (c', Inr sid)"
  shows "answered sid (length rs) {} c'"
proof -
  let ?n = "length (curl_requests c)"
  have n: "map_find ?n (curl_requests c) = None"
    using assms(2) by (cases "map_find ?n (curl_requests c)") (auto simp: curl_submit_def Let_def emplace_def)
  note r = new_set_fit(3)[OF assms(1) n]
  have "sid = ?n" "\<exists>rs'. map_find sid (curl_responses c') = Some rs'
      \<and> apply_writes (ev_writes ev) (replicate (length rs) empty_response) = Inr rs'"
    using assms(2) n r
    by (auto simp: curl_submit_def Let_def emplace_def curl_writes_def map_find_assign map_find_snoc
        split: if_splits sum.splits)
  with curl_submit_fit[OF assms] show ?thesis by (auto simp: answered_def dest: length_writes)
qed

section \<open>A transfer that fails\<close>

text \<open>
  A transfer that fails before its answer has begun has no status: \<open>CURLINFO_RESPONSE_CODE\<close> is zero, and the error that comes with the
  message is not looked at.
\<close>

definition unanswered :: "HTTPRequestSetId \<Rightarrow> nat \<Rightarrow> nat \<Rightarrow> 'cb curl_client \<Rightarrow> bool" where
  "unanswered sid n i c \<longleftrightarrow> answered sid n {} c
     \<and> pred_option (\<lambda>rs. status (rs ! i) = 0) (map_find sid (curl_responses c))"

definition failing_event :: "nat \<Rightarrow> nat \<Rightarrow> curl_event \<Rightarrow> bool" where
  "failing_event n i ev \<longleftrightarrow> ev_perform_ok ev \<and> ev_wait_ok ev \<and> list_all write_ok (ev_writes ev)
     \<and> list_all (\<lambda>(j, st). j < n \<and> (j = i \<longrightarrow> st = 0)) (ev_messages ev)"

lemma unansweredE:
  assumes "unanswered sid n i c"
  obtains rs qs where "responses_fit c" "map_find sid (curl_responses c) = Some rs" "length rs = n"
    "status (rs ! i) = 0" "map_find sid (curl_requests c) = Some qs" "length qs = n"
proof -
  have a: "answered sid n {} c" using assms by (simp add: unanswered_def)
  obtain rs qs where rs: "responses_fit c" "map_find sid (curl_responses c) = Some rs" "length rs = n"
    "map_find sid (curl_requests c) = Some qs" "length qs = n" by (rule answeredE[OF a]) blast
  moreover have "status (rs ! i) = 0" using assms rs(2) by (simp add: unanswered_def)
  ultimately show thesis using that by blast
qed

lemma unanswered_writes:
  assumes "unanswered sid n i c" and "list_all write_ok ws"
  shows "\<exists>c'. curl_writes sid ws c = (c', Inr ()) \<and> unanswered sid n i c'"
proof -
  obtain c' where c': "curl_writes sid ws c = (c', Inr ())" "answered sid n {} c'"
    using answered_writes[OF _ assms(2)] assms(1) unfolding unanswered_def by blast
  then show ?thesis using assms(1)
    by (auto simp: unanswered_def curl_writes_def map_find_assign status_writes
        split: option.splits sum.splits)
qed

lemma must_retry_status: "status r = 0 \<Longrightarrow> must_retry atol r = (False, r)"
  by (simp add: must_retry_def)

lemma consume_msgs_unanswered:
  assumes "unanswered sid n i c" and "list_all (\<lambda>(j, st). j < n \<and> (j = i \<longrightarrow> st = 0)) ms"
  shows "\<exists>c'. consume_msgs atol sid ms c = (c', Inr ()) \<and> unanswered sid n i c'"
  using assms
proof (induction ms arbitrary: c)
  case (Cons m ms)
  obtain j st where m: "m = (j, st)" "j < n" "j = i \<longrightarrow> st = 0" using Cons.prems(2) by (cases m) auto
  obtain rs qs where rs: "responses_fit c" "map_find sid (curl_responses c) = Some rs" "length rs = n"
    "status (rs ! i) = 0" "map_find sid (curl_requests c) = Some qs" "length qs = n"
    by (rule unansweredE[OF Cons.prems(1)]) blast
  let ?r = "snd (must_retry atol ((rs ! j)\<lparr>status := st\<rparr>))"
  let ?c = "c\<lparr>curl_responses := assign sid (rs[j := ?r]) (curl_responses c)\<rparr>"
  have "curl_complete atol sid m c = (?c, Inr ())" using rs m by (simp add: curl_complete_def Let_def)
  moreover have "unanswered sid n i ?c"
    using responses_fit_update[OF rs(1,2)] rs m
    by (auto simp: unanswered_def answered_def map_find_assign nth_list_update must_retry_status)
  then have "\<exists>c'. consume_msgs atol sid ms ?c = (c', Inr ()) \<and> unanswered sid n i c'"
    using Cons.IH Cons.prems(2) by simp
  ultimately show ?case by simp
qed simp

lemma curl_poll_unanswered:
  assumes "unanswered sid n i c" and "i < n" and "failing_event n i ev"
  shows "\<exists>c'. curl_poll atol run ev sid cb c s = (c', s, Inr True) \<and> unanswered sid n i c'"
proof -
  obtain c0 where w: "curl_writes sid (ev_writes ev) c = (c0, Inr ())" and u: "unanswered sid n i c0"
    using unanswered_writes[OF assms(1)] assms(3) unfolding failing_event_def by blast
  obtain rs qs where rs: "map_find sid (curl_responses c0) = Some rs" "length rs = n" "status (rs ! i) = 0"
    "map_find sid (curl_requests c0) = Some qs" by (rule unansweredE[OF u]) blast
  have "\<not> list_all (\<lambda>r. status r \<noteq> 0) rs" using rs assms(2) by (auto simp: list_all_length)
  then have "curl_is_complete ev sid c = (c0, Inr False)"
    using rs w curl_writes_frame[OF w] assms(3) by (simp add: curl_is_complete_def failing_event_def)
  moreover obtain c1 where "consume_msgs atol sid (ev_messages ev) c0 = (c1, Inr ())" "unanswered sid n i c1"
    using consume_msgs_unanswered[OF u] assms(3) unfolding failing_event_def by blast
  ultimately show ?thesis using assms(3) by (simp add: curl_poll_def failing_event_def)
qed

lemma monitor_run_unanswered:
  assumes "unanswered sid n i c" and "i < n" and "\<forall>ev \<in> set evs. failing_event n i ev"
  shows "\<exists>c'. monitor_run atol run sid cb evs c s = (c', s, None) \<and> unanswered sid n i c'"
  using assms
proof (induction evs arbitrary: c)
  case (Cons ev evs)
  obtain c1 where "curl_poll atol run ev sid cb c s = (c1, s, Inr True)" "unanswered sid n i c1"
    using curl_poll_unanswered[OF Cons.prems(1,2)] Cons.prems(3) by fastforce
  with Cons.IH[of c1] Cons.prems(2,3) show ?case by simp
qed simp

lemma curl_submit_unanswered:
  assumes "responses_fit c" and "curl_submit init_ok easy_ok ev rs cb c = (c', Inr sid)" and "i < length rs"
  shows "unanswered sid (length rs) i c'"
proof -
  let ?n = "length (curl_requests c)"
  have n: "map_find ?n (curl_requests c) = None"
    using assms(2) by (cases "map_find ?n (curl_requests c)") (auto simp: curl_submit_def Let_def emplace_def)
  have "pred_option (\<lambda>rs. status (rs ! i) = 0) (map_find sid (curl_responses c'))"
    using assms(2,3) n new_set_fit(3)[OF assms(1) n]
    by (auto simp: curl_submit_def Let_def emplace_def curl_writes_def map_find_assign map_find_snoc
        empty_response_def dest: status_writes[where i = i] split: if_splits sum.splits)
  with curl_submit_answered[OF assms(1,2)] show ?thesis by (simp add: unanswered_def)
qed

end
