(* ===== verification/FetchHttp.thy ===== *)
theory FetchHttp
  imports Http
begin

text \<open>
  \<open>FetchTracker\<close> of \<open>wasm/http_client_fetch.cpp\<close>, the client behind \<open>AsynchronousHTTPClient\<close> in the
  WebAssembly build.  The browser completes the fetches of a set in any order; the completion of the
  last one calls the callback, with the mutex held, on a state of the caller's.
\<close>

section \<open>Fetches\<close>

text \<open>What the browser hands to \<open>onsuccess\<close> and \<open>onerror\<close>.\<close>

record fetch_result =
  fe_status :: u32
  fe_headers :: "(string \<times> string) list"
  fe_body :: string

text \<open>A pending fetch is a non-null pointer.\<close>

record 'cb fetch_set =
  fs_requests :: "HTTPRequest list"
  fs_fetches :: "bool list"
  fs_callback :: "'cb option"

record 'cb fetch_client =
  fetch_requests :: "(HTTPRequestSetId, 'cb fetch_set) std_map"
  fetch_responses :: "(HTTPRequestSetId, HTTPResponse list) std_map"

definition fetch_execute_synchronous :: "HTTPRequest \<Rightarrow> HTTPResponse result" where
  "fetch_execute_synchronous q = Inl (Runtime_Error ''synchronous fetch not supported'')"

section \<open>Operations\<close>

definition fetch_submit ::
  "HTTPRequest list \<Rightarrow> 'cb option \<Rightarrow> 'cb fetch_client \<Rightarrow> 'cb fetch_client \<times> HTTPRequestSetId result" where
  "fetch_submit rs cb c =
     (let sid = length (fetch_requests c);
          (m, ok) = emplace sid \<lparr>fs_requests = rs, fs_fetches = [], fs_callback = None\<rparr> (fetch_requests c)
      in if \<not> ok then (c, Inl Bad_Alloc)
         else let c = c\<lparr>fetch_requests := m\<rparr>;
                  (m, ok) = emplace sid (replicate (length rs) empty_response) (fetch_responses c)
              in if \<not> ok then (c, Inl Bad_Alloc)
                 else (c\<lparr>fetch_responses := m,
                         fetch_requests := assign sid \<lparr>fs_requests = rs,
                           fs_fetches = replicate (length rs) True, fs_callback = cb\<rparr> (fetch_requests c)\<rparr>,
                       Inr sid))"

text \<open>
  \<open>must_retry\<close> looks for the header in the response, whose headers are only filled in later; the value
  of \<open>atoi\<close> is how long it sleeps.
\<close>

definition fetch_must_retry :: "fetch_result \<Rightarrow> HTTPResponse \<Rightarrow> (bool \<times> HTTPResponse) result" where
  "fetch_must_retry f r =
     (if fe_status f = 429 then
        andthen (get_header_data r ''Retry-After'' False) (\<lambda>q.
          Inr (True, r\<lparr>body := '''', headers := [], status := 0\<rparr>))
      else Inr (False, r))"

definition fetched_response :: "fetch_result \<Rightarrow> HTTPResponse \<Rightarrow> HTTPResponse" where
  "fetched_response f r = \<lparr>status = fe_status f,
     headers = fold (\<lambda>(k, v). assign k v) (fe_headers f) (headers r), body = fe_body f\<rparr>"

definition is_complete_unlocked :: "HTTPRequestSetId \<Rightarrow> 'cb fetch_client \<Rightarrow> bool" where
  "is_complete_unlocked sid c = (case map_find sid (fetch_requests c) of
       None \<Rightarrow> False | Some t \<Rightarrow> list_all (\<lambda>f. \<not> f) (fs_fetches t))"

definition fetch_complete ::
  "('cb \<Rightarrow> HTTPResponse list \<Rightarrow> 's \<Rightarrow> 's \<times> unit result) \<Rightarrow> HTTPRequestSetId \<Rightarrow> nat \<Rightarrow> fetch_result \<Rightarrow>
   'cb fetch_client \<Rightarrow> 's \<Rightarrow> 'cb fetch_client \<times> 's \<times> unit result" where
  "fetch_complete run sid i f c s =
     (case map_find sid (fetch_requests c) of
        None \<Rightarrow> (c, s, Inr ())
      | Some t \<Rightarrow>
          if length (fs_requests t) \<le> i then (c, s, Inl (Out_Of_Range ''vector::_M_range_check''))
          else (case map_find sid (fetch_responses c) of
             None \<Rightarrow> (c, s, Inl (Runtime_Error ''response set not found''))
           | Some rs \<Rightarrow>
               (let rs = (if length rs \<noteq> length (fs_requests t)
                          then take (length (fs_requests t)) rs
                            @ replicate (length (fs_requests t) - length rs) empty_response else rs);
                    c = c\<lparr>fetch_responses := assign sid rs (fetch_responses c)\<rparr>
                in if length rs \<le> i then (c, s, Inl (Runtime_Error ''request index too large''))
                   else (case fetch_must_retry f (rs ! i) of
                      Inl e \<Rightarrow> (c, s, Inl e)
                    | Inr (again, r) \<Rightarrow>
                        if length (fs_fetches t) \<le> i then (c, s, Inl (Undefined_Behaviour ''vector index out of range''))
                        else (let r = (if again then r else fetched_response f r);
                                  rs = rs[i := r];
                                  t = t\<lparr>fs_fetches := (fs_fetches t)[i := again]\<rparr>;
                                  c = c\<lparr>fetch_responses := assign sid rs (fetch_responses c),
                                        fetch_requests := assign sid t (fetch_requests c)\<rparr>
                              in case fs_callback t of
                                   None \<Rightarrow> (c, s, Inr ())
                                 | Some cb \<Rightarrow>
                                     if \<not> is_complete_unlocked sid c then (c, s, Inr ())
                                     else (case run cb rs s of
                                        (s, Inl e) \<Rightarrow> (c\<lparr>fetch_responses := assign sid [] (fetch_responses c)\<rparr>, s, Inl e)
                                      | (s, Inr _) \<Rightarrow>
                                          (c\<lparr>fetch_requests := erase sid (fetch_requests c),
                                             fetch_responses := erase sid (fetch_responses c)\<rparr>, s, Inr ())))))))"

definition fetch_erase :: "HTTPRequestSetId \<Rightarrow> 'cb fetch_client \<Rightarrow> 'cb fetch_client" where
  "fetch_erase sid c = c\<lparr>fetch_requests := erase sid (fetch_requests c),
     fetch_responses := erase sid (fetch_responses c)\<rparr>"

text \<open>The completions of a set one after the other, as the browser delivers them.\<close>

fun fetch_completions ::
  "('cb \<Rightarrow> HTTPResponse list \<Rightarrow> 's \<Rightarrow> 's \<times> unit result) \<Rightarrow> HTTPRequestSetId \<Rightarrow> (nat \<times> fetch_result) list \<Rightarrow>
   'cb fetch_client \<Rightarrow> 's \<Rightarrow> 'cb fetch_client \<times> 's \<times> unit result" where
  "fetch_completions run sid [] c s = (c, s, Inr ())"
| "fetch_completions run sid ((i, f) # fs) c s =
     (case fetch_complete run sid i f c s of
        (c, s, Inl e) \<Rightarrow> (c, s, Inl e)
      | (c, s, Inr _) \<Rightarrow> fetch_completions run sid fs c s)"

section \<open>Completion in any order\<close>

text \<open>The state of a set in which the fetches of \<open>done\<close> have come back.\<close>

definition fetch_progress ::
  "HTTPRequestSetId \<Rightarrow> HTTPRequest list \<Rightarrow> 'cb \<Rightarrow> nat set \<Rightarrow> (nat \<Rightarrow> fetch_result) \<Rightarrow> 'cb fetch_client \<Rightarrow> bool" where
  "fetch_progress sid qs cb done f c \<longleftrightarrow>
     map_find sid (fetch_requests c) = Some \<lparr>fs_requests = qs,
       fs_fetches = map (\<lambda>i. i \<notin> done) [0..<length qs], fs_callback = Some cb\<rparr>
     \<and> map_find sid (fetch_responses c) = Some (map (\<lambda>i. if i \<in> done
         then fetched_response (f i) empty_response else empty_response) [0..<length qs])"

lemma fetch_submit_progress:
  assumes "map_find (length (fetch_requests c)) (fetch_requests c) = None"
    and "map_find (length (fetch_requests c)) (fetch_responses c) = None"
  shows "\<exists>c'. fetch_submit qs (Some cb) c = (c', Inr (length (fetch_requests c)))
     \<and> fetch_progress (length (fetch_requests c)) qs cb {} f c'"
  using assms
  by (auto simp: fetch_submit_def Let_def emplace_def fetch_progress_def map_find_assign map_find_snoc
      map_replicate_const)

lemma update_map_upt: "i < n \<Longrightarrow> (map g [0..<n])[i := x] = map (\<lambda>j. if j = i then x else g j) [0..<n]"
  by (rule nth_equalityI) (simp_all add: nth_list_update)

lemma fetch_complete_step:
  assumes "map_find sid (fetch_requests c) = Some t" and "map_find sid (fetch_responses c) = Some rs"
    and "length rs = length (fs_requests t)" and "length (fs_fetches t) = length (fs_requests t)"
    and "i < length (fs_requests t)" and "fetch_must_retry x (rs ! i) = Inr (False, r)"
    and "fs_callback t = Some cb"
  shows "fetch_complete run sid i x c s =
     (let rs' = rs[i := fetched_response x r];
          c' = c\<lparr>fetch_responses := assign sid rs' (assign sid rs (fetch_responses c)),
                 fetch_requests := assign sid (t\<lparr>fs_fetches := (fs_fetches t)[i := False]\<rparr>) (fetch_requests c)\<rparr>
      in if \<not> is_complete_unlocked sid c' then (c', s, Inr ())
         else case run cb rs' s of
            (s, Inl e) \<Rightarrow> (c'\<lparr>fetch_responses := assign sid [] (fetch_responses c')\<rparr>, s, Inl e)
          | (s, Inr _) \<Rightarrow> (c'\<lparr>fetch_requests := erase sid (fetch_requests c'),
               fetch_responses := erase sid (fetch_responses c')\<rparr>, s, Inr ()))"
  using assms by (simp add: fetch_complete_def Let_def)

lemma fetch_complete_progress:
  assumes p: "fetch_progress sid qs cb D f c" and i: "i < length qs" "i \<notin> D" and st: "fe_status (f i) \<noteq> 429"
  shows "if {..<length qs} \<subseteq> insert i D
     then (case run cb (map (\<lambda>j. fetched_response (f j) empty_response) [0..<length qs]) s of
             (s', Inl e) \<Rightarrow> \<exists>c'. fetch_complete run sid i (f i) c s = (c', s', Inl e)
           | (s', Inr _) \<Rightarrow> \<exists>c'. fetch_complete run sid i (f i) c s = (c', s', Inr ())
               \<and> map_find sid (fetch_requests c') = None \<and> map_find sid (fetch_responses c') = None)
     else \<exists>c'. fetch_complete run sid i (f i) c s = (c', s, Inr ()) \<and> fetch_progress sid qs cb (insert i D) f c'"
proof -
  let ?n = "length qs"
  let ?rs = "map (\<lambda>j. if j \<in> D then fetched_response (f j) empty_response else empty_response) [0..<?n]"
  let ?rs' = "map (\<lambda>j. if j \<in> insert i D then fetched_response (f j) empty_response else empty_response) [0..<?n]"
  let ?fs' = "map (\<lambda>j. j \<notin> insert i D) [0..<?n]"
  let ?t' = "\<lparr>fs_requests = qs, fs_fetches = ?fs', fs_callback = Some cb\<rparr>"
  let ?c' = "c\<lparr>fetch_responses := assign sid ?rs' (assign sid ?rs (fetch_responses c)),
      fetch_requests := assign sid ?t' (fetch_requests c)\<rparr>"
  have r: "?rs[i := fetched_response (f i) empty_response] = ?rs'"
    using i(1) by (auto simp: update_map_upt)
  have t: "(map (\<lambda>j. j \<notin> D) [0..<?n])[i := False] = ?fs'"
    using i(1) by (auto simp: update_map_upt)
  have mr: "fetch_must_retry (f i) (?rs ! i) = Inr (False, empty_response)"
    using i st by (simp add: fetch_must_retry_def)
  have ic: "is_complete_unlocked sid ?c' \<longleftrightarrow> {..<?n} \<subseteq> insert i D"
    by (auto simp: is_complete_unlocked_def map_find_assign list_all_iff)
  have e: "fetch_complete run sid i (f i) c s =
      (if \<not> is_complete_unlocked sid ?c' then (?c', s, Inr ())
       else case run cb ?rs' s of
          (s, Inl e) \<Rightarrow> (?c'\<lparr>fetch_responses := assign sid [] (fetch_responses ?c')\<rparr>, s, Inl e)
        | (s, Inr _) \<Rightarrow> (?c'\<lparr>fetch_requests := erase sid (fetch_requests ?c'),
             fetch_responses := erase sid (fetch_responses ?c')\<rparr>, s, Inr ()))"
  proof -
    let ?t = "\<lparr>fs_requests = qs, fs_fetches = map (\<lambda>j. j \<notin> D) [0..<?n], fs_callback = Some cb\<rparr>"
    have c: "map_find sid (fetch_requests c) = Some ?t" "map_find sid (fetch_responses c) = Some ?rs"
      using p by (simp_all add: fetch_progress_def)
    have t': "?t\<lparr>fs_fetches := (fs_fetches ?t)[i := False]\<rparr> = ?t'" using t by simp
    show ?thesis
      using fetch_complete_step[OF c _ _ _ mr, of cb run s] i(1) unfolding r t' Let_def by simp
  qed
  have all: "?rs' = map (\<lambda>j. fetched_response (f j) empty_response) [0..<?n]" if "{..<?n} \<subseteq> insert i D"
    using that by auto
  show ?thesis
  proof (cases "{..<?n} \<subseteq> insert i D")
    case True
    obtain s1 r1 where x: "run cb (map (\<lambda>j. fetched_response (f j) empty_response) [0..<?n]) s = (s1, r1)"
      by force
    from True ic have "is_complete_unlocked sid ?c'" by blast
    with e have "fetch_complete run sid i (f i) c s = (case run cb ?rs' s of
          (s, Inl e) \<Rightarrow> (?c'\<lparr>fetch_responses := assign sid [] (fetch_responses ?c')\<rparr>, s, Inl e)
        | (s, Inr _) \<Rightarrow> (?c'\<lparr>fetch_requests := erase sid (fetch_requests ?c'),
             fetch_responses := erase sid (fetch_responses ?c')\<rparr>, s, Inr ()))" by argo
    with x True show ?thesis unfolding all[OF True]
      by (cases r1) (simp_all add: map_find_erase)
  next
    case False
    with e ic show ?thesis by (simp add: fetch_progress_def map_find_assign)
  qed
qed

text \<open>Whatever the order, the callback gets the answer of every request, in the order of the requests.\<close>

lemma fetch_completions_any_order:
  assumes "fetch_progress sid qs cb D f c" and "distinct is" and "is \<noteq> []"
    and "set is = {..<length qs} - D" and "list_all (\<lambda>i. fe_status (f i) \<noteq> 429) is"
    and "run cb (map (\<lambda>j. fetched_response (f j) empty_response) [0..<length qs]) s = (s', Inr ())"
  shows "\<exists>c'. fetch_completions run sid (map (\<lambda>i. (i, f i)) is) c s = (c', s', Inr ())
     \<and> map_find sid (fetch_requests c') = None \<and> map_find sid (fetch_responses c') = None"
  using assms
proof (induction "is" arbitrary: c D)
  case (Cons i "is")
  have i: "i < length qs" "i \<notin> D" "fe_status (f i) \<noteq> 429" using Cons.prems(4,5) by auto
  note step = fetch_complete_progress[OF Cons.prems(1) i, of run s]
  show ?case
  proof (cases "is = []")
    case True
    with Cons.prems(4) have all: "{..<length qs} \<subseteq> insert i D" by auto
    from step Cons.prems(6) obtain c' where "fetch_complete run sid i (f i) c s = (c', s', Inr ())"
      "map_find sid (fetch_requests c') = None" "map_find sid (fetch_responses c') = None"
      by (auto simp: all)
    with True show ?thesis by simp
  next
    case False
    with Cons.prems(2,4) have "\<not> {..<length qs} \<subseteq> insert i D"
      by (metis DiffI distinct.simps(2) insert_iff list.set_intros(1) list.set_sel(1) list.simps(15) subsetD Diff_iff)
    with step obtain c' where c': "fetch_complete run sid i (f i) c s = (c', s, Inr ())"
      "fetch_progress sid qs cb (insert i D) f c'" by auto
    have "set is = {..<length qs} - insert i D" using Cons.prems(2,4) by auto
    with Cons.IH[OF c'(2) _ False this _ Cons.prems(6)] Cons.prems(2,5) c'(1) show ?thesis by simp
  qed
qed simp

text \<open>
  A first answer with status 429 never leads to a retry: the response has no headers yet.
\<close>

lemma fetch_429_fails:
  assumes "fetch_progress sid qs cb D f c" and "i < length qs" and "i \<notin> D" and "fe_status x = 429"
  shows "\<exists>c'. fetch_complete run sid i x c s = (c', s,
     Inl (Runtime_Error (''missing response header '' @ [CHR 0x27] @ ''Retry-After'' @ [CHR 0x27])))"
  using assms
  by (simp add: fetch_complete_def fetch_progress_def Let_def fetch_must_retry_def get_header_data_def
      empty_response_def)

text \<open>A set without requests is never completed, since no fetch ends.\<close>

lemma fetch_empty_set:
  assumes "fetch_progress sid [] cb {} f c"
  shows "fetch_complete run sid i x c s = (c, s, Inl (Out_Of_Range ''vector::_M_range_check''))"
  using assms by (simp add: fetch_complete_def fetch_progress_def)

end
