(* ===== verification/AsyncProps.thy ===== *)
theory AsyncProps
  imports AsyncSteps FetchHttp
begin

text \<open>The properties of the asynchronous clients over curl and over the browser's fetch.\<close>

lemma curl_submit_new:
  "curl_submit True True \<lparr>ev_perform_ok = True, ev_writes = [], ev_running = n, ev_wait_ok = True, ev_messages = []\<rparr>
     [q] cb new_curl_client =
   (\<lparr>curl_requests = [(0, [q])], curl_responses = [(0, [empty_response])],
      monitor_threads = [(0, \<lparr>keep_going = True, mon_callback = cb\<rparr>)]\<rparr>, Inr 0)"
  by (simp add: curl_submit_def new_curl_client_def curl_writes_def emplace_def map_find_def Let_def)

text \<open>
  C9.  A submitted set is completed when all its transfers succeed: if every transfer is reported with a
  status other than 0 and 429, in any order and over any number of polls, and curl reports no error of its
  own, then the next poll in which nothing runs has called the callback, on one answer per request,
  each with a status.
\<close>

theorem monitor_completes:
  assumes "curl_reachable rn c" and "curl_submit init_ok easy_ok ev0 rs (Some cb) c = (c1, Inr sid)"
    and "\<forall>ev \<in> set (evs @ [fin]). sound_event (length rs) ev" and "ev_running fin = 0"
    and "{..<length rs} \<subseteq> fst ` set (concat (map ev_messages evs))"
  shows "\<exists>c' s' r out. monitor_run atol run sid (Some cb) (evs @ [fin]) c1 s = (c', s', Some r)
     \<and> length out = length rs \<and> list_all (\<lambda>x. status x \<noteq> 0) out \<and> run cb out s = (s', r)"
proof (rule monitor_run_completes[OF curl_submit_answered[OF curl_reachable_fit[OF assms(1)] assms(2)] assms(3,4)])
  show "{..<length rs} \<subseteq> {} \<union> fst ` set (concat (map ev_messages evs))" using assms(5) by (simp only: Un_empty_left)
qed

lemma monitor_completes_witness:
  "\<exists>out c' c1. monitor_run (\<lambda>_. 0) (\<lambda>_ out _. (out, Inr ())) 0 (Some ())
     [\<lparr>ev_perform_ok = True, ev_writes = [], ev_running = 1, ev_wait_ok = True, ev_messages = [(0, 200)]\<rparr>,
      \<lparr>ev_perform_ok = True, ev_writes = [], ev_running = 0, ev_wait_ok = True, ev_messages = []\<rparr>]
     c1 [] = (c', out, Some (Inr ())) \<and> length out = 1"
proof -
  let ?ev = "\<lparr>ev_perform_ok = True, ev_writes = [], ev_running = 1, ev_wait_ok = True, ev_messages = [(0, 200)]\<rparr>"
  let ?fin = "\<lparr>ev_perform_ok = True, ev_writes = [], ev_running = 0, ev_wait_ok = True, ev_messages = []\<rparr>"
  let ?run = "\<lambda>(_ :: unit) out (_ :: HTTPResponse list). (out, Inr () :: unit result)"
  have e: "\<forall>ev \<in> set ([?ev] @ [?fin]). sound_event (length [http_request ''url'']) ev" "ev_running ?fin = 0"
    "{..<length [http_request ''url'']} \<subseteq> fst ` set (concat (map ev_messages [?ev]))"
    by (auto simp: sound_event_def)
  from monitor_completes[OF Curl_New[of ?run] curl_submit_new[of 1 _ "Some ()"] e,
      where atol = "\<lambda>_. 0" and run = ?run and s = "[]"]
  show ?thesis by auto
qed

text \<open>
  C32.  A transfer that fails before the status of its answer has arrived keeps its set from ever being
  completed: \<open>consume_msgs\<close> does not look at the error of a finished transfer, its status stays 0, and 0
  stands for an answer that is still to come.  Whatever happens to the other transfers of the set, for any
  number of polls in which curl reports no error of its own, the monitor runs on, and the callback is not
  called.
\<close>

theorem failed_transfer_never_ends:
  assumes "curl_reachable rn c" and "curl_submit init_ok easy_ok ev0 rs cb c = (c1, Inr sid)"
    and "i < length rs" and "\<forall>ev \<in> set evs. failing_event (length rs) i ev"
  shows "\<exists>c'. monitor_run atol run sid cb evs c1 s = (c', s, None)"
  using monitor_run_unanswered[OF curl_submit_unanswered[OF curl_reachable_fit[OF assms(1)] assms(2,3)] assms(3,4),
      where atol = atol and run = run and cb = cb and s = s]
  by blast

lemma failed_transfer_never_ends_witness:
  "\<exists>c' c1. monitor_run (\<lambda>_. 0) (\<lambda>_ out _. (out, Inr ())) 0 (Some ())
     (replicate 3 \<lparr>ev_perform_ok = True, ev_writes = [], ev_running = 0, ev_wait_ok = True, ev_messages = [(0, 0)]\<rparr>)
     c1 [] = (c', [], None)"
proof -
  let ?ev = "\<lparr>ev_perform_ok = True, ev_writes = [], ev_running = 0, ev_wait_ok = True, ev_messages = [(0, 0)]\<rparr>"
  let ?run = "\<lambda>(_ :: unit) out (_ :: HTTPResponse list). (out, Inr () :: unit result)"
  have e: "0 < length [http_request ''url'']"
    "\<forall>ev \<in> set (replicate 3 ?ev). failing_event (length [http_request ''url'']) 0 ev"
    by (auto simp: failing_event_def)
  from failed_transfer_never_ends[OF Curl_New[of ?run] curl_submit_new[of 1 _ "Some ()"] e,
      where atol = "\<lambda>_. 0" and run = ?run and s = "[]"]
  show ?thesis by auto
qed

text \<open>
  C10.  In every state the client can reach, through any sequence of submissions, polls of any monitor,
  queries and erasures, a set of answers belongs to a set of requests of the same size, so that
  \<open>complete\<close> finds the answer of every transfer of the set and never has to resize.
\<close>

theorem curl_client_invariant:
  assumes "curl_reachable run c" and "map_find sid (curl_responses c) = Some rs" and "i < length rs"
  shows "\<exists>qs r. map_find sid (curl_requests c) = Some qs \<and> length qs = length rs
     \<and> curl_complete atol sid (i, st) c = (c\<lparr>curl_responses := assign sid (rs[i := r]) (curl_responses c)\<rparr>, Inr ())"
proof -
  obtain qs where q: "map_find sid (curl_requests c) = Some qs" "length qs = length rs"
    by (rule responses_fitD[OF curl_reachable_fit[OF assms(1)] assms(2)])
  with assms(2,3) show ?thesis by (simp add: curl_complete_def Let_def) blast
qed

lemma curl_client_invariant_witness:
  "\<exists>c r. snd (curl_complete (\<lambda>_. 0) 0 (0, 200) (c :: unit curl_client)) = Inr ()
     \<and> map_find 0 (curl_responses c) = Some [r :: HTTPResponse]"
proof -
  let ?run = "\<lambda>(_ :: unit) (out :: HTTPResponse list) (s :: unit). (s, Inr () :: unit result)"
  let ?c = "\<lparr>curl_requests = [(0, [http_request ''url''])], curl_responses = [(0, [empty_response])],
      monitor_threads = [(0, \<lparr>keep_going = True, mon_callback = None\<rparr>)]\<rparr> :: unit curl_client"
  have c: "curl_reachable ?run ?c"
    by (rule Curl_Next[OF Curl_New Curl_Submit[OF curl_submit_new]])
  have f: "map_find 0 (curl_responses ?c) = Some [empty_response]" by simp
  have l: "0 < length [empty_response]" by simp
  obtain r where e: "curl_complete (\<lambda>_. 0) 0 (0, 200) ?c =
      (?c\<lparr>curl_responses := assign 0 ([empty_response][0 := r]) (curl_responses ?c)\<rparr>, Inr ())"
    using curl_client_invariant[OF c f l] by blast
  have "snd (curl_complete (\<lambda>_. 0) 0 (0, 200) ?c) = Inr ()" unfolding e by simp
  with f show ?thesis by blast
qed

text \<open>
  Identifiers are the number of sets, so that they collide: when the sets in use are numbered without
  a gap and one below the last is finished first, every later submission throws.
\<close>

theorem curl_identifiers_collide:
  assumes "responses_fit c" and "keys (curl_requests c) = {..<Suc n}" and "k < n"
    and "curl_poll atol run ev k (Some cb) c s = (c', s', Inr False)"
  shows "curl_submit init_ok easy_ok ev' rs cb' c' = (c', Inl Bad_Alloc)"
proof -
  have "curl_requests c' = erase k (curl_requests c)" using curl_poll_delivers[OF assms(1,4)] by auto
  from curl_submit_collides[OF assms(1-3) this] show ?thesis .
qed

lemma curl_identifiers_collide_witness:
  "\<exists>c'. curl_submit True True ask_again [] None (c' :: unit curl_client) = (c', Inl Bad_Alloc)
     \<and> map_find 1 (curl_requests c') \<noteq> None"
proof -
  let ?c = "\<lparr>curl_requests = [(0, []), (1, [])], curl_responses = [(0, []), (1, [])], monitor_threads = []\<rparr> :: unit curl_client"
  let ?fin = "\<lparr>ev_perform_ok = True, ev_writes = [], ev_running = 0, ev_wait_ok = True, ev_messages = []\<rparr>"
  let ?c' = "?c\<lparr>curl_requests := [(1, [])], curl_responses := [(1, [])]\<rparr>"
  have f: "responses_fit ?c" by (auto simp: responses_fit_def set_fits_def map_wf_def map_find_def)
  have k: "keys (curl_requests ?c) = {..<Suc 1}" by (auto simp: keys_def)
  have p: "curl_poll (\<lambda>_. 0) (\<lambda>_ _ s. (s, Inr ())) ?fin 0 (Some ()) ?c () = (?c', (), Inr False)"
    by (simp add: curl_poll_def curl_is_complete_def curl_writes_def Let_def stop_monitor_def erase_def)
  from curl_identifiers_collide[OF f k _ p, of True True ask_again "[]" None]
  show ?thesis by (intro exI[of _ ?c']) simp
qed



text \<open>
  The browser may complete the fetches of a set in any order: when the set is not empty and no answer has
  the status 429, the callback is called once, when the last one is back, with the answer of every request
  in the order of the requests, and the set is gone.  (After a 429 it is not called: \<open>fetch_429_fails\<close>.)
\<close>

theorem fetch_any_order:
  assumes "map_find (length (fetch_requests c)) (fetch_requests c) = None"
    and "map_find (length (fetch_requests c)) (fetch_responses c) = None"
    and "fetch_submit qs (Some cb) c = (c1, Inr sid)"
    and "distinct is" and "set is = {..<length qs}" and "qs \<noteq> []" and "\<forall>i < length qs. fe_status (f i) \<noteq> 429"
    and "run cb (map (\<lambda>i. fetched_response (f i) empty_response) [0..<length qs]) s = (s', Inr ())"
  shows "\<exists>c'. fetch_completions run sid (map (\<lambda>i. (i, f i)) is) c1 s = (c', s', Inr ())
     \<and> map_find sid (fetch_requests c') = None \<and> map_find sid (fetch_responses c') = None"
proof -
  from fetch_submit_progress[OF assms(1,2), of qs cb f] assms(3)
  have p: "fetch_progress sid qs cb {} f c1" by auto
  show ?thesis
    by (rule fetch_completions_any_order[OF p assms(4)]) (use assms(5-8) in \<open>auto simp: list_all_iff\<close>)
qed

lemma fetch_any_order_witness:
  "\<exists>c1 c'. fetch_completions (\<lambda>_ out _. (length out, Inr ())) 0
     (map (\<lambda>i. (i, \<lparr>fe_status = 200, fe_headers = [], fe_body = ''x''\<rparr>)) [1, 0]) (c1 :: unit fetch_client) (0 :: nat) = (c', 2, Inr ())"
proof -
  let ?c = "\<lparr>fetch_requests = [], fetch_responses = []\<rparr> :: unit fetch_client"
  let ?qs = "[http_request ''a'', http_request ''b'']"
  let ?run = "\<lambda>(_ :: unit) (out :: HTTPResponse list) (_ :: nat). (length out, Inr () :: unit result)"
  let ?f = "\<lambda>_ :: nat. \<lparr>fe_status = 200, fe_headers = [], fe_body = ''x''\<rparr>"
  have n: "map_find (length (fetch_requests ?c)) (fetch_requests ?c) = None"
    "map_find (length (fetch_requests ?c)) (fetch_responses ?c) = None" by simp_all
  obtain c1 where c1: "fetch_submit ?qs (Some ()) ?c = (c1, Inr 0)"
    using fetch_submit_progress[OF n, of ?qs "()" ?f] by auto
  have d: "distinct [1, 0 :: nat]" "set [1, 0] = {..<length ?qs}" "?qs \<noteq> []"
    "\<forall>i < length ?qs. fe_status (?f i) \<noteq> 429"
    "?run () (map (\<lambda>i. fetched_response (?f i) empty_response) [0..<length ?qs]) 0 = (2, Inr ())"
    by auto
  from fetch_any_order[OF n c1 d(1-4), where run = ?run and s = 0, OF d(5)] show ?thesis by blast
qed

end
