(* ===== verification/CApi.thy ===== *)
theory CApi
  imports Attestation
begin

text \<open>
  The entry points of the C API (\<open>capi.cpp\<close>): they parse, verify without fetching anything, and turn
  every exception into a status and a message.  What no handler intercepts stays an \<open>Inl\<close>.
\<close>

datatype ravl_status_t = RAVL_OK | RAVL_ERROR

text \<open>The status and \<open>last_exception_message\<close>, \<open>None\<close> for the null pointer.\<close>

definition c_result :: "'a result \<Rightarrow> (ravl_status_t \<times> string option) result" where
  "c_result r = (case r of
       Inr _ \<Rightarrow> Inr (RAVL_OK, None)
     | Inl e \<Rightarrow> if is_std_exception e then Inr (RAVL_ERROR, Some (what_of e))
               else if catchable e then Inr (RAVL_ERROR, Some ''caught unknown exception'')
               else Inl e)"

definition parse_attestation :: "'h environment \<Rightarrow> string \<Rightarrow> any_attestation result" where
  "parse_attestation E s = andthen (env_json_parse E s) (\<lambda>j. parse_attestation_value (env_ssl E) j True)"

definition parse_attestation_cbor :: "'h environment \<Rightarrow> bytes \<Rightarrow> any_attestation result" where
  "parse_attestation_cbor E cbor = andthen (env_from_cbor E cbor) (\<lambda>j. parse_attestation_value (env_ssl E) j False)"

definition verify_attestation_json ::
  "'h environment \<Rightarrow> string \<Rightarrow> ravl_options_t option \<Rightarrow> (ravl_status_t \<times> string option) result" where
  "verify_attestation_json E s c = c_result (andthen (parse_attestation E s) (\<lambda>att.
     any_verify E att (cpp_options c) None))"

definition verify_attestation_cbor ::
  "'h environment \<Rightarrow> bytes \<Rightarrow> ravl_options_t option \<Rightarrow> (ravl_status_t \<times> string option) result" where
  "verify_attestation_cbor E cbor c = c_result (andthen (parse_attestation_cbor E cbor) (\<lambda>att.
     any_verify E att (cpp_options c) None))"

lemma c_result_ok: "c_result r = Inr (RAVL_OK, m) \<longleftrightarrow> is_ok r \<and> m = None"
  by (auto simp: c_result_def is_ok_def split: sum.split)

lemma c_result_error:
  "c_result r = Inr (RAVL_ERROR, m) \<longleftrightarrow> (\<exists>e. r = Inl e \<and> catchable e
     \<and> m = Some (if is_std_exception e then what_of e else ''caught unknown exception''))"
  by (cases r) (auto simp: c_result_def elim: is_std_exception.elims)

lemma c_result_clean: "clean r \<Longrightarrow> is_ok (c_result r)"
  by (cases r) (auto simp: c_result_def)

text \<open>Without endorsements of its own no attestation verifies through the C API.\<close>

lemma any_verify_no_endorsements:
  assumes "attestation_endorsements a = []" and "\<not> partial_verification opts"
  shows "\<exists>s. any_verify E a opts None = Inl (Runtime_Error s)"
  using assms
  by (cases a) (auto simp: any_verify_def verify_def gather_collateral_def snp_verify_def
      snp_gather_endorsements_def oe_any_verify_def oe_verify_def new_oe_attestation_def aci_verify_def)

lemma verify_attestation_json_no_endorsements:
  assumes "parse_attestation E s = Inr a" and "attestation_endorsements a = []"
  shows "\<exists>m. verify_attestation_json E s c = Inr (RAVL_ERROR, Some m)"
proof -
  obtain m where "any_verify E a (cpp_options c) None = Inl (Runtime_Error m)"
    using any_verify_no_endorsements[OF assms(2) cpp_options_partial] by blast
  with assms(1) show ?thesis by (simp add: verify_attestation_json_def c_result_def)
qed

lemma verify_attestation_json_ok:
  "verify_attestation_json E s c = Inr (RAVL_OK, m) \<longleftrightarrow> m = None \<and>
     (\<exists>a claims. parse_attestation E s = Inr a \<and> any_verify E a (cpp_options c) None = Inr claims)"
  unfolding verify_attestation_json_def c_result_ok is_ok_iff andthen_Inr by auto

end
