(* ===== verification/AttestationProps.thy ===== *)
theory AttestationProps
  imports EnvExample ClaimsJson CApi
begin

text \<open>The properties of the attestation and claims classes and of the C API.\<close>

text \<open>
  C19.  The claims of every successful verification survive their JSON form: what \<open>from_json\<close> reads from
  the result of \<open>to_json\<close> is the claims, field by field, and their class is that of the attestation.
\<close>

theorem verified_claims_roundtrip:
  assumes "any_verify E a opts rs = Inr c" and "\<not> partial_verification opts"
  shows "(case c of
       Sgx_Claims x \<Rightarrow> attestation_source_of a = SRC_SGX \<and> sgx_claims_from_json (sgx_claims_to_json x) = Inr x
     | Snp_Claims x \<Rightarrow> attestation_source_of a \<in> {SRC_SEV_SNP, SRC_ACI}
         \<and> snp_claims_from_json (snp_claims_to_json x) = Inr x
     | Oe_Claims x \<Rightarrow> attestation_source_of a = SRC_OPEN_ENCLAVE \<and> oe_claims_from_json (oe_claims_to_json x) = Inr x)"
  using assms
  by (cases a) (auto simp: any_verify_def oe_any_verify_def andthen_Inr aci_verify_Inr
      intro!: sgx_claims_roundtrip snp_claims_roundtrip oe_claims_roundtrip
      dest: verified_sgx_claims_wf verified_snp_claims_wf verified_oe_claims_wf)

lemma verified_claims_roundtrip_witness:
  "\<exists>x. any_verify ex_env ex_sgx default_options None = Inr (Sgx_Claims x)
     \<and> sgx_claims_from_json (sgx_claims_to_json x) = Inr x"
proof -
  obtain x where x: "any_verify ex_env ex_sgx default_options None = Inr (Sgx_Claims x)"
    using ex_verifies by (auto simp: any_verify_def ex_sgx_def ex_env_def is_ok_iff)
  from verified_claims_roundtrip[OF this] show ?thesis using x by (simp add: default_options_def)
qed

text \<open>
  C31.  An attestation written as JSON (in base64) or CBOR (as bytes) is parsed back to itself, except that
  the endorsements of the utility VM of a container instance are not written, so that they are lost.
  In base64 this needs texts below 2 GB, since their sizes are passed as \<open>int\<close>, and that OpenSSL decodes
  what it has encoded (\<open>base64_law\<close>).
\<close>

theorem attestation_roundtrip:
  assumes "base64 \<longrightarrow> base64_law ssl
     \<and> length (bio_base64_write ssl (attestation_evidence a)) < 2 ^ 31
     \<and> length (bio_base64_write ssl (attestation_endorsements a)) < 2 ^ 31"
  shows "parse_attestation_value ssl (attestation_json ssl a base64) base64 =
     Inr (case a of Aci_Attestation ev en _ \<Rightarrow> Aci_Attestation ev en [] | _ \<Rightarrow> a)"
proof -
  have "base64 \<longrightarrow> (\<forall>v \<in> {attestation_evidence a, attestation_endorsements a}.
      from_base64 ssl (to_base64 ssl v) = Inr v)"
    using assms base64_roundtrip[of ssl] by blast
  from attestation_json_parses[OF this] show ?thesis by (cases a) simp_all
qed

lemma attestation_roundtrip_witness:
  "parse_attestation_value ex_ssl (attestation_json ex_ssl (Aci_Attestation [1] [2, 3] [4]) True) True =
     Inr (Aci_Attestation [1] [2, 3] [])"
proof -
  have "base64_law ex_ssl" by (simp add: base64_law_def ex_ssl_def)
  then show ?thesis
    using attestation_roundtrip[of True ex_ssl "Aci_Attestation [1] [2, 3] [4]"] by (simp add: ex_ssl_def)
qed

text \<open>
  A source the library does not know is not refused: whatever the member \<open>source\<close> holds, if it is not
  one of the four names, the attestation is taken for an SGX one, with the evidence and endorsements given.
\<close>

theorem unknown_source_is_sgx:
  assumes "json_at j ''source'' = Inr v" and "v \<notin> snd ` set source_names"
    and "parse_attestation_value ssl j base64 = Inr a"
  shows "a = Sgx_Attestation (attestation_evidence a) (attestation_endorsements a)
     \<and> json_get_data ssl base64 j ''evidence'' = Inr (attestation_evidence a)
     \<and> json_get_optional_data ssl base64 j ''endorsements'' = Inr (attestation_endorsements a)"
proof -
  have s: "source_from_json v = SRC_SGX" by (rule source_from_json_unknown[OF assms(2)])
  from assms(3) have "andthen (json_get_data ssl base64 j ''evidence'') (\<lambda>evidence.
        andthen (json_get_optional_data ssl base64 j ''endorsements'') (\<lambda>endorsements.
        andthen (json_get_optional_data ssl base64 j ''uvm_endorsements'') (\<lambda>uvm_endorsements.
          make_attestation SRC_SGX evidence endorsements uvm_endorsements))) = Inr a"
    unfolding parse_attestation_value_def assms(1) andthen_simps s rethrow_as_Inr .
  then show ?thesis by (auto simp: andthen_Inr)
qed

lemma unknown_source_is_sgx_witness:
  "\<exists>a. parse_attestation_value ex_ssl (J_Object [(''evidence'', json_of_bytes [7]), (''source'', J_String ''tdx'')]) False
     = Inr a \<and> a = Sgx_Attestation [7] []"
proof -
  let ?j = "J_Object [(''evidence'', json_of_bytes [7]), (''source'', J_String ''tdx'')]"
  have v: "json_at ?j ''source'' = Inr (J_String ''tdx'')" by (simp add: map_find_def)
  have n: "J_String ''tdx'' \<notin> snd ` set source_names" by (simp add: source_names_def)
  have d: "json_get_data ex_ssl False ?j ''evidence'' = Inr [7]"
    "json_get_optional_data ex_ssl False ?j ''endorsements'' = Inr []"
    "json_get_optional_data ex_ssl False ?j ''uvm_endorsements'' = Inr []"
    by (simp_all add: json_get_data_def json_get_optional_data_def json_contains_def map_find_def json_get_bytes_of_bytes)
  have "source_from_json (J_String ''tdx'') = SRC_SGX" by (rule source_from_json_unknown[OF n])
  with v d obtain a where a: "parse_attestation_value ex_ssl ?j False = Inr a"
    unfolding parse_attestation_value_def by (auto simp del: json_at_object)
  from unknown_source_is_sgx[OF v n a] d a show ?thesis by auto
qed

text \<open>
  C21.  The C API answers \<open>RAVL_OK\<close> only for an attestation that carries its endorsements, without any
  download, and that the verifier accepts in full with the options given; then there is no message.
\<close>

theorem capi_ok_verified:
  assumes "r = verify_attestation_json E s c \<and> p = parse_attestation E s
      \<or> r = verify_attestation_cbor E b c \<and> p = parse_attestation_cbor E b"
    and "r = Inr (RAVL_OK, m)"
  shows "m = None \<and> (\<exists>a claims. p = Inr a \<and> attestation_endorsements a \<noteq> []
     \<and> any_verify E a (cpp_options c) None = Inr claims \<and> \<not> partial_verification (cpp_options c))"
proof -
  have "r = c_result (andthen p (\<lambda>att. any_verify E att (cpp_options c) None))"
    using assms(1) unfolding verify_attestation_json_def verify_attestation_cbor_def by blast
  with assms(2) have "c_result (andthen p (\<lambda>att. any_verify E att (cpp_options c) None)) = Inr (RAVL_OK, m)"
    by simp
  then have "m = None \<and> (\<exists>a claims. p = Inr a \<and> any_verify E a (cpp_options c) None = Inr claims)"
    unfolding c_result_ok is_ok_iff andthen_Inr by blast
  moreover have "attestation_endorsements a \<noteq> []" if "any_verify E a (cpp_options c) None = Inr claims" for a claims
  proof
    assume "attestation_endorsements a = []"
    from any_verify_no_endorsements[OF this cpp_options_partial, of E c] that show False by auto
  qed
  ultimately show ?thesis using cpp_options_partial by blast
qed

lemma capi_ok_verified_witness:
  "\<exists>claims. any_verify (ex_env\<lparr>env_from_cbor := (\<lambda>_. Inr (attestation_json ex_ssl ex_sgx False))\<rparr>) ex_sgx
     (cpp_options None) None = Inr claims"
proof -
  let ?E = "ex_env\<lparr>env_from_cbor := (\<lambda>_. Inr (attestation_json ex_ssl ex_sgx False))\<rparr>"
  have p: "parse_attestation_cbor ?E [] = Inr ex_sgx"
    using attestation_json_parses[of False ex_sgx ex_ssl] by (simp add: parse_attestation_cbor_def ex_env_def ex_sgx_def)
  have "cpp_options None = default_options" by (simp add: cpp_options_def)
  then have "is_ok (any_verify ?E ex_sgx (cpp_options None) None)"
    using ex_verifies by (auto simp: any_verify_def ex_sgx_def ex_env_def is_ok_iff)
  with p have "verify_attestation_cbor ?E [] None = Inr (RAVL_OK, None)"
    by (auto simp: verify_attestation_cbor_def c_result_ok is_ok_iff)
  from capi_ok_verified[OF disjI2[OF conjI[OF refl refl]] this] p show ?thesis by auto
qed

end
