(* ===== verification/BaseProps.thy ===== *)
theory BaseProps
  imports EnvExample Util
begin

text \<open>The properties of the helpers below the verifiers, and what they mean for the verifiers.\<close>

text \<open>
  C37.  \<open>replace_all\<close> on every input: with a pattern it is the leftmost replacement of the
  non-overlapping occurrences, and it counts them; without one it does not return.
\<close>

theorem replace_all_decides:
  "replace_all s what w = (if what = [] then None else Some (replace_spec what w s))"
proof (cases "what = []")
  case True
  with replace_loop_returns[of s what w 0 0] show ?thesis
    by (cases "replace_all s what w") (auto simp: replace_all_def)
qed (simp add: replace_all_spec)

text \<open>
  \<open>get_uint16\<close> swaps the bytes of what it reads: on an INTEGER of the certificate it returns the
  magnitude below 256 and the magnitude with its two bytes exchanged from 256 on; negative numbers
  pass as their magnitude.
\<close>

theorem get_uint16_swaps:
  assumes "get_obj_value ssl seq i oid V_INTEGER = Inr (A_Integer n)"
  shows "get_uint16 ssl seq i oid =
     (let m = nat \<bar>n\<bar> in
      if m < 65536 then Inr (of_nat (if m < 256 then m else m div 256 + 256 * (m mod 256)))
      else Inl (asn1_format_exception ''ASN.1 integer value not a uint16_t''))"
  unfolding Let_def by (rule get_uint16_eq[OF assms])

lemma get_uint16_swaps_witness:
  "get_uint16 (ex_ssl\<lparr>d2i_sequence_any := (\<lambda>_. Some [A_Object ''1.2'', A_Integer 258])\<rparr>) [A_Sequence []] 0 ''1.2'' = Inr 513"
proof -
  have "get_obj_value (ex_ssl\<lparr>d2i_sequence_any := (\<lambda>_. Some [A_Object ''1.2'', A_Integer 258])\<rparr>)
      [A_Sequence []] 0 ''1.2'' V_INTEGER = Inr (A_Integer 258)"
    by (simp add: get_obj_value_def asn1_at_def asn1_sequence_def asn1_is_object_def)
  from get_uint16_swaps[OF this] show ?thesis by simp
qed

text \<open>
  The synchronous client tries a request at most \<open>max_attempts\<close> times: the answer it returns is that
  of one of these attempts, all attempts before it were answered with status 429, and each started
  from an empty answer.
\<close>

theorem attempts_bounded:
  assumes "execute_synchronous atol perform q max_attempts = Inr r"
  shows "\<exists>i < max_attempts. perform i q empty_response = Inr r
     \<and> (\<forall>j < i. \<exists>r'. perform j q empty_response = Inr r' \<and> status r' = 429)"
  using execute_loop_Inr[of atol perform q 0 max_attempts r] assms
  by (auto simp: execute_synchronous_def)

lemma attempts_bounded_witness:
  "\<exists>i < (2 :: nat). (if i = 0 then empty_response\<lparr>status := 429, headers := [(''Retry-After'', ''1'')]\<rparr>
      else empty_response\<lparr>status := 200\<rparr>) = empty_response\<lparr>status := 200\<rparr>"
proof -
  let ?p = "\<lambda>i (_ :: HTTPRequest) (_ :: HTTPResponse). Inr (if i = 0
     then empty_response\<lparr>status := 429, headers := [(''Retry-After'', ''1'')]\<rparr> else empty_response\<lparr>status := 200\<rparr>)
     :: nat + HTTPResponse"
  have "execute_synchronous (\<lambda>_. 1) ?p (http_request ''u'') 2 = Inr (empty_response\<lparr>status := 200\<rparr>)"
    by (simp add: execute_synchronous_def numeral_2_eq_2 must_retry_def get_header_string_def
        get_header_data_def empty_response_def)
  from attempts_bounded[OF this] show ?thesis by auto
qed

text \<open>
  When \<open>X509_STORE_CTX_set0_param\<close> replaces the verification parameters, the time set before it is lost.
\<close>

lemma chain_time_lost:
  assumes "\<And>p t ctx. ctx_set0_param ssl p (ctx_set_time ssl t ctx) = ctx_set0_param ssl p ctx"
  shows "verify_certificate_chain ssl stack store (co\<lparr>verification_time := t\<rparr>) tr v i =
     verify_certificate_chain ssl stack store co tr v i"
    and "verify_certificate_chain_pem ssl pem store (co\<lparr>verification_time := t\<rparr>) tr v i =
     verify_certificate_chain_pem ssl pem store co tr v i"
proof -
  have s: "ctx_set0_param ssl p (set_verification_time ssl x ctx) = ctx_set0_param ssl p ctx" for x p ctx
    using assms by (simp add: set_verification_time_def split: option.split)
  have "chain_ctx ssl (co\<lparr>verification_time := t\<rparr>) ctx = chain_ctx ssl co ctx" for ctx
    by (simp add: chain_ctx_def s chain_param_def)
  then show c: "verify_certificate_chain ssl stack store (co\<lparr>verification_time := t\<rparr>) tr v i =
     verify_certificate_chain ssl stack store co tr v i" for stack
    by (simp add: verify_certificate_chain_def verify_chain_ctx_def)
  show "verify_certificate_chain_pem ssl pem store (co\<lparr>verification_time := t\<rparr>) tr v i =
     verify_certificate_chain_pem ssl pem store co tr v i"
    by (simp add: verify_certificate_chain_pem_def c)
qed

definition at_time :: "int option \<Rightarrow> options \<Rightarrow> options" where
  "at_time t opts = opts\<lparr>certificate_verification := (certificate_verification opts)\<lparr>verification_time := t\<rparr>\<rparr>"

lemma at_time_simps [simp]:
  "certificate_verification (at_time t opts) = (certificate_verification opts)\<lparr>verification_time := t\<rparr>"
  "partial_verification (at_time t opts) = partial_verification opts"
  "check_root_certificate_manufacturer_key (at_time t opts) = check_root_certificate_manufacturer_key opts"
  "verbosity (at_time t opts) = verbosity opts"
  "historical (at_time t opts) = historical opts"
  "fresh_endorsements (at_time t opts) = fresh_endorsements opts"
  "fresh_root_ca_certificate (at_time t opts) = fresh_root_ca_certificate opts"
  "root_ca_certificate (at_time t opts) = root_ca_certificate opts"
  "sgx_endorsement_cache_url_template (at_time t opts) = sgx_endorsement_cache_url_template opts"
  "sev_snp_endorsement_cache_url_template (at_time t opts) = sev_snp_endorsement_cache_url_template opts"
  by (simp_all add: at_time_def)

lemma sgx_time_lost:
  assumes "\<And>p t ctx. ctx_set0_param ssl p (ctx_set_time ssl t ctx) = ctx_set0_param ssl p ctx"
  shows "verify ssl parse strptime ev en (at_time t opts) rs = verify ssl parse strptime ev en opts rs"
proof -
  note c = chain_time_lost[OF assms]
  have i: "verify_issuer ssl ch store (at_time t opts) what = verify_issuer ssl ch store opts what" for ch store what
    by (simp add: verify_issuer_def c)
  have p: "check_pck_chain ssl ch (at_time t opts) = check_pck_chain ssl ch opts" for ch
    by (simp add: check_pck_chain_def)
  have g: "gather_collateral en (at_time t opts) rs = gather_collateral en opts rs"
    by (simp add: gather_collateral_def consume_url_responses_def consume_root_def consume_fresh_def expected_responses_def
        cong: option.case_cong list.case_cong)
  show ?thesis
    by (simp add: verify_def partial_verify_def c p g verify_tcb_def verify_qe_id_def qe_id_checks_def i)
qed

lemma snp_time_lost:
  assumes "\<And>p t ctx. ctx_set0_param ssl p (ctx_set_time ssl t ctx) = ctx_set0_param ssl p ctx"
  shows "snp_verify ssl ev en (at_time t opts) rs = snp_verify ssl ev en opts rs"
proof -
  note c = chain_time_lost[OF assms]
  have k: "check_vcek_chain ssl ch (at_time t opts) = check_vcek_chain ssl ch opts" for ch
    by (simp add: check_vcek_chain_def)
  have g: "snp_gather_endorsements ssl en (at_time t opts) rs = snp_gather_endorsements ssl en opts rs"
  proof -
    have "parse_url_responses ssl (at_time t opts) = parse_url_responses ssl opts"
      by (rule ext) (simp add: parse_url_responses_def)
    then show ?thesis by (simp add: snp_gather_endorsements_def split: option.split)
  qed
  show ?thesis by (simp add: snp_verify_def c k g)
qed

text \<open>
  The option \<open>verification_time\<close> has no effect on any verifier, since the parameters that hold it
  are replaced before the chain is verified.
\<close>

theorem verification_time_ignored:
  assumes "\<And>p t ctx. ctx_set0_param (env_ssl E) p (ctx_set_time (env_ssl E) t ctx) = ctx_set0_param (env_ssl E) p ctx"
  shows "any_verify E a
       (opts\<lparr>certificate_verification := (certificate_verification opts)\<lparr>verification_time := t\<rparr>\<rparr>) rs
     = any_verify E a opts rs"
proof -
  note s = sgx_time_lost[OF assms] and n = snp_time_lost[OF assms]
  have "oe_verify (env_ssl E) (env_json_parse E) (env_strptime E) o' (at_time t opts) rs =
      oe_verify (env_ssl E) (env_json_parse E) (env_strptime E) o' opts rs" for o'
    by (simp add: oe_verify_def oe_run_verify_def s cong: option.case_cong sum.case_cong)
  then have "any_verify E a (at_time t opts) rs = any_verify E a opts rs"
    by (cases a) (simp_all add: any_verify_def oe_any_verify_def aci_verify_def s n)
  then show ?thesis by (simp add: at_time_def)
qed

lemma verification_time_ignored_witness:
  "is_ok (any_verify ex_env ex_sgx
     (default_options\<lparr>certificate_verification := (certificate_verification default_options)\<lparr>verification_time := Some 0\<rparr>\<rparr>) None)"
proof -
  have "ctx_set0_param (env_ssl ex_env) p (ctx_set_time (env_ssl ex_env) t ctx) = ctx_set0_param (env_ssl ex_env) p ctx"
    for p t ctx by (simp add: ex_env_def ex_ssl_def)
  from verification_time_ignored[OF this, where a = ex_sgx and opts = default_options and t = "Some 0" and rs = None] ex_verifies
  show ?thesis by (auto simp: any_verify_def ex_sgx_def ex_env_def is_ok_iff)
qed

end
