(* ===== verification/Ownership.thy ===== *)
theory Ownership
  imports StdMap Crypto "HOL-Library.Multiset"
begin

text \<open>
  Who owns the objects of OpenSSL: the smart pointers of \<open>include/ravl/openssl.hpp\<close> (\<open>UqSSLObject\<close>,
  \<open>UqX509\<close>, \<open>UqX509_CRL\<close>, \<open>UqEVP_PKEY\<close>, \<open>UqStackOfX509\<close>) over a heap of reference counts.

  A certificate that was decoded holds one reference to its own key, and gives it back when it is freed
  itself; \<open>Key n\<close> is the key of \<open>Cert n\<close>.  A pointer is an option, None being null.  The functions below
  take the pointers of the wrappers they read and return those of the wrappers they leave, in the order
  of the arguments.  Running out of memory is not modelled, and a null \<open>STACK_OF(X509)\<close> is the empty one.
\<close>

section \<open>The heap\<close>

datatype obj = Cert nat | Key nat | Crl nat

record ssl_heap =
  refs :: "obj \<Rightarrow> nat"
  holds_key :: "nat list"
  next_obj :: nat

definition null_deref :: failure where
  "null_deref = Undefined_Behaviour ''access through a null pointer''"

definition freed_access :: failure where
  "freed_access = Undefined_Behaviour ''access to a freed object''"

text \<open>\<open>X509_up_ref\<close>, \<open>EVP_PKEY_up_ref\<close> and \<open>X509_CRL_up_ref\<close>.\<close>

definition up_ref :: "(nat \<Rightarrow> obj) \<Rightarrow> nat option \<Rightarrow> ssl_heap \<Rightarrow> ssl_heap result" where
  "up_ref K p h = (case p of None \<Rightarrow> Inl null_deref
     | Some x \<Rightarrow> throw_if (refs h (K x) = 0) freed_access
         (Inr (h\<lparr>refs := (refs h)(K x := Suc (refs h (K x)))\<rparr>)))"

definition drop_ref :: "obj \<Rightarrow> ssl_heap \<Rightarrow> ssl_heap result" where
  "drop_ref x h = throw_if (refs h x = 0) freed_access
     (Inr (h\<lparr>refs := (refs h)(x := refs h x - 1)\<rparr>))"

text \<open>\<open>EVP_PKEY_free\<close>, \<open>X509_CRL_free\<close> and \<open>X509_free\<close>; all accept null.\<close>

definition pkey_free :: "nat option \<Rightarrow> ssl_heap \<Rightarrow> ssl_heap result" where
  "pkey_free p h = (case p of None \<Rightarrow> Inr h | Some k \<Rightarrow> drop_ref (Key k) h)"

definition crl_free :: "nat option \<Rightarrow> ssl_heap \<Rightarrow> ssl_heap result" where
  "crl_free p h = (case p of None \<Rightarrow> Inr h | Some c \<Rightarrow> drop_ref (Crl c) h)"

definition x509_free :: "nat option \<Rightarrow> ssl_heap \<Rightarrow> ssl_heap result" where
  "x509_free p h = (case p of None \<Rightarrow> Inr h
     | Some c \<Rightarrow> andthen (drop_ref (Cert c) h) (\<lambda>h.
         if refs h (Cert c) = 0 \<and> c \<in> set (holds_key h)
         then drop_ref (Key c) (h\<lparr>holds_key := remove1 c (holds_key h)\<rparr>) else Inr h))"

text \<open>\<open>X509_new\<close>, and a decoded certificate, with a key when the library can decode it.\<close>

definition new_cert :: "bool \<Rightarrow> ssl_heap \<Rightarrow> ssl_heap \<times> nat" where
  "new_cert with_key h =
     (let n = next_obj h;
          r = (refs h)(Cert n := 1)
      in (if with_key
          then h\<lparr>refs := r(Key n := 1), holds_key := n # holds_key h, next_obj := Suc n\<rparr>
          else h\<lparr>refs := r, next_obj := Suc n\<rparr>, n))"

text \<open>A decoded revocation list.\<close>

definition new_crl :: "ssl_heap \<Rightarrow> ssl_heap \<times> nat" where
  "new_crl h = (let n = next_obj h in (h\<lparr>refs := (refs h)(Crl n := 1), next_obj := Suc n\<rparr>, n))"

text \<open>\<open>X509_get_pubkey\<close> (the caller gets a reference of its own) and \<open>X509_dup\<close>.\<close>

definition X509_get_pubkey :: "nat option \<Rightarrow> ssl_heap \<Rightarrow> (ssl_heap \<times> nat option) result" where
  "X509_get_pubkey p h = (case p of None \<Rightarrow> Inr (h, None)
     | Some c \<Rightarrow> throw_if (refs h (Cert c) = 0) freed_access
         (if c \<in> set (holds_key h) then andthen (up_ref Key (Some c) h) (\<lambda>h. Inr (h, Some c))
          else Inr (h, None)))"

definition X509_dup :: "nat option \<Rightarrow> ssl_heap \<Rightarrow> (ssl_heap \<times> nat option) result" where
  "X509_dup p h = (case p of None \<Rightarrow> Inr (h, None)
     | Some c \<Rightarrow> throw_if (refs h (Cert c) = 0) freed_access
         (let (h', n) = new_cert (c \<in> set (holds_key h)) h in Inr (h', Some n)))"

section \<open>Wrappers of one object\<close>

text \<open>The constructors of \<open>UqSSLObject\<close> that take a pointer over.\<close>

definition take_over :: "nat option \<Rightarrow> bool \<Rightarrow> nat option result" where
  "take_over p check_null = throw_if (check_null \<and> p = None) openssl_error (Inr p)"

text \<open>\<open>UqX509()\<close>; \<open>UqX509(bio, pem, check_null)\<close> on what the library decodes.\<close>

definition x509_default :: "ssl_heap \<Rightarrow> (ssl_heap \<times> nat option) result" where
  "x509_default h = (let (h', n) = new_cert False h
     in andthen (take_over (Some n) True) (\<lambda>p. Inr (h', p)))"

definition x509_decode :: "bool option \<Rightarrow> bool \<Rightarrow> ssl_heap \<Rightarrow> (ssl_heap \<times> nat option) result" where
  "x509_decode decoded check_null h = (case decoded of
       None \<Rightarrow> andthen (take_over None check_null) (\<lambda>p. Inr (h, p))
     | Some with_key \<Rightarrow> (let (h', n) = new_cert with_key h
         in andthen (take_over (Some n) check_null) (\<lambda>p. Inr (h', p))))"

text \<open>\<open>UqX509(X509*&)\<close> takes a pointer that somebody else owns, and a reference for itself.\<close>

definition x509_of_pointer :: "nat option \<Rightarrow> ssl_heap \<Rightarrow> (ssl_heap \<times> nat option) result" where
  "x509_of_pointer x h = andthen (take_over x True) (\<lambda>p.
     andthen (up_ref Cert p h) (\<lambda>h. Inr (h, p)))"

text \<open>The copy copies the certificate; the move makes an empty certificate first and frees it.\<close>

definition x509_copy :: "nat option \<Rightarrow> ssl_heap \<Rightarrow> (ssl_heap \<times> nat option) result" where
  "x509_copy other h = andthen (X509_dup other h) (\<lambda>(h, d).
     andthen (take_over d True) (\<lambda>p. Inr (h, p)))"

definition x509_move :: "nat option \<Rightarrow> ssl_heap \<Rightarrow> (ssl_heap \<times> nat option \<times> nat option) result" where
  "x509_move other h = andthen (x509_default h) (\<lambda>(h, p).
     andthen (x509_free p h) (\<lambda>h. Inr (h, other, None)))"

definition x509_assign :: "nat option \<Rightarrow> nat option \<Rightarrow> ssl_heap \<Rightarrow> (ssl_heap \<times> nat option) result" where
  "x509_assign this other h = andthen (up_ref Cert other h) (\<lambda>h.
     andthen (x509_free this h) (\<lambda>h. Inr (h, other)))"

definition x509_move_assign ::
  "nat option \<Rightarrow> nat option \<Rightarrow> ssl_heap \<Rightarrow> (ssl_heap \<times> nat option \<times> nat option) result" where
  "x509_move_assign this other h = andthen (x509_free this h) (\<lambda>h. Inr (h, other, None))"

text \<open>\<open>UqX509::get_pubkey\<close> takes a second reference, since \<open>X509_get_pubkey\<close> returned one already.\<close>

definition get_pubkey :: "nat option \<Rightarrow> ssl_heap \<Rightarrow> (ssl_heap \<times> nat option) result" where
  "get_pubkey x h = andthen (X509_get_pubkey x h) (\<lambda>(h, pk).
     andthen (up_ref Key pk h) (\<lambda>h. andthen (take_over pk True) (\<lambda>p. Inr (h, p))))"

text \<open>
  \<open>UqEVP_PKEY(const UqX509&)\<close>: the temporary of \<open>get_pubkey\<close> converts to the pointer it owns, which the
  new wrapper takes over as well; then the temporary is destroyed.
\<close>

definition pkey_of_cert :: "nat option \<Rightarrow> ssl_heap \<Rightarrow> (ssl_heap \<times> nat option) result" where
  "pkey_of_cert x h = andthen (get_pubkey x h) (\<lambda>(h, tmp).
     andthen (take_over tmp True) (\<lambda>p. andthen (pkey_free tmp h) (\<lambda>h. Inr (h, p))))"

definition pkey_copy :: "nat option \<Rightarrow> ssl_heap \<Rightarrow> (ssl_heap \<times> nat option) result" where
  "pkey_copy other h = andthen (up_ref Key other h) (\<lambda>h. Inr (h, other))"

definition pkey_move :: "nat option \<Rightarrow> ssl_heap \<Rightarrow> (ssl_heap \<times> nat option \<times> nat option) result" where
  "pkey_move other h = Inr (h, other, None)"

definition pkey_assign :: "nat option \<Rightarrow> nat option \<Rightarrow> ssl_heap \<Rightarrow> (ssl_heap \<times> nat option) result" where
  "pkey_assign this other h = andthen (up_ref Key other h) (\<lambda>h.
     andthen (pkey_free this h) (\<lambda>h. Inr (h, other)))"

text \<open>
  \<open>UqX509_CRL\<close>: the constructors that decode, the copy, which checks the pointer before it takes a
  reference, and the assignments.
\<close>

definition crl_decode :: "bool \<Rightarrow> ssl_heap \<Rightarrow> (ssl_heap \<times> nat option) result" where
  "crl_decode decoded h =
     (let (h, p) = (if decoded then (let (h, n) = new_crl h in (h, Some n)) else (h, None))
      in andthen (take_over p True) (\<lambda>p. Inr (h, p)))"

definition crl_copy :: "nat option \<Rightarrow> ssl_heap \<Rightarrow> (ssl_heap \<times> nat option) result" where
  "crl_copy other h = andthen (take_over other True) (\<lambda>p.
     andthen (up_ref Crl p h) (\<lambda>h. Inr (h, p)))"

definition crl_assign :: "nat option \<Rightarrow> nat option \<Rightarrow> ssl_heap \<Rightarrow> (ssl_heap \<times> nat option) result" where
  "crl_assign this other h = andthen (up_ref Crl other h) (\<lambda>h.
     andthen (crl_free this h) (\<lambda>h. Inr (h, other)))"

definition crl_move_assign ::
  "nat option \<Rightarrow> nat option \<Rightarrow> ssl_heap \<Rightarrow> (ssl_heap \<times> nat option \<times> nat option) result" where
  "crl_move_assign this other h = andthen (crl_free this h) (\<lambda>h. Inr (h, other, None))"

section \<open>Stacks of certificates\<close>

text \<open>\<open>X509_chain_up_ref\<close> (the virtual \<open>_sk_dup\<close>) and \<open>sk_X509_pop_free\<close>, which skips null elements.\<close>

fun chain_up_ref :: "nat option list \<Rightarrow> ssl_heap \<Rightarrow> ssl_heap result" where
  "chain_up_ref [] h = Inr h"
| "chain_up_ref (p # ps) h = andthen (up_ref Cert p h) (chain_up_ref ps)"

fun pop_free :: "nat option list \<Rightarrow> ssl_heap \<Rightarrow> ssl_heap result" where
  "pop_free [] h = Inr h"
| "pop_free (p # ps) h = andthen (x509_free p h) (pop_free ps)"

definition stack_copy :: "nat option list \<Rightarrow> ssl_heap \<Rightarrow> (ssl_heap \<times> nat option list) result" where
  "stack_copy other h = andthen (chain_up_ref other h) (\<lambda>h. Inr (h, other))"

text \<open>
  \<open>UqStackOf::operator=\<close>: the deleter that \<open>reset\<close> calls on the old stack is \<open>sk_X509_free\<close>, which does not
  free the certificates in it.
\<close>

definition stack_assign ::
  "nat option list \<Rightarrow> nat option list \<Rightarrow> ssl_heap \<Rightarrow> (ssl_heap \<times> nat option list) result" where
  "stack_assign this other h = andthen (chain_up_ref other h) (\<lambda>h. Inr (h, other))"

definition stack_element :: "nat option list \<Rightarrow> nat \<Rightarrow> ssl_heap \<Rightarrow> (ssl_heap \<times> nat option) result" where
  "stack_element st i h = andthen (stack_at st i) (\<lambda>v.
     throw_if (v = None) (Runtime_Error ''no such value'') (x509_of_pointer v h))"

definition stack_push ::
  "nat option list \<Rightarrow> nat option \<Rightarrow> ssl_heap \<Rightarrow> (ssl_heap \<times> nat option list \<times> nat option) result" where
  "stack_push st x h = Inr (h, st @ [x], None)"

definition stack_push_copy ::
  "nat option list \<Rightarrow> nat option \<Rightarrow> ssl_heap \<Rightarrow> (ssl_heap \<times> nat option list) result" where
  "stack_push_copy st x h = andthen (x509_copy x h) (\<lambda>(h, c).
     andthen (stack_push st c h) (\<lambda>(h, st, tmp). andthen (x509_free tmp h) (\<lambda>h. Inr (h, st))))"

text \<open>\<open>sk_X509_insert\<close> appends when the index is past the end.\<close>

definition stack_insert ::
  "nat option list \<Rightarrow> nat \<Rightarrow> nat option \<Rightarrow> ssl_heap \<Rightarrow> (ssl_heap \<times> nat option list \<times> nat option) result" where
  "stack_insert st i x h = Inr (h, take i st @ [x] @ drop i st, None)"

text \<open>
  \<open>UqStackOfX509(pem)\<close>: the elements of the PEM text are decoded into a list that is freed at the end;
  an element that is no certificate throws, which destroys the new stack but not that list.
\<close>

fun decode_infos :: "bool option list \<Rightarrow> ssl_heap \<Rightarrow> ssl_heap \<times> nat option list" where
  "decode_infos [] h = (h, [])"
| "decode_infos (None # is) h = (let (h, ps) = decode_infos is h in (h, None # ps))"
| "decode_infos (Some with_key # is) h =
     (let (h, n) = new_cert with_key h; (h, ps) = decode_infos is h in (h, Some n # ps))"

fun push_infos :: "nat option list \<Rightarrow> nat option list \<Rightarrow> ssl_heap \<Rightarrow> ssl_heap \<times> nat option list result" where
  "push_infos [] st h = (h, Inr st)"
| "push_infos (None # ps) st h = (case pop_free st h of
       Inl e \<Rightarrow> (h, Inl e) | Inr h \<Rightarrow> (h, Inl (Runtime_Error ''invalid PEM element'')))"
| "push_infos (Some c # ps) st h = (case up_ref Cert (Some c) h of
       Inl e \<Rightarrow> (h, Inl e) | Inr h \<Rightarrow> push_infos ps (st @ [Some c]) h)"

definition stack_of_text :: "bool option list \<Rightarrow> ssl_heap \<Rightarrow> ssl_heap \<times> nat option list result" where
  "stack_of_text infos h =
     (let (h, sk_info) = decode_infos infos h
      in case push_infos sk_info [] h of
           (h, Inl e) \<Rightarrow> (h, Inl e)
         | (h, Inr st) \<Rightarrow> (case pop_free sk_info h of Inl e \<Rightarrow> (h, Inl e) | Inr h \<Rightarrow> (h, Inr st)))"

section \<open>Accounting\<close>

text \<open>
  The references of an object are the owners \<open>M\<close> outside the heap and the certificates that hold their
  key.  \<open>delivers r P\<close>: the operation does not touch a freed object, and what it returns satisfies \<open>P\<close>.
\<close>

definition held :: "ssl_heap \<Rightarrow> obj multiset" where
  "held h = image_mset Key (mset (holds_key h))"

fun obj_index :: "obj \<Rightarrow> nat" where
  "obj_index (Cert n) = n"
| "obj_index (Key n) = n"
| "obj_index (Crl n) = n"

definition fresh_ok :: "ssl_heap \<Rightarrow> bool" where
  "fresh_ok h \<longleftrightarrow> (\<forall>x. refs h x \<noteq> 0 \<longrightarrow> obj_index x < next_obj h)"

definition heap_wf :: "ssl_heap \<Rightarrow> bool" where
  "heap_wf h \<longleftrightarrow> distinct (holds_key h) \<and> (\<forall>c\<in>set (holds_key h). refs h (Cert c) \<noteq> 0) \<and> fresh_ok h"

definition balanced :: "ssl_heap \<Rightarrow> obj multiset \<Rightarrow> bool" where
  "balanced h M \<longleftrightarrow> heap_wf h \<and> (\<forall>x. refs h x = count (M + held h) x)"

definition delivers :: "'a result \<Rightarrow> ('a \<Rightarrow> bool) \<Rightarrow> bool" where
  "delivers r P = (case r of Inl e \<Rightarrow> e \<noteq> freed_access | Inr a \<Rightarrow> P a)"

definition owns :: "(nat \<Rightarrow> obj) \<Rightarrow> nat option \<Rightarrow> obj multiset" where
  "owns K p = (case p of None \<Rightarrow> {#} | Some x \<Rightarrow> {#K x#})"

definition owns_all :: "(nat \<Rightarrow> obj) \<Rightarrow> nat option list \<Rightarrow> obj multiset" where
  "owns_all K ps = sum_list (map (owns K) ps)"

lemma owns_simps [simp]:
  "owns K None = {#}" "owns K (Some x) = {#K x#}"
  "owns_all K [] = {#}" "owns_all K (p # ps) = owns K p + owns_all K ps"
  "owns_all K (ps @ qs) = owns_all K ps + owns_all K qs"
  by (simp_all add: owns_def owns_all_def)

lemma delivers_simps [simp]:
  "delivers (Inr a) P = P a" "delivers (Inl e) P = (e \<noteq> freed_access)"
  by (simp_all add: delivers_def)

lemma delivers_bind:
  "delivers r P \<Longrightarrow> (\<And>a. P a \<Longrightarrow> delivers (f a) Q) \<Longrightarrow> delivers (andthen r f) Q"
  by (cases r) auto

lemma delivers_bind2:
  "delivers r (\<lambda>(h, a). P h a) \<Longrightarrow> (\<And>h a. P h a \<Longrightarrow> delivers (f h a) Q)
     \<Longrightarrow> delivers (andthen r (\<lambda>(h, a). f h a)) Q"
  by (cases r) auto

lemma delivers_throw_if [simp]:
  "delivers (throw_if c e k) P \<longleftrightarrow> (if c then e \<noteq> freed_access else delivers k P)"
  by simp

lemma delivers_mono: "delivers r P \<Longrightarrow> (\<And>a. P a \<Longrightarrow> Q a) \<Longrightarrow> delivers r Q"
  by (cases r) auto

lemma not_freed [simp]: "null_deref \<noteq> freed_access" "openssl_error \<noteq> freed_access"
    "Runtime_Error s \<noteq> freed_access" "Out_Of_Range s \<noteq> freed_access"
  by (simp_all add: null_deref_def freed_access_def openssl_error_def)

lemma take_over_delivers [simp]: "delivers (take_over p c) P \<longleftrightarrow> (c \<and> p = None) \<or> P p"
  by (cases "c \<and> p = None") (auto simp: take_over_def)

lemma count_held [simp]:
  "count (held h) (Cert c) = 0" "count (held h) (Crl c) = 0"
  "distinct (holds_key h) \<Longrightarrow> count (held h) (Key k) = (if k \<in> set (holds_key h) then 1 else 0)"
proof -
  have key_count: "distinct xs \<Longrightarrow> count (image_mset Key (mset xs)) (Key k) = (if k \<in> set xs then 1 else 0)"
    for xs by (induction xs) auto
  show "count (held h) (Cert c) = 0" "count (held h) (Crl c) = 0" by (auto simp: held_def count_eq_zero_iff)
  show "count (held h) (Key k) = (if k \<in> set (holds_key h) then 1 else 0)" if "distinct (holds_key h)"
    using that key_count[of "holds_key h"] by (simp add: held_def)
qed

lemma fresh_ok_refs:
  "fresh_ok h \<Longrightarrow> refs h x \<noteq> 0 \<or> m \<le> refs h x \<Longrightarrow> fresh_ok (h\<lparr>refs := (refs h)(x := m)\<rparr>)"
  by (auto simp: fresh_ok_def)

lemma balancedI:
  assumes "distinct (holds_key h)" and "\<And>c. c \<in> set (holds_key h) \<Longrightarrow> refs h (Cert c) \<noteq> 0"
    and "fresh_ok h"
    and "\<And>c. refs h (Cert c) = count M (Cert c)"
    and "\<And>k. refs h (Key k) = count M (Key k) + (if k \<in> set (holds_key h) then 1 else 0)"
    and "\<And>c. refs h (Crl c) = count M (Crl c)"
  shows "balanced h M"
proof -
  have "refs h x = count (M + held h) x" for x using assms(1,4-6) by (cases x) auto
  then show ?thesis using assms(1,2,3) by (auto simp: balanced_def heap_wf_def)
qed

lemma balancedD:
  assumes "balanced h M"
  shows "distinct (holds_key h)" "c \<in> set (holds_key h) \<Longrightarrow> refs h (Cert c) \<noteq> 0"
    "fresh_ok h" "refs h (Cert c) = count M (Cert c)"
    "refs h (Key k) = count M (Key k) + (if k \<in> set (holds_key h) then 1 else 0)"
    "refs h (Crl c) = count M (Crl c)"
  using assms by (auto simp: balanced_def heap_wf_def)

lemma up_ref_delivers:
  assumes b: "balanced h M" and p: "\<And>x. p = Some x \<Longrightarrow> K x \<in># M + held h" and K: "K = Cert \<or> K = Key \<or> K = Crl"
  shows "delivers (up_ref K p h) (\<lambda>h'. balanced h' (owns K p + M) \<and> p \<noteq> None \<and> holds_key h' = holds_key h)"
proof (cases p)
  case None
  then show ?thesis by (simp add: up_ref_def)
next
  case (Some x)
  have "refs h (K x) = count (M + held h) (K x)" using b unfolding balanced_def by blast
  then have n: "refs h (K x) \<noteq> 0" using p[OF Some] by (metis count_eq_zero_iff)
  have "balanced (h\<lparr>refs := (refs h)(K x := Suc (refs h (K x)))\<rparr>) (add_mset (K x) M)"
    by (rule balancedI) (use K n balancedD[OF b] fresh_ok_refs in auto)
  then show ?thesis using Some n by (simp add: up_ref_def)
qed

lemma drop_crl_delivers:
  assumes "balanced h (add_mset (Crl c) M)"
  shows "delivers (drop_ref (Crl c) h) (\<lambda>h'. balanced h' M)"
proof -
  have "balanced (h\<lparr>refs := (refs h)(Crl c := refs h (Crl c) - 1)\<rparr>) M"
    by (rule balancedI) (use balancedD[OF assms] fresh_ok_refs in auto)
  then show ?thesis using balancedD(6)[OF assms, of c] by (simp add: drop_ref_def)
qed

lemma crl_free_delivers:
  "balanced h (owns Crl p + M) \<Longrightarrow> delivers (crl_free p h) (\<lambda>h'. balanced h' M)"
  by (cases p) (simp_all add: crl_free_def drop_crl_delivers)

lemma drop_key_delivers:
  assumes "balanced h (add_mset (Key k) M)"
  shows "delivers (drop_ref (Key k) h) (\<lambda>h'. balanced h' M)"
proof -
  have "balanced (h\<lparr>refs := (refs h)(Key k := refs h (Key k) - 1)\<rparr>) M"
    by (rule balancedI) (use balancedD[OF assms] fresh_ok_refs in auto)
  then show ?thesis using balancedD(5)[OF assms, of k] by (simp add: drop_ref_def)
qed

lemma pkey_free_delivers:
  "balanced h (owns Key p + M) \<Longrightarrow> delivers (pkey_free p h) (\<lambda>h'. balanced h' M)"
  by (cases p) (simp_all add: pkey_free_def drop_key_delivers)

lemma x509_free_delivers:
  assumes b: "balanced h (owns Cert p + M)"
  shows "delivers (x509_free p h) (\<lambda>h'. balanced h' M)"
proof (cases p)
  case None
  then show ?thesis using b by (simp add: x509_free_def)
next
  case (Some c)
  let ?h = "h\<lparr>refs := (refs h)(Cert c := refs h (Cert c) - 1)\<rparr>"
  note d = balancedD[OF b, unfolded Some, simplified]
  have f: "fresh_ok ?h" "fresh_ok (?h\<lparr>holds_key := remove1 c (holds_key h)\<rparr>)"
    using fresh_ok_refs[OF d(3), of "Cert c" "refs h (Cert c) - 1"] by (simp_all add: fresh_ok_def)
  have m: "x \<in> set (holds_key h) \<Longrightarrow> x \<noteq> c \<Longrightarrow> Cert x \<in># M" for x
    using d(2)[of x] d(4)[of x] by (auto simp: count_greater_zero_iff[symmetric] simp del: count_greater_zero_iff)
  have r: "drop_ref (Cert c) h = Inr ?h" using d(4)[of c] by (simp add: drop_ref_def)
  show ?thesis
  proof (cases "refs ?h (Cert c) = 0 \<and> c \<in> set (holds_key h)")
    case True
    have "balanced (?h\<lparr>holds_key := remove1 c (holds_key h)\<rparr>) (add_mset (Key c) M)"
      by (rule balancedI) (use True d f m in \<open>auto simp: set_remove1_eq\<close>)
    from drop_key_delivers[OF this] True show ?thesis
      by (simp add: x509_free_def Some r)
  next
    case False
    have "balanced ?h M" by (rule balancedI) (use False d f m in auto)
    then show ?thesis using False by (auto simp: x509_free_def Some r)
  qed
qed

lemma new_cert_balanced:
  assumes b: "balanced h M" and n: "new_cert w h = (h', n)"
  shows "balanced h' (add_mset (Cert n) M)"
proof -
  note d = balancedD[OF b]
  have z: "refs h (Cert (next_obj h)) = 0" "refs h (Key (next_obj h)) = 0"
    using d(3) by (force simp: fresh_ok_def)+
  have f: "fresh_ok h'"
    using d(3) n by (auto simp: new_cert_def Let_def fresh_ok_def less_Suc_eq split: if_splits)
  have "next_obj h \<notin> set (holds_key h)" using d(2) z by blast
  moreover have "n = next_obj h" using n by (auto simp: new_cert_def Let_def split: if_splits)
  moreover have "count M (Cert (next_obj h)) = 0" "count M (Key (next_obj h)) = 0"
    using z d(4)[of "next_obj h"] d(5)[of "next_obj h"] by auto
  ultimately show ?thesis
    by (intro balancedI) (use n d f in \<open>auto simp: new_cert_def Let_def split: if_splits\<close>)
qed

lemma new_crl_balanced:
  assumes b: "balanced h M" and n: "new_crl h = (h', n)"
  shows "balanced h' (add_mset (Crl n) M)"
proof -
  note d = balancedD[OF b]
  have z: "refs h (Crl (next_obj h)) = 0" using d(3) by (force simp: fresh_ok_def)
  have "fresh_ok h'" using d(3) n by (auto simp: new_crl_def Let_def fresh_ok_def less_Suc_eq split: if_splits)
  with z d(6)[of "next_obj h"] show ?thesis
    by (intro balancedI) (use n d in \<open>auto simp: new_crl_def Let_def\<close>)
qed

section \<open>Every operation keeps the account\<close>

lemma get_pubkey_library:
  assumes b: "balanced h M" and p: "\<And>c. p = Some c \<Longrightarrow> Cert c \<in># M"
  shows "delivers (X509_get_pubkey p h) (\<lambda>(h', k). balanced h' (owns Key k + M)
     \<and> (\<forall>x. k = Some x \<longrightarrow> Key x \<in># M + held h'))"
proof (cases "\<exists>c. p = Some c \<and> c \<in> set (holds_key h)")
  case True
  then obtain c where c: "p = Some c" "c \<in> set (holds_key h)" by blast
  then have "Key c \<in># M + held h" by (simp add: held_def)
  then have "delivers (up_ref Key (Some c) h)
      (\<lambda>h'. balanced h' (owns Key (Some c) + M) \<and> Some c \<noteq> None \<and> holds_key h' = holds_key h)"
    by (intro up_ref_delivers[OF b]) auto
  then have "delivers (andthen (up_ref Key (Some c) h) (\<lambda>h. Inr (h, Some c))) (\<lambda>(h', k).
      balanced h' (owns Key k + M) \<and> (\<forall>x. k = Some x \<longrightarrow> Key x \<in># M + held h'))"
    by (rule delivers_bind) (use c in \<open>auto simp: held_def\<close>)
  then show ?thesis using c balancedD(2)[OF b c(2)] by (simp add: X509_get_pubkey_def)
next
  case False
  then show ?thesis
    using b p balancedD(4)[OF b] by (cases p) (auto simp: X509_get_pubkey_def throw_if_def)
qed

lemma dup_library:
  assumes b: "balanced h M" and p: "\<And>c. p = Some c \<Longrightarrow> Cert c \<in># M"
  shows "delivers (X509_dup p h) (\<lambda>(h', d). balanced h' (owns Cert d + M))"
proof (cases p)
  case None
  then show ?thesis using b by (simp add: X509_dup_def)
next
  case (Some c)
  then have "refs h (Cert c) \<noteq> 0" using p[OF Some] balancedD(4)[OF b, of c] by simp
  then show ?thesis using Some new_cert_balanced[OF b]
    by (auto simp: X509_dup_def Let_def split: prod.split)
qed

lemma default_delivers: "balanced h M \<Longrightarrow> delivers (x509_default h) (\<lambda>(h', p). balanced h' (owns Cert p + M))"
  using new_cert_balanced[of h M False]
  by (cases "new_cert False h") (simp add: x509_default_def Let_def take_over_def)

lemma decode_delivers:
  assumes "balanced h M"
  shows "delivers (x509_decode d c h) (\<lambda>(h', p). balanced h' (owns Cert p + M))"
proof (cases d)
  case None
  then show ?thesis using assms by (simp add: x509_decode_def take_over_def throw_if_def)
next
  case (Some w)
  then show ?thesis using new_cert_balanced[OF assms, of w]
    by (cases "new_cert w h") (simp add: x509_decode_def Let_def take_over_def)
qed

lemma of_pointer_delivers:
  assumes "balanced h M" and "\<And>c. p = Some c \<Longrightarrow> Cert c \<in># M"
  shows "delivers (x509_of_pointer p h) (\<lambda>(h', q). balanced h' (owns Cert q + M))"
proof -
  have "delivers (up_ref Cert p h) (\<lambda>h'. balanced h' (owns Cert p + M) \<and> p \<noteq> None \<and> holds_key h' = holds_key h)"
    using assms by (intro up_ref_delivers) auto
  from delivers_bind[OF this, of "\<lambda>h. Inr (h, p)"] show ?thesis
    by (cases p) (auto simp: x509_of_pointer_def take_over_def)
qed

lemma copy_delivers:
  assumes "balanced h M" and "\<And>c. p = Some c \<Longrightarrow> Cert c \<in># M"
  shows "delivers (x509_copy p h) (\<lambda>(h', q). balanced h' (owns Cert q + M) \<and> q \<noteq> None)"
  unfolding x509_copy_def
  by (rule delivers_bind[OF dup_library[OF assms]]) (auto simp: take_over_def throw_if_def)

lemma move_delivers:
  assumes "balanced h (owns Cert p + M)"
  shows "delivers (x509_move p h) (\<lambda>(h', q, r). balanced h' (owns Cert q + owns Cert r + M))"
  unfolding x509_move_def
proof (rule delivers_bind2[OF default_delivers[OF assms]])
  fix h1 d assume b: "balanced h1 (owns Cert d + (owns Cert p + M))"
  show "delivers (andthen (x509_free d h1) (\<lambda>h. Inr (h, p, None)))
      (\<lambda>(h', q, r). balanced h' (owns Cert q + owns Cert r + M))"
    by (rule delivers_bind[OF x509_free_delivers[OF b]]) simp
qed

lemma assign_delivers:
  assumes b: "balanced h (owns K this + M)" and K: "K = Cert \<and> release = x509_free \<or> K = Key \<and> release = pkey_free \<or> K = Crl \<and> release = crl_free"
    and p: "\<And>c. p = Some c \<Longrightarrow> K c \<in># owns K this + M"
  shows "delivers (andthen (up_ref K p h) (\<lambda>h. andthen (release this h) (\<lambda>h. Inr (h, p))))
     (\<lambda>(h', q). balanced h' (owns K q + M))"
proof -
  have "delivers (up_ref K p h) (\<lambda>h'. balanced h' (owns K p + (owns K this + M)) \<and> p \<noteq> None
      \<and> holds_key h' = holds_key h)"
    using b p K by (intro up_ref_delivers) auto
  then show ?thesis
  proof (rule delivers_bind, elim conjE)
    fix h1 assume "balanced h1 (owns K p + (owns K this + M))"
    then have "delivers (release this h1) (\<lambda>h'. balanced h' (owns K p + M))"
      using K by (auto simp: ac_simps intro!: x509_free_delivers pkey_free_delivers crl_free_delivers)
    then show "delivers (andthen (release this h1) (\<lambda>h. Inr (h, p))) (\<lambda>(h', q). balanced h' (owns K q + M))"
      by (rule delivers_bind) simp
  qed
qed

lemma get_pubkey_delivers:
  assumes "balanced h M" and "\<And>c. p = Some c \<Longrightarrow> Cert c \<in># M"
  shows "delivers (get_pubkey p h) (\<lambda>(h', k). balanced h' (owns Key k + owns Key k + M))"
  unfolding get_pubkey_def
proof (rule delivers_bind2, rule get_pubkey_library[OF assms])
  fix h1 k assume *: "balanced h1 (owns Key k + M) \<and> (\<forall>x. k = Some x \<longrightarrow> Key x \<in># M + held h1)"
  then have b: "balanced h1 (owns Key k + M)" and k: "\<forall>x. k = Some x \<longrightarrow> Key x \<in># M + held h1" by auto
  have "delivers (up_ref Key k h1) (\<lambda>h'. balanced h' (owns Key k + (owns Key k + M)) \<and> k \<noteq> None
      \<and> holds_key h' = holds_key h1)"
    using k by (intro up_ref_delivers[OF b]) auto
  then show "delivers (andthen (up_ref Key k h1) (\<lambda>h. andthen (take_over k True) (\<lambda>p. Inr (h, p))))
      (\<lambda>(h', k). balanced h' (owns Key k + owns Key k + M))"
    by (rule delivers_bind) (auto simp: take_over_def ac_simps)
qed

lemma pkey_of_cert_delivers:
  assumes "balanced h M" and "\<And>c. p = Some c \<Longrightarrow> Cert c \<in># M"
  shows "delivers (pkey_of_cert p h) (\<lambda>(h', k). balanced h' (owns Key k + M))"
  unfolding pkey_of_cert_def
proof (rule delivers_bind2[OF get_pubkey_delivers[OF assms]])
  fix h1 k assume "balanced h1 (owns Key k + owns Key k + M)"
  then have "delivers (pkey_free k h1) (\<lambda>h'. balanced h' (owns Key k + M))"
    by (intro pkey_free_delivers) (simp add: ac_simps)
  then show "delivers (andthen (take_over k True) (\<lambda>p. andthen (pkey_free k h1) (\<lambda>h. Inr (h, p))))
      (\<lambda>(h', k). balanced h' (owns Key k + M))"
    by (cases k) (auto simp: take_over_def intro: delivers_bind)
qed

lemma crl_decode_delivers:
  "balanced h M \<Longrightarrow> delivers (crl_decode d h) (\<lambda>(h', p). balanced h' (owns Crl p + M))"
  using new_crl_balanced[of h M]
  by (cases "new_crl h") (auto simp: crl_decode_def Let_def take_over_def throw_if_def)

lemma crl_copy_delivers:
  assumes "balanced h M" and "\<And>c. p = Some c \<Longrightarrow> Crl c \<in># M"
  shows "delivers (crl_copy p h) (\<lambda>(h', q). balanced h' (owns Crl q + M))"
proof -
  have "delivers (up_ref Crl p h) (\<lambda>h'. balanced h' (owns Crl p + M) \<and> p \<noteq> None \<and> holds_key h' = holds_key h)"
    using assms by (intro up_ref_delivers) auto
  from delivers_bind[OF this, of "\<lambda>h. Inr (h, p)"] show ?thesis
    by (cases p) (auto simp: crl_copy_def take_over_def)
qed

lemma chain_up_ref_delivers:
  assumes "balanced h M" and "\<And>c. Some c \<in> set ps \<Longrightarrow> Cert c \<in># M"
  shows "delivers (chain_up_ref ps h) (\<lambda>h'. balanced h' (owns_all Cert ps + M))"
  using assms
proof (induction ps arbitrary: h M)
  case Nil
  then show ?case by simp
next
  case (Cons p ps)
  have "delivers (up_ref Cert p h) (\<lambda>h'. balanced h' (owns Cert p + M) \<and> p \<noteq> None \<and> holds_key h' = holds_key h)"
    using Cons.prems by (intro up_ref_delivers) auto
  then show ?case unfolding chain_up_ref.simps
  proof (rule delivers_bind, elim conjE)
    fix h1 assume "balanced h1 (owns Cert p + M)"
    from Cons.IH[OF this] Cons.prems(2)
    show "delivers (chain_up_ref ps h1) (\<lambda>h'. balanced h' (owns_all Cert (p # ps) + M))"
      by (simp add: ac_simps)
  qed
qed

text \<open>Freeing what is owned never fails: there is no null to follow.\<close>

lemma x509_free_total: "balanced h (owns Cert p + M) \<Longrightarrow> \<exists>h'. x509_free p h = Inr h' \<and> balanced h' M"
proof -
  assume b: "balanced h (owns Cert p + M)"
  have "x509_free p h = Inl e \<Longrightarrow> e = freed_access" for e
    by (auto simp: x509_free_def drop_ref_def throw_if_def andthen_def split: option.splits if_splits sum.splits)
  then show ?thesis using x509_free_delivers[OF b] by (cases "x509_free p h") auto
qed

lemma pop_free_total: "balanced h (owns_all Cert ps + M) \<Longrightarrow> \<exists>h'. pop_free ps h = Inr h' \<and> balanced h' M"
proof (induction ps arbitrary: h)
  case (Cons p ps)
  then have "balanced h (owns Cert p + (owns_all Cert ps + M))" by (simp add: ac_simps)
  from x509_free_total[OF this] Cons.IH show ?case by auto
qed simp

lemma pop_free_delivers:
  "balanced h (owns_all Cert ps + M) \<Longrightarrow> delivers (pop_free ps h) (\<lambda>h'. balanced h' M)"
  using pop_free_total by fastforce

lemma decode_infos_balanced:
  "balanced h M \<Longrightarrow> decode_infos is h = (h', ps) \<Longrightarrow> balanced h' (owns_all Cert ps + M)"
proof (induction "is" h arbitrary: h' ps M rule: decode_infos.induct)
  case (2 "is" h)
  then show ?case by (auto simp: Let_def split: prod.splits)
next
  case (3 w "is" h)
  obtain h1 n where n: "new_cert w h = (h1, n)" by fastforce
  obtain h2 qs where q: "decode_infos is h1 = (h2, qs)" by fastforce
  have "balanced h2 (owns_all Cert qs + add_mset (Cert n) M)"
    by (rule "3.IH"[OF n[symmetric] refl new_cert_balanced[OF "3.prems"(1) n] q])
  then show ?case using "3.prems"(2) n q by (auto simp: Let_def)
qed simp

lemma push_infos_balanced:
  assumes "balanced h (owns_all Cert st + M)" and "\<And>c. Some c \<in> set ps \<Longrightarrow> Cert c \<in># M"
  shows "case push_infos ps st h of (h', Inr st') \<Rightarrow> None \<notin> set ps \<and> balanced h' (owns_all Cert st' + M)
     | (h', Inl e) \<Rightarrow> None \<in> set ps \<and> e \<noteq> freed_access \<and> balanced h' M"
  using assms
proof (induction ps st h rule: push_infos.induct)
  case (2 ps st h)
  from pop_free_total[OF "2.prems"(1)] show ?case by auto
next
  case (3 c ps st h)
  have "delivers (up_ref Cert (Some c) h) (\<lambda>h'. balanced h' (owns Cert (Some c) + (owns_all Cert st + M))
      \<and> Some c \<noteq> None \<and> holds_key h' = holds_key h)"
    using "3.prems" by (intro up_ref_delivers) auto
  moreover have "\<exists>h1. up_ref Cert (Some c) h = Inr h1"
    using "3.prems"(2)[of c] balancedD(4)[OF "3.prems"(1), of c] by (auto simp: up_ref_def throw_if_def)
  ultimately obtain h1 where h1: "up_ref Cert (Some c) h = Inr h1"
    "balanced h1 (owns_all Cert (st @ [Some c]) + M)" by auto
  from "3.IH"[OF h1(1) h1(2)] "3.prems"(2) h1(1) show ?case by (simp split: prod.splits sum.splits)
qed simp

lemma decode_infos_None: "None \<in> set (snd (decode_infos is h)) \<longleftrightarrow> None \<in> set is"
  by (induction "is" h rule: decode_infos.induct) (auto simp: Let_def split: prod.splits)

lemma stack_of_text_balanced:
  assumes b: "balanced h M"
  shows "case stack_of_text infos h of (h', Inr st) \<Rightarrow> None \<notin> set infos \<and> balanced h' (owns_all Cert st + M)
     | (h', Inl e) \<Rightarrow> None \<in> set infos \<and> e \<noteq> freed_access \<and> balanced h' (owns_all Cert (snd (decode_infos infos h)) + M)"
proof -
  obtain h1 ps where d: "decode_infos infos h = (h1, ps)" by fastforce
  note b1 = decode_infos_balanced[OF b d]
  have "Some c \<in> set ps \<Longrightarrow> Cert c \<in># owns_all Cert ps + M" for c
    by (induction ps) auto
  then have p: "case push_infos ps [] h1 of (h', Inr st') \<Rightarrow> None \<notin> set ps
        \<and> balanced h' (owns_all Cert st' + (owns_all Cert ps + M))
     | (h', Inl e) \<Rightarrow> None \<in> set ps \<and> e \<noteq> freed_access \<and> balanced h' (owns_all Cert ps + M)"
    using b1 by (intro push_infos_balanced) auto
  have n: "None \<in> set ps \<longleftrightarrow> None \<in> set infos" using decode_infos_None[of infos h] d by simp
  obtain h2 r where r: "push_infos ps [] h1 = (h2, r)" by fastforce
  show ?thesis
  proof (cases r)
    case (Inl e)
    then show ?thesis using d r p n by (simp add: stack_of_text_def Let_def)
  next
    case (Inr st)
    with p r have "balanced h2 (owns_all Cert ps + (owns_all Cert st + M))" by (simp add: ac_simps)
    from pop_free_total[OF this] Inr d r p n show ?thesis by (auto simp: stack_of_text_def Let_def)
  qed
qed

end
