(* ===== verification/OwnershipRuns.thy ===== *)
theory OwnershipRuns
  imports Ownership
begin

text \<open>
  Programs over the wrappers of \<open>Ownership\<close>: their variables, the operations they may apply, the states
  they reach, and the proof that every operation keeps the account of references.
\<close>

section \<open>Programs over the wrappers\<close>

text \<open>
  The variables of a program, each with the pointer (or the pointers) it owns, and the operations of the
  wrappers on them, named by constructor, assignment, method or destructor.
\<close>

record ssl_env =
  env_heap :: ssl_heap
  x509s :: "(nat, nat option) std_map"
  pkeys :: "(nat, nat option) std_map"
  stacks :: "(nat, nat option list) std_map"
  crls :: "(nat, nat option) std_map"

datatype ssl_op =
    X509_Default nat
  | X509_Decode nat "bool option" bool
  | X509_Copy nat nat
  | X509_Move nat nat
  | X509_Assign nat nat
  | X509_Move_Assign nat nat
  | X509_Destroy nat
  | Get_Pubkey nat nat
  | Pkey_Of_Cert nat nat
  | Pkey_Copy nat nat
  | Pkey_Move nat nat
  | Pkey_Assign nat nat
  | Pkey_Destroy nat
  | Stack_Default nat
  | Stack_Of_Text nat "bool option list"
  | Stack_Copy nat nat
  | Stack_Assign nat nat
  | Stack_Element nat nat nat
  | Stack_Push nat nat
  | Stack_Push_Copy nat nat
  | Stack_Insert nat nat nat
  | Stack_Destroy nat
  | Crl_Decode nat bool
  | Crl_Copy nat nat
  | Crl_Assign nat nat
  | Crl_Move_Assign nat nat
  | Crl_Destroy nat

definition pointer_of :: "nat \<Rightarrow> (nat, nat option) std_map \<Rightarrow> nat option" where
  "pointer_of v m = (case map_find v m of None \<Rightarrow> None | Some p \<Rightarrow> p)"

definition stack_of :: "nat \<Rightarrow> (nat, nat option list) std_map \<Rightarrow> nat option list" where
  "stack_of s m = (case map_find s m of None \<Rightarrow> [] | Some st \<Rightarrow> st)"

text \<open>An exception leaves the variables as they are: what it unwinds is part of each operation.\<close>

definition effect :: "ssl_env \<Rightarrow> 'a result \<Rightarrow> ('a \<Rightarrow> ssl_env) \<Rightarrow> ssl_env \<times> unit result" where
  "effect e r f = (case r of Inl x \<Rightarrow> (e, Inl x) | Inr a \<Rightarrow> (f a, Inr ()))"

fun exec_op :: "ssl_op \<Rightarrow> ssl_env \<Rightarrow> ssl_env \<times> unit result" where
  "exec_op (X509_Default v) e = effect e (x509_default (env_heap e))
     (\<lambda>(h, p). e\<lparr>env_heap := h, x509s := assign v p (x509s e)\<rparr>)"
| "exec_op (X509_Decode v d c) e = effect e (x509_decode d c (env_heap e))
     (\<lambda>(h, p). e\<lparr>env_heap := h, x509s := assign v p (x509s e)\<rparr>)"
| "exec_op (X509_Copy v w) e = effect e (x509_copy (pointer_of w (x509s e)) (env_heap e))
     (\<lambda>(h, p). e\<lparr>env_heap := h, x509s := assign v p (x509s e)\<rparr>)"
| "exec_op (X509_Move v w) e = effect e (x509_move (pointer_of w (x509s e)) (env_heap e))
     (\<lambda>(h, p, q). e\<lparr>env_heap := h, x509s := assign v p (assign w q (x509s e))\<rparr>)"
| "exec_op (X509_Assign v w) e = effect e
     (x509_assign (pointer_of v (x509s e)) (pointer_of w (x509s e)) (env_heap e))
     (\<lambda>(h, p). e\<lparr>env_heap := h, x509s := assign v p (x509s e)\<rparr>)"
| "exec_op (X509_Move_Assign v w) e = effect e
     (x509_move_assign (pointer_of v (x509s e)) (pointer_of w (x509s e)) (env_heap e))
     (\<lambda>(h, p, q). e\<lparr>env_heap := h, x509s := assign v p (assign w q (x509s e))\<rparr>)"
| "exec_op (X509_Destroy v) e = effect e (x509_free (pointer_of v (x509s e)) (env_heap e))
     (\<lambda>h. e\<lparr>env_heap := h, x509s := erase v (x509s e)\<rparr>)"
| "exec_op (Get_Pubkey k w) e = effect e (get_pubkey (pointer_of w (x509s e)) (env_heap e))
     (\<lambda>(h, p). e\<lparr>env_heap := h, pkeys := assign k p (pkeys e)\<rparr>)"
| "exec_op (Pkey_Of_Cert k w) e = effect e (pkey_of_cert (pointer_of w (x509s e)) (env_heap e))
     (\<lambda>(h, p). e\<lparr>env_heap := h, pkeys := assign k p (pkeys e)\<rparr>)"
| "exec_op (Pkey_Copy k l) e = effect e (pkey_copy (pointer_of l (pkeys e)) (env_heap e))
     (\<lambda>(h, p). e\<lparr>env_heap := h, pkeys := assign k p (pkeys e)\<rparr>)"
| "exec_op (Pkey_Move k l) e = effect e (pkey_move (pointer_of l (pkeys e)) (env_heap e))
     (\<lambda>(h, p, q). e\<lparr>env_heap := h, pkeys := assign k p (assign l q (pkeys e))\<rparr>)"
| "exec_op (Pkey_Assign k l) e = effect e
     (pkey_assign (pointer_of k (pkeys e)) (pointer_of l (pkeys e)) (env_heap e))
     (\<lambda>(h, p). e\<lparr>env_heap := h, pkeys := assign k p (pkeys e)\<rparr>)"
| "exec_op (Pkey_Destroy k) e = effect e (pkey_free (pointer_of k (pkeys e)) (env_heap e))
     (\<lambda>h. e\<lparr>env_heap := h, pkeys := erase k (pkeys e)\<rparr>)"
| "exec_op (Stack_Default s) e = (e\<lparr>stacks := assign s [] (stacks e)\<rparr>, Inr ())"
| "exec_op (Stack_Of_Text s infos) e = (case stack_of_text infos (env_heap e) of
       (h, Inl x) \<Rightarrow> (e\<lparr>env_heap := h\<rparr>, Inl x)
     | (h, Inr st) \<Rightarrow> (e\<lparr>env_heap := h, stacks := assign s st (stacks e)\<rparr>, Inr ()))"
| "exec_op (Stack_Copy s t) e = effect e (stack_copy (stack_of t (stacks e)) (env_heap e))
     (\<lambda>(h, st). e\<lparr>env_heap := h, stacks := assign s st (stacks e)\<rparr>)"
| "exec_op (Stack_Assign s t) e = effect e
     (stack_assign (stack_of s (stacks e)) (stack_of t (stacks e)) (env_heap e))
     (\<lambda>(h, st). e\<lparr>env_heap := h, stacks := assign s st (stacks e)\<rparr>)"
| "exec_op (Stack_Element v s i) e = effect e (stack_element (stack_of s (stacks e)) i (env_heap e))
     (\<lambda>(h, p). e\<lparr>env_heap := h, x509s := assign v p (x509s e)\<rparr>)"
| "exec_op (Stack_Push s w) e = effect e
     (stack_push (stack_of s (stacks e)) (pointer_of w (x509s e)) (env_heap e))
     (\<lambda>(h, st, q). e\<lparr>env_heap := h, stacks := assign s st (stacks e), x509s := assign w q (x509s e)\<rparr>)"
| "exec_op (Stack_Push_Copy s w) e = effect e
     (stack_push_copy (stack_of s (stacks e)) (pointer_of w (x509s e)) (env_heap e))
     (\<lambda>(h, st). e\<lparr>env_heap := h, stacks := assign s st (stacks e)\<rparr>)"
| "exec_op (Stack_Insert s i w) e = effect e
     (stack_insert (stack_of s (stacks e)) i (pointer_of w (x509s e)) (env_heap e))
     (\<lambda>(h, st, q). e\<lparr>env_heap := h, stacks := assign s st (stacks e), x509s := assign w q (x509s e)\<rparr>)"
| "exec_op (Stack_Destroy s) e = effect e (pop_free (stack_of s (stacks e)) (env_heap e))
     (\<lambda>h. e\<lparr>env_heap := h, stacks := erase s (stacks e)\<rparr>)"
| "exec_op (Crl_Decode v d) e = effect e (crl_decode d (env_heap e))
     (\<lambda>(h, p). e\<lparr>env_heap := h, crls := assign v p (crls e)\<rparr>)"
| "exec_op (Crl_Copy v w) e = effect e (crl_copy (pointer_of w (crls e)) (env_heap e))
     (\<lambda>(h, p). e\<lparr>env_heap := h, crls := assign v p (crls e)\<rparr>)"
| "exec_op (Crl_Assign v w) e = effect e
     (crl_assign (pointer_of v (crls e)) (pointer_of w (crls e)) (env_heap e))
     (\<lambda>(h, p). e\<lparr>env_heap := h, crls := assign v p (crls e)\<rparr>)"
| "exec_op (Crl_Move_Assign v w) e = effect e
     (crl_move_assign (pointer_of v (crls e)) (pointer_of w (crls e)) (env_heap e))
     (\<lambda>(h, p, q). e\<lparr>env_heap := h, crls := assign v p (assign w q (crls e))\<rparr>)"
| "exec_op (Crl_Destroy v) e = effect e (crl_free (pointer_of v (crls e)) (env_heap e))
     (\<lambda>h. e\<lparr>env_heap := h, crls := erase v (crls e)\<rparr>)"

text \<open>
  What the compiler guarantees of a program: a constructor makes a new variable, and the other variables
  of an operation exist.
\<close>

fun declared :: "ssl_op \<Rightarrow> ssl_env \<Rightarrow> bool" where
  "declared (X509_Default v) e = (map_find v (x509s e) = None)"
| "declared (X509_Decode v d c) e = (map_find v (x509s e) = None)"
| "declared (X509_Copy v w) e = (map_find v (x509s e) = None \<and> map_find w (x509s e) \<noteq> None)"
| "declared (X509_Move v w) e = (map_find v (x509s e) = None \<and> map_find w (x509s e) \<noteq> None)"
| "declared (X509_Assign v w) e = (map_find v (x509s e) \<noteq> None \<and> map_find w (x509s e) \<noteq> None)"
| "declared (X509_Move_Assign v w) e =
     (v \<noteq> w \<and> map_find v (x509s e) \<noteq> None \<and> map_find w (x509s e) \<noteq> None)"
| "declared (X509_Destroy v) e = (map_find v (x509s e) \<noteq> None)"
| "declared (Get_Pubkey k w) e = (map_find k (pkeys e) = None \<and> map_find w (x509s e) \<noteq> None)"
| "declared (Pkey_Of_Cert k w) e = (map_find k (pkeys e) = None \<and> map_find w (x509s e) \<noteq> None)"
| "declared (Pkey_Copy k l) e = (map_find k (pkeys e) = None \<and> map_find l (pkeys e) \<noteq> None)"
| "declared (Pkey_Move k l) e = (map_find k (pkeys e) = None \<and> map_find l (pkeys e) \<noteq> None)"
| "declared (Pkey_Assign k l) e = (map_find k (pkeys e) \<noteq> None \<and> map_find l (pkeys e) \<noteq> None)"
| "declared (Pkey_Destroy k) e = (map_find k (pkeys e) \<noteq> None)"
| "declared (Stack_Default s) e = (map_find s (stacks e) = None)"
| "declared (Stack_Of_Text s infos) e = (map_find s (stacks e) = None)"
| "declared (Stack_Copy s t) e = (map_find s (stacks e) = None \<and> map_find t (stacks e) \<noteq> None)"
| "declared (Stack_Assign s t) e = (map_find s (stacks e) \<noteq> None \<and> map_find t (stacks e) \<noteq> None)"
| "declared (Stack_Element v s i) e = (map_find v (x509s e) = None \<and> map_find s (stacks e) \<noteq> None)"
| "declared (Stack_Push s w) e = (map_find s (stacks e) \<noteq> None \<and> map_find w (x509s e) \<noteq> None)"
| "declared (Stack_Push_Copy s w) e = (map_find s (stacks e) \<noteq> None \<and> map_find w (x509s e) \<noteq> None)"
| "declared (Stack_Insert s i w) e = (map_find s (stacks e) \<noteq> None \<and> map_find w (x509s e) \<noteq> None)"
| "declared (Stack_Destroy s) e = (map_find s (stacks e) \<noteq> None)"
| "declared (Crl_Decode v d) e = (map_find v (crls e) = None)"
| "declared (Crl_Copy v w) e = (map_find v (crls e) = None \<and> map_find w (crls e) \<noteq> None)"
| "declared (Crl_Assign v w) e = (map_find v (crls e) \<noteq> None \<and> map_find w (crls e) \<noteq> None)"
| "declared (Crl_Move_Assign v w) e =
     (v \<noteq> w \<and> map_find v (crls e) \<noteq> None \<and> map_find w (crls e) \<noteq> None)"
| "declared (Crl_Destroy v) e = (map_find v (crls e) \<noteq> None)"

text \<open>
  The references nobody owns after an operation.  A program is run from nothing; \<open>L\<close> collects what has
  been lost so far.
\<close>

fun lost :: "ssl_op \<Rightarrow> ssl_env \<Rightarrow> obj multiset" where
  "lost (Get_Pubkey k w) e = owns Key (pointer_of w (x509s e))"
| "lost (Stack_Assign s t) e = owns_all Cert (stack_of s (stacks e))"
| "lost (Stack_Of_Text s infos) e =
     (if None \<in> set infos then owns_all Cert (snd (decode_infos infos (env_heap e))) else {#})"
| "lost _ e = {#}"

definition empty_env :: ssl_env where
  "empty_env = \<lparr>env_heap = \<lparr>refs = (\<lambda>_. 0), holds_key = [], next_obj = 0\<rparr>, x509s = [], pkeys = [], stacks = [],
     crls = []\<rparr>"

inductive ssl_run :: "ssl_env \<Rightarrow> obj multiset \<Rightarrow> bool" where
  start: "ssl_run empty_env {#}"
| operate: "ssl_run e L \<Longrightarrow> declared op e \<Longrightarrow> exec_op op e = (e', r) \<Longrightarrow> \<not> undefined_behaviour r
    \<Longrightarrow> ssl_run e' (L + lost op e)"

section \<open>The account of a whole program\<close>

definition map_owns :: "('a \<Rightarrow> 'b multiset) \<Rightarrow> (nat, 'a) std_map \<Rightarrow> 'b multiset" where
  "map_owns f m = sum_list (map (f \<circ> snd) m)"

definition owners :: "ssl_env \<Rightarrow> obj multiset" where
  "owners e = map_owns (owns Cert) (x509s e) + map_owns (owns Key) (pkeys e)
     + map_owns (owns_all Cert) (stacks e) + map_owns (owns Crl) (crls e)"

definition env_ok :: "ssl_env \<Rightarrow> obj multiset \<Rightarrow> bool" where
  "env_ok e L \<longleftrightarrow> balanced (env_heap e) (owners e + L)
     \<and> map_wf (x509s e) \<and> map_wf (pkeys e) \<and> map_wf (stacks e) \<and> map_wf (crls e)"

lemma map_owns_simps [simp]: "map_owns f [] = {#}" "map_owns f ((k, p) # m) = f p + map_owns f m"
  by (simp_all add: map_owns_def)

lemma erase_simps [simp]:
  "erase v [] = []" "erase v ((k, q) # m) = (if v = k then erase v m else (k, q) # erase v m)"
  by (auto simp: erase_def)

lemma erase_not_in: "k \<notin> keys m \<Longrightarrow> erase k m = m"
  by (induction m) (auto simp: keys_def)

lemma erase_assign: "v \<noteq> w \<Longrightarrow> erase v (assign w p m) = assign w p (erase v m)"
  by (induction m) auto

lemma map_wf_Cons: "map_wf ((k, q) # m) \<longleftrightarrow> k \<notin> keys m \<and> map_wf m"
  by (auto simp: map_wf_def keys_def)

lemma map_owns_assign: "map_wf m \<Longrightarrow> map_owns f (assign v p m) = f p + map_owns f (erase v m)"
  by (induction m) (auto simp: map_wf_Cons erase_not_in ac_simps)

lemma map_owns_erase:
  "map_wf m \<Longrightarrow> map_owns f m = (case map_find v m of None \<Rightarrow> {#} | Some p \<Rightarrow> f p) + map_owns f (erase v m)"
proof (induction m)
  case (Cons a m)
  then show ?case
    by (cases a; cases "v = fst a") (simp add: map_wf_Cons erase_not_in, simp add: map_wf_Cons ac_simps)
qed simp

text \<open>The account after an operation on one variable, or on two.\<close>

lemma pointer_split: "map_wf m \<Longrightarrow> owns K (pointer_of v m) + map_owns (owns K) (erase v m) = map_owns (owns K) m"
  by (simp add: map_owns_erase[of m "owns K" v] pointer_of_def split: option.split)

lemma stack_split: "map_wf m \<Longrightarrow> owns_all K (stack_of s m) + map_owns (owns_all K) (erase s m) = map_owns (owns_all K) m"
  by (simp add: map_owns_erase[of m "owns_all K" s] stack_of_def split: option.split)

lemma in_pointers: "map_wf m \<Longrightarrow> pointer_of v m = Some c \<Longrightarrow> K c \<in># map_owns (owns K) m"
  using pointer_split[of m K v] by (metis owns_simps(2) union_iff union_single_eq_member add_mset_add_single)

lemma in_stacks: "map_wf m \<Longrightarrow> Some c \<in> set (stack_of s m) \<Longrightarrow> K c \<in># map_owns (owns_all K) m"
proof -
  have "Some c \<in> set ps \<Longrightarrow> K c \<in># owns_all K ps" for ps by (induction ps) auto
  then show "map_wf m \<Longrightarrow> Some c \<in> set (stack_of s m) \<Longrightarrow> K c \<in># map_owns (owns_all K) m"
    using stack_split[of m K s] by (metis union_iff)
qed

lemma owned_pointer: "map_wf (x509s e) \<Longrightarrow> pointer_of v (x509s e) = Some c \<Longrightarrow> Cert c \<in># owners e + L"
  by (simp add: owners_def in_pointers)

lemma owned_key: "map_wf (pkeys e) \<Longrightarrow> pointer_of k (pkeys e) = Some c \<Longrightarrow> Key c \<in># owners e + L"
  by (simp add: owners_def in_pointers)

lemma owned_crl: "map_wf (crls e) \<Longrightarrow> pointer_of k (crls e) = Some c \<Longrightarrow> Crl c \<in># owners e + L"
  by (simp add: owners_def in_pointers)

lemma owned_element: "map_wf (stacks e) \<Longrightarrow> Some c \<in> set (stack_of s (stacks e)) \<Longrightarrow> Cert c \<in># owners e + L"
  by (simp add: owners_def in_stacks)

lemma pointer_of_absent: "map_find v m = None \<Longrightarrow> pointer_of v m = None"
  by (simp add: pointer_of_def)

lemma stack_of_absent: "map_find s m = None \<Longrightarrow> stack_of s m = []"
  by (simp add: stack_of_def)

lemma pointer_of_erase: "v \<noteq> w \<Longrightarrow> pointer_of v (erase w m) = pointer_of v m"
  by (simp add: pointer_of_def map_find_erase)

lemma map_wf_erase: "map_wf m \<Longrightarrow> map_wf (erase v m)"
  by (rule store.inv_del)

text \<open>What the variables own after \<open>assign\<close> and \<open>erase\<close>.\<close>

lemma owners_assign:
  "map_wf (x509s e) \<Longrightarrow> owners (e\<lparr>env_heap := h, x509s := assign v p (x509s e)\<rparr>) + owns Cert (pointer_of v (x509s e))
     = owns Cert p + owners e"
  "map_wf (pkeys e) \<Longrightarrow> owners (e\<lparr>env_heap := h, pkeys := assign k q (pkeys e)\<rparr>) + owns Key (pointer_of k (pkeys e))
     = owns Key q + owners e"
  "map_wf (stacks e) \<Longrightarrow> owners (e\<lparr>env_heap := h, stacks := assign s st (stacks e)\<rparr>) + owns_all Cert (stack_of s (stacks e))
     = owns_all Cert st + owners e"
  "map_wf (crls e) \<Longrightarrow> owners (e\<lparr>env_heap := h, crls := assign c q (crls e)\<rparr>) + owns Crl (pointer_of c (crls e))
     = owns Crl q + owners e"
  using pointer_split[of "x509s e" Cert v] pointer_split[of "pkeys e" Key k] stack_split[of "stacks e" Cert s]
    pointer_split[of "crls e" Crl c]
  by (simp_all add: owners_def map_owns_assign ac_simps)

definition ok_after :: "ssl_env \<times> unit result \<Rightarrow> obj multiset \<Rightarrow> bool" where
  "ok_after s L \<longleftrightarrow> snd s \<noteq> Inl freed_access \<and> (undefined_behaviour (snd s) \<or> env_ok (fst s) L)"

lemma effect_ok:
  assumes "delivers r P" and "\<And>a. P a \<Longrightarrow> env_ok (f a) L" and "\<And>x. r = Inl x \<Longrightarrow> undefined_behaviour r \<or> env_ok e L"
  shows "ok_after (effect e r f) L"
  using assms by (cases r) (auto simp: ok_after_def effect_def undefined_behaviour_def)

lemma exchange:
  fixes A :: "'a multiset"
  assumes "A + P = Q + B" and "P + M = B + L"
  shows "A + L = Q + M"
proof -
  have "A + L + P = (A + P) + L" by (simp only: ac_simps)
  also have "\<dots> = Q + (B + L)" by (simp only: assms(1) add.assoc)
  also have "\<dots> = Q + M + P" unfolding assms(2)[symmetric] by (simp only: ac_simps)
  finally show ?thesis by simp
qed

text \<open>A constructor, or an assignment, of one variable.\<close>

lemma set_x509:
  assumes e: "env_ok e L" and d: "delivers r (\<lambda>(h, p). balanced h (owns Cert p + M))"
    and M: "owns Cert (pointer_of v (x509s e)) + M = owners e + L"
  shows "ok_after (effect e r (\<lambda>(h, p). e\<lparr>env_heap := h, x509s := assign v p (x509s e)\<rparr>)) L"
proof (rule effect_ok[OF d])
  fix a assume a: "case a of (h, p) \<Rightarrow> balanced h (owns Cert p + M)"
  obtain h p where hp: "a = (h, p)" by fastforce
  have w: "map_wf (x509s e)" using e by (simp add: env_ok_def)
  have "owners (e\<lparr>env_heap := h, x509s := assign v p (x509s e)\<rparr>) + L = owns Cert p + M"
    by (rule exchange[OF owners_assign(1)[OF w] M])
  with e a hp show "env_ok (case a of (h, p) \<Rightarrow> e\<lparr>env_heap := h, x509s := assign v p (x509s e)\<rparr>) L"
    by (simp add: env_ok_def map_wf_assign)
qed (use e in simp)

lemma set_pkey:
  assumes e: "env_ok e L" and d: "delivers r (\<lambda>(h, p). balanced h (owns Key p + M))"
    and M: "owns Key (pointer_of k (pkeys e)) + M = owners e + L"
  shows "ok_after (effect e r (\<lambda>(h, p). e\<lparr>env_heap := h, pkeys := assign k p (pkeys e)\<rparr>)) L"
proof (rule effect_ok[OF d])
  fix a assume a: "case a of (h, p) \<Rightarrow> balanced h (owns Key p + M)"
  obtain h p where hp: "a = (h, p)" by fastforce
  have w: "map_wf (pkeys e)" using e by (simp add: env_ok_def)
  have "owners (e\<lparr>env_heap := h, pkeys := assign k p (pkeys e)\<rparr>) + L = owns Key p + M"
    by (rule exchange[OF owners_assign(2)[OF w] M])
  with e a hp show "env_ok (case a of (h, p) \<Rightarrow> e\<lparr>env_heap := h, pkeys := assign k p (pkeys e)\<rparr>) L"
    by (simp add: env_ok_def map_wf_assign)
qed (use e in simp)

lemma set_crl:
  assumes e: "env_ok e L" and d: "delivers r (\<lambda>(h, p). balanced h (owns Crl p + M))"
    and M: "owns Crl (pointer_of k (crls e)) + M = owners e + L"
  shows "ok_after (effect e r (\<lambda>(h, p). e\<lparr>env_heap := h, crls := assign k p (crls e)\<rparr>)) L"
proof (rule effect_ok[OF d])
  fix a assume a: "case a of (h, p) \<Rightarrow> balanced h (owns Crl p + M)"
  obtain h p where hp: "a = (h, p)" by fastforce
  have w: "map_wf (crls e)" using e by (simp add: env_ok_def)
  have "owners (e\<lparr>env_heap := h, crls := assign k p (crls e)\<rparr>) + L = owns Crl p + M"
    by (rule exchange[OF owners_assign(4)[OF w] M])
  with e a hp show "env_ok (case a of (h, p) \<Rightarrow> e\<lparr>env_heap := h, crls := assign k p (crls e)\<rparr>) L"
    by (simp add: env_ok_def map_wf_assign)
qed (use e in simp)

lemma set_stack:
  assumes e: "env_ok e L" and d: "delivers r (\<lambda>(h, st). balanced h (owns_all Cert st + M))"
    and M: "owns_all Cert (stack_of s (stacks e)) + M = owners e + L"
  shows "ok_after (effect e r (\<lambda>(h, st). e\<lparr>env_heap := h, stacks := assign s st (stacks e)\<rparr>)) L"
proof (rule effect_ok[OF d])
  fix a assume a: "case a of (h, st) \<Rightarrow> balanced h (owns_all Cert st + M)"
  obtain h st where hp: "a = (h, st)" by fastforce
  have w: "map_wf (stacks e)" using e by (simp add: env_ok_def)
  have "owners (e\<lparr>env_heap := h, stacks := assign s st (stacks e)\<rparr>) + L = owns_all Cert st + M"
    by (rule exchange[OF owners_assign(3)[OF w] M])
  with e a hp show "env_ok (case a of (h, st) \<Rightarrow> e\<lparr>env_heap := h, stacks := assign s st (stacks e)\<rparr>) L"
    by (simp add: env_ok_def map_wf_assign)
qed (use e in simp)

section \<open>The operations one by one\<close>

lemma env_okD:
  assumes "env_ok e L"
  shows "balanced (env_heap e) (owners e + L)" "map_wf (x509s e)" "map_wf (pkeys e)" "map_wf (stacks e)"
    "map_wf (crls e)"
  using assms by (simp_all add: env_ok_def)

text \<open>What is owned apart from the variable that an operation changes.\<close>

lemma pointer_rest:
  assumes "env_ok e L"
  obtains M where "owns Cert (pointer_of v (x509s e)) + M = owners e + L"
proof
  show "owns Cert (pointer_of v (x509s e)) + (map_owns (owns Cert) (erase v (x509s e))
      + map_owns (owns Key) (pkeys e) + map_owns (owns_all Cert) (stacks e) + map_owns (owns Crl) (crls e) + L) = owners e + L"
    using pointer_split[OF env_okD(2)[OF assms], of Cert v] by (simp add: owners_def add.assoc[symmetric])
qed

lemma key_rest:
  assumes "env_ok e L"
  obtains M where "owns Key (pointer_of k (pkeys e)) + M = owners e + L"
proof
  show "owns Key (pointer_of k (pkeys e)) + (map_owns (owns Cert) (x509s e)
      + map_owns (owns Key) (erase k (pkeys e)) + map_owns (owns_all Cert) (stacks e) + map_owns (owns Crl) (crls e) + L)
      = owners e + L"
    using pointer_split[OF env_okD(3)[OF assms], of Key k, symmetric] by (simp add: owners_def ac_simps)
qed

lemma stack_rest:
  assumes "env_ok e L"
  obtains M where "owns_all Cert (stack_of s (stacks e)) + M = owners e + L"
proof
  show "owns_all Cert (stack_of s (stacks e)) + (map_owns (owns Cert) (x509s e)
      + map_owns (owns Key) (pkeys e) + map_owns (owns_all Cert) (erase s (stacks e)) + map_owns (owns Crl) (crls e) + L)
      = owners e + L"
    using stack_split[OF env_okD(4)[OF assms], of Cert s, symmetric] by (simp add: owners_def ac_simps)
qed

lemma crl_rest:
  assumes "env_ok e L"
  obtains M where "owns Crl (pointer_of v (crls e)) + M = owners e + L"
proof
  show "owns Crl (pointer_of v (crls e)) + (map_owns (owns Cert) (x509s e) + map_owns (owns Key) (pkeys e)
      + map_owns (owns_all Cert) (stacks e) + map_owns (owns Crl) (erase v (crls e)) + L) = owners e + L"
    using pointer_split[OF env_okD(5)[OF assms], of Crl v, symmetric] by (simp add: owners_def ac_simps)
qed

lemma x509_constructors_ok:
  assumes e: "env_ok e L" and v: "map_find v (x509s e) = None"
  shows "ok_after (exec_op (X509_Default v) e) L" and "ok_after (exec_op (X509_Decode v d c) e) L"
    and "ok_after (exec_op (X509_Copy v w) e) L" and "ok_after (exec_op (Stack_Element v s i) e) L"
proof -
  note b = env_okD[OF e]
  have M: "owns Cert (pointer_of v (x509s e)) + (owners e + L) = owners e + L"
    by (simp add: pointer_of_absent[OF v])
  note set = set_x509[OF e _ M]
  show "ok_after (exec_op (X509_Default v) e) L"
    unfolding exec_op.simps by (rule set[OF default_delivers[OF b(1)]])
  show "ok_after (exec_op (X509_Decode v d c) e) L"
    unfolding exec_op.simps by (rule set[OF decode_delivers[OF b(1)]])
  have "delivers (x509_copy (pointer_of w (x509s e)) (env_heap e))
      (\<lambda>(h, p). balanced h (owns Cert p + (owners e + L)) \<and> p \<noteq> None)"
    by (rule copy_delivers[OF b(1) owned_pointer[OF b(2)]])
  then show "ok_after (exec_op (X509_Copy v w) e) L"
    unfolding exec_op.simps by (intro set) (auto elim!: delivers_mono)
  have "stack_of s (stacks e) ! i = Some c \<Longrightarrow> i < length (stack_of s (stacks e)) \<Longrightarrow> Cert c \<in># owners e + L" for c
    by (rule owned_element[OF b(4), of _ s]) (metis nth_mem)
  then have "delivers (stack_element (stack_of s (stacks e)) i (env_heap e))
      (\<lambda>(h, p). balanced h (owns Cert p + (owners e + L)))"
    using of_pointer_delivers[OF b(1)] by (auto simp: stack_element_def stack_at_def)
  then show "ok_after (exec_op (Stack_Element v s i) e) L"
    unfolding exec_op.simps by (rule set)
qed

lemma assignments_ok:
  assumes e: "env_ok e L"
  shows "ok_after (exec_op (X509_Assign v w) e) L" and "ok_after (exec_op (Pkey_Assign k l) e) L"
proof -
  note b = env_okD[OF e]
  obtain M where M: "owns Cert (pointer_of v (x509s e)) + M = owners e + L" using pointer_rest[OF e] by blast
  have "delivers (x509_assign (pointer_of v (x509s e)) (pointer_of w (x509s e)) (env_heap e))
      (\<lambda>(h, p). balanced h (owns Cert p + M))"
    unfolding x509_assign_def by (rule assign_delivers) (simp_all only: M b owned_pointer simp_thms)
  then show "ok_after (exec_op (X509_Assign v w) e) L"
    unfolding exec_op.simps by (rule set_x509[OF e _ M])
  obtain N where N: "owns Key (pointer_of k (pkeys e)) + N = owners e + L" using key_rest[OF e] by blast
  have "delivers (pkey_assign (pointer_of k (pkeys e)) (pointer_of l (pkeys e)) (env_heap e))
      (\<lambda>(h, p). balanced h (owns Key p + N))"
    unfolding pkey_assign_def by (rule assign_delivers) (simp_all only: N b owned_key simp_thms)
  then show "ok_after (exec_op (Pkey_Assign k l) e) L"
    unfolding exec_op.simps by (rule set_pkey[OF e _ N])
qed

lemma pkey_constructors_ok:
  assumes e: "env_ok e L" and k: "map_find k (pkeys e) = None"
  shows "ok_after (exec_op (Pkey_Of_Cert k w) e) L" and "ok_after (exec_op (Pkey_Copy k l) e) L"
proof -
  note b = env_okD[OF e]
  have M: "owns Key (pointer_of k (pkeys e)) + (owners e + L) = owners e + L"
    by (simp add: pointer_of_absent[OF k])
  show "ok_after (exec_op (Pkey_Of_Cert k w) e) L"
    unfolding exec_op.simps
    by (rule set_pkey[OF e _ M], rule pkey_of_cert_delivers[OF b(1)], erule owned_pointer[OF b(2)])
  have "delivers (up_ref Key (pointer_of l (pkeys e)) (env_heap e)) (\<lambda>h'.
      balanced h' (owns Key (pointer_of l (pkeys e)) + (owners e + L)) \<and> pointer_of l (pkeys e) \<noteq> None
      \<and> holds_key h' = holds_key (env_heap e))"
    using owned_key[OF b(3)] by (intro up_ref_delivers[OF b(1)]) auto
  then have "delivers (pkey_copy (pointer_of l (pkeys e)) (env_heap e))
      (\<lambda>(h, p). balanced h (owns Key p + (owners e + L)))"
    unfolding pkey_copy_def by (rule delivers_bind) simp
  then show "ok_after (exec_op (Pkey_Copy k l) e) L"
    unfolding exec_op.simps by (rule set_pkey[OF e _ M])
qed

text \<open>\<open>get_pubkey\<close> fails only on a null pointer, and leaves one reference more than its result owns.\<close>

lemma get_pubkey_cases:
  "get_pubkey p h = Inr (h', k) \<Longrightarrow> k = p"
  "get_pubkey p h = Inl x \<Longrightarrow> \<exists>s. x = Undefined_Behaviour s"
proof -
  have "get_pubkey p h = Inl null_deref \<or> get_pubkey p h = Inl freed_access \<or> (\<exists>h'. get_pubkey p h = Inr (h', p))"
    by (cases p) (simp_all add: get_pubkey_def X509_get_pubkey_def up_ref_def take_over_def throw_if_def)
  then show "get_pubkey p h = Inr (h', k) \<Longrightarrow> k = p" "get_pubkey p h = Inl x \<Longrightarrow> \<exists>s. x = Undefined_Behaviour s"
    by (auto simp: null_deref_def freed_access_def)
qed

lemma get_pubkey_ok:
  assumes e: "env_ok e L" and k: "map_find k (pkeys e) = None"
  shows "ok_after (exec_op (Get_Pubkey k w) e) (L + lost (Get_Pubkey k w) e)"
proof -
  note b = env_okD[OF e]
  let ?p = "pointer_of w (x509s e)"
  have d: "delivers (get_pubkey ?p (env_heap e)) (\<lambda>(h', k). balanced h' (owns Key k + owns Key k + (owners e + L)))"
    by (rule get_pubkey_delivers[OF b(1) owned_pointer[OF b(2)]])
  show ?thesis
  proof (cases "get_pubkey ?p (env_heap e)")
    case (Inl x)
    then show ?thesis using d get_pubkey_cases(2)[OF Inl] by (auto simp: effect_def ok_after_def)
  next
    case (Inr a)
    obtain h q where a: "a = (h, q)" by fastforce
    have q: "q = ?p" using get_pubkey_cases(1) Inr a by blast
    have "owners (e\<lparr>env_heap := h, pkeys := assign k q (pkeys e)\<rparr>) = owns Key q + owners e"
      using owners_assign(2)[OF b(3), of k q h] by (simp add: pointer_of_absent[OF k])
    then show ?thesis using Inr a q d b by (simp add: effect_def ok_after_def env_ok_def map_wf_assign ac_simps)
  qed
qed

text \<open>The moves.\<close>

lemma map_owns_assign2:
  "map_wf m \<Longrightarrow> v \<noteq> w \<Longrightarrow> map_owns (owns K) (assign v p (assign w q m)) + owns K (pointer_of v m) + owns K (pointer_of w m)
     = owns K p + owns K q + map_owns (owns K) m"
  using pointer_split[of m K v] pointer_split[of "erase v m" K w]
  by (simp add: map_owns_assign map_wf_assign erase_assign map_wf_erase pointer_of_erase ac_simps)

lemma pkey_move_ok:
  assumes e: "env_ok e L" and k: "map_find k (pkeys e) = None" "map_find l (pkeys e) \<noteq> None"
  shows "ok_after (exec_op (Pkey_Move k l) e) L"
proof -
  note b = env_okD[OF e]
  have "k \<noteq> l" using k by auto
  from map_owns_assign2[OF b(3) this, of Key "pointer_of l (pkeys e)" None]
  have "map_owns (owns Key) (assign k (pointer_of l (pkeys e)) (assign l None (pkeys e))) = map_owns (owns Key) (pkeys e)"
    by (simp add: pointer_of_absent[OF k(1)])
  then show ?thesis using e
    by (simp add: pkey_move_def effect_def ok_after_def env_ok_def owners_def map_wf_assign)
qed

lemma two_pointers_ok:
  assumes e: "env_ok e L" and vw: "v \<noteq> w" and d: "delivers r (\<lambda>(h, p, q). balanced h (owns Cert p + owns Cert q + M))"
    and M: "owns Cert (pointer_of v (x509s e)) + owns Cert (pointer_of w (x509s e)) + M = owners e + L"
  shows "ok_after (effect e r (\<lambda>(h, p, q). e\<lparr>env_heap := h, x509s := assign v p (assign w q (x509s e))\<rparr>)) L"
proof (rule effect_ok[OF d])
  fix a assume a: "case a of (h, p, q) \<Rightarrow> balanced h (owns Cert p + owns Cert q + M)"
  obtain h p q where hp: "a = (h, p, q)" by (cases a) auto
  have "owners (e\<lparr>env_heap := h, x509s := assign v p (assign w q (x509s e))\<rparr>)
      + (owns Cert (pointer_of v (x509s e)) + owns Cert (pointer_of w (x509s e)))
      = (owns Cert p + owns Cert q) + owners e"
    using map_owns_assign2[OF env_okD(2)[OF e] vw, of Cert p q] by (simp add: owners_def ac_simps)
  from exchange[OF this M] e a hp
  show "env_ok (case a of (h, p, q) \<Rightarrow> e\<lparr>env_heap := h, x509s := assign v p (assign w q (x509s e))\<rparr>) L"
    by (simp add: env_ok_def map_wf_assign)
qed (use e in simp)

lemma moves_ok:
  assumes e: "env_ok e L" and vw: "v \<noteq> w"
  shows "map_find v (x509s e) = None \<Longrightarrow> ok_after (exec_op (X509_Move v w) e) L"
    and "ok_after (exec_op (X509_Move_Assign v w) e) L"
proof -
  note b = env_okD[OF e]
  obtain M where M: "owns Cert (pointer_of v (x509s e)) + owns Cert (pointer_of w (x509s e)) + M = owners e + L"
  proof
    show "owns Cert (pointer_of v (x509s e)) + owns Cert (pointer_of w (x509s e))
        + (map_owns (owns Cert) (erase w (erase v (x509s e))) + map_owns (owns Key) (pkeys e)
           + map_owns (owns_all Cert) (stacks e) + map_owns (owns Crl) (crls e) + L) = owners e + L"
      using pointer_split[OF b(2), of Cert v, symmetric]
        pointer_split[OF map_wf_erase[OF b(2)], of Cert w v, symmetric] vw
      by (simp add: owners_def pointer_of_erase add.assoc)
  qed
  have "ok_after (exec_op (X509_Move v w) e) L" if "map_find v (x509s e) = None"
    unfolding exec_op.simps
  proof (rule two_pointers_ok[OF e vw _ M], rule move_delivers)
    show "balanced (env_heap e) (owns Cert (pointer_of w (x509s e)) + M)"
      using b(1) M by (simp add: pointer_of_absent[OF that])
  qed
  then show "map_find v (x509s e) = None \<Longrightarrow> ok_after (exec_op (X509_Move v w) e) L" .
  have "delivers (x509_free (pointer_of v (x509s e)) (env_heap e)) (\<lambda>h. balanced h (owns Cert (pointer_of w (x509s e)) + M))"
    by (rule x509_free_delivers) (simp add: b(1) add.assoc[symmetric] M)
  then have "delivers (x509_move_assign (pointer_of v (x509s e)) (pointer_of w (x509s e)) (env_heap e))
      (\<lambda>(h, p, q). balanced h (owns Cert p + owns Cert q + M))"
    unfolding x509_move_assign_def by (rule delivers_bind) simp
  then show "ok_after (exec_op (X509_Move_Assign v w) e) L"
    unfolding exec_op.simps by (rule two_pointers_ok[OF e vw _ M])
qed

lemma destructors_ok:
  assumes e: "env_ok e L"
  shows "ok_after (exec_op (X509_Destroy v) e) L" and "ok_after (exec_op (Pkey_Destroy k) e) L"
    and "ok_after (exec_op (Stack_Destroy s) e) L"
proof -
  note b = env_okD[OF e]
  have "balanced (env_heap e) (owns Cert (pointer_of v (x509s e)) + (owners (e\<lparr>x509s := erase v (x509s e)\<rparr>) + L))"
    using b(1) pointer_split[OF b(2), of Cert v, symmetric] by (simp add: owners_def add.assoc)
  from x509_free_delivers[OF this] show "ok_after (exec_op (X509_Destroy v) e) L"
    unfolding exec_op.simps by (rule effect_ok) (use e in \<open>auto simp: env_ok_def owners_def map_wf_erase\<close>)
  have "balanced (env_heap e) (owns Key (pointer_of k (pkeys e)) + (owners (e\<lparr>pkeys := erase k (pkeys e)\<rparr>) + L))"
    using b(1) pointer_split[OF b(3), of Key k, symmetric] by (simp add: owners_def ac_simps)
  from pkey_free_delivers[OF this] show "ok_after (exec_op (Pkey_Destroy k) e) L"
    unfolding exec_op.simps by (rule effect_ok) (use e in \<open>auto simp: env_ok_def owners_def map_wf_erase\<close>)
  have "balanced (env_heap e) (owns_all Cert (stack_of s (stacks e)) + (owners (e\<lparr>stacks := erase s (stacks e)\<rparr>) + L))"
    using b(1) stack_split[OF b(4), of Cert s, symmetric] by (simp add: owners_def ac_simps)
  from pop_free_delivers[OF this] show "ok_after (exec_op (Stack_Destroy s) e) L"
    unfolding exec_op.simps by (rule effect_ok) (use e in \<open>auto simp: env_ok_def owners_def map_wf_erase\<close>)
qed

lemma chain_up_ref_Inl: "chain_up_ref ps h = Inl x \<Longrightarrow> \<exists>s. x = Undefined_Behaviour s"
proof (induction ps arbitrary: h)
  case (Cons p ps)
  then show ?case
    by (cases p) (auto simp: up_ref_def andthen_Inl throw_if_Inl throw_if_Inr null_deref_def freed_access_def)
qed simp

lemma chain_delivers:
  assumes "env_ok e L"
  shows "delivers (chain_up_ref (stack_of t (stacks e)) (env_heap e))
     (\<lambda>h. balanced h (owns_all Cert (stack_of t (stacks e)) + (owners e + L)))"
  by (rule chain_up_ref_delivers[OF env_okD(1)[OF assms] owned_element[OF env_okD(4)[OF assms]]])

lemma stack_constructors_ok:
  assumes e: "env_ok e L" and s: "map_find s (stacks e) = None"
  shows "ok_after (exec_op (Stack_Default s) e) L" and "ok_after (exec_op (Stack_Copy s t) e) L"
    and "ok_after (exec_op (Stack_Of_Text s infos) e) (L + lost (Stack_Of_Text s infos) e)"
proof -
  note b = env_okD[OF e]
  have M: "owns_all Cert (stack_of s (stacks e)) + (owners e + L) = owners e + L"
    by (simp add: stack_of_absent[OF s])
  have own: "owners (e\<lparr>env_heap := h, stacks := assign s st (stacks e)\<rparr>) = owns_all Cert st + owners e" for h st
    using owners_assign(3)[OF b(4), of s st h] by (simp add: stack_of_absent[OF s])
  show "ok_after (exec_op (Stack_Default s) e) L"
    using own[where h = "env_heap e" and st = "[]"] e by (simp add: ok_after_def env_ok_def map_wf_assign)
  have "delivers (stack_copy (stack_of t (stacks e)) (env_heap e)) (\<lambda>(h, st). balanced h (owns_all Cert st + (owners e + L)))"
    unfolding stack_copy_def by (rule delivers_bind[OF chain_delivers[OF e]]) simp
  then show "ok_after (exec_op (Stack_Copy s t) e) L"
    unfolding exec_op.simps by (rule set_stack[OF e _ M])
  show "ok_after (exec_op (Stack_Of_Text s infos) e) (L + lost (Stack_Of_Text s infos) e)"
    using stack_of_text_balanced[OF b(1), of infos] own e
    by (auto simp: ok_after_def env_ok_def map_wf_assign owners_def ac_simps split: prod.splits sum.splits)
qed

lemma stack_assign_ok:
  assumes e: "env_ok e L"
  shows "ok_after (exec_op (Stack_Assign s t) e) (L + lost (Stack_Assign s t) e)"
proof (cases "chain_up_ref (stack_of t (stacks e)) (env_heap e)")
  case (Inl x)
  then show ?thesis using chain_delivers[OF e, of t] chain_up_ref_Inl[OF Inl]
    by (auto simp: stack_assign_def effect_def ok_after_def)
next
  case (Inr h)
  then have h: "balanced h (owns_all Cert (stack_of t (stacks e)) + (owners e + L))"
    using chain_delivers[OF e, of t] by simp
  have eq: "owns_all Cert (stack_of t (stacks e)) + (owners e + L)
      = owners (e\<lparr>env_heap := h, stacks := assign s (stack_of t (stacks e)) (stacks e)\<rparr>)
        + (L + owns_all Cert (stack_of s (stacks e)))"
    using owners_assign(3)[OF env_okD(4)[OF e], of s "stack_of t (stacks e)" h] by (simp add: ac_simps)
  show ?thesis using Inr h[unfolded eq] e by (simp add: stack_assign_def effect_def ok_after_def env_ok_def map_wf_assign)
qed

lemma pushes_ok:
  assumes e: "env_ok e L"
  shows "ok_after (exec_op (Stack_Push s w) e) L" and "ok_after (exec_op (Stack_Insert s i w) e) L"
    and "ok_after (exec_op (Stack_Push_Copy s w) e) L"
proof -
  note b = env_okD[OF e]
  let ?st = "stack_of s (stacks e)" and ?p = "pointer_of w (x509s e)"
  have moved: "owners (e\<lparr>env_heap := h, stacks := assign s st (stacks e), x509s := assign w None (x509s e)\<rparr>) = owners e"
    if "owns_all Cert st = owns Cert ?p + owns_all Cert ?st" for h st
    using that pointer_split[OF b(2), of Cert w, symmetric] stack_split[OF b(4), of Cert s, symmetric]
    by (simp add: owners_def map_owns_assign b ac_simps)
  show "ok_after (exec_op (Stack_Push s w) e) L"
    using moved[where st = "?st @ [?p]" and h = "env_heap e"] e
    by (simp add: stack_push_def effect_def ok_after_def env_ok_def map_wf_assign)
  have "owns_all Cert (take i ?st @ [?p] @ drop i ?st) = owns Cert ?p + (owns_all Cert (take i ?st) + owns_all Cert (drop i ?st))"
    by (simp add: ac_simps)
  also have "owns_all Cert (take i ?st) + owns_all Cert (drop i ?st) = owns_all Cert ?st"
    unfolding owns_simps(5)[symmetric] by simp
  finally show "ok_after (exec_op (Stack_Insert s i w) e) L"
    using moved[where st = "take i ?st @ [?p] @ drop i ?st" and h = "env_heap e"] e
    by (simp add: stack_insert_def effect_def ok_after_def env_ok_def map_wf_assign)
  obtain M where M: "owns_all Cert ?st + M = owners e + L" using stack_rest[OF e] by blast
  have "delivers (x509_copy ?p (env_heap e)) (\<lambda>(h, q). balanced h (owns Cert q + (owners e + L)) \<and> q \<noteq> None)"
    by (rule copy_delivers[OF b(1) owned_pointer[OF b(2)]])
  then have "delivers (stack_push_copy ?st ?p (env_heap e)) (\<lambda>(h, st). balanced h (owns_all Cert st + M))"
    unfolding stack_push_copy_def
    by (rule delivers_bind2)
      (auto simp: stack_push_def x509_free_def M[symmetric, unfolded union_commute[of _ L]] ac_simps)
  then show "ok_after (exec_op (Stack_Push_Copy s w) e) L"
    unfolding exec_op.simps by (rule set_stack[OF e _ M])
qed

text \<open>Revocation lists.\<close>

lemma crl_constructors_ok:
  assumes e: "env_ok e L" and v: "map_find v (crls e) = None"
  shows "ok_after (exec_op (Crl_Decode v d) e) L" and "ok_after (exec_op (Crl_Copy v w) e) L"
proof -
  note b = env_okD[OF e]
  have M: "owns Crl (pointer_of v (crls e)) + (owners e + L) = owners e + L"
    by (simp add: pointer_of_absent[OF v])
  show "ok_after (exec_op (Crl_Decode v d) e) L"
    unfolding exec_op.simps by (rule set_crl[OF e crl_decode_delivers[OF b(1)] M])
  show "ok_after (exec_op (Crl_Copy v w) e) L"
    unfolding exec_op.simps by (rule set_crl[OF e crl_copy_delivers[OF b(1) owned_crl[OF b(5)]] M])
qed

lemma crl_assign_ok:
  assumes e: "env_ok e L"
  shows "ok_after (exec_op (Crl_Assign v w) e) L"
proof -
  note b = env_okD[OF e]
  obtain M where M: "owns Crl (pointer_of v (crls e)) + M = owners e + L" using crl_rest[OF e] by blast
  have "delivers (crl_assign (pointer_of v (crls e)) (pointer_of w (crls e)) (env_heap e))
      (\<lambda>(h, p). balanced h (owns Crl p + M))"
    unfolding crl_assign_def by (rule assign_delivers) (simp_all only: M b owned_crl simp_thms)
  then show ?thesis unfolding exec_op.simps by (rule set_crl[OF e _ M])
qed

lemma crl_move_assign_ok:
  assumes e: "env_ok e L" and vw: "v \<noteq> w"
  shows "ok_after (exec_op (Crl_Move_Assign v w) e) L"
proof -
  note b = env_okD[OF e]
  obtain M where M: "owns Crl (pointer_of v (crls e)) + M = owners e + L" using crl_rest[OF e] by blast
  have d: "delivers (crl_free (pointer_of v (crls e)) (env_heap e)) (\<lambda>h. balanced h M)"
    by (rule crl_free_delivers) (simp add: M b(1))
  let ?e = "\<lambda>h. e\<lparr>env_heap := h, crls := assign v (pointer_of w (crls e)) (assign w None (crls e))\<rparr>"
  have o: "owners (?e h) + L = M" for h
  proof -
    have "owners (?e h) + owns Crl (pointer_of v (crls e)) = owners e"
      using map_owns_assign2[OF b(5) vw, of Crl "pointer_of w (crls e)" None]
      by (simp add: owners_def ac_simps)
    then have "owners (?e h) + owns Crl (pointer_of v (crls e)) = {#} + owners e" by simp
    from exchange[OF this M] show ?thesis by simp
  qed
  have "delivers (crl_move_assign (pointer_of v (crls e)) (pointer_of w (crls e)) (env_heap e))
      (\<lambda>(h, p, q). balanced h M \<and> p = pointer_of w (crls e) \<and> q = None)"
    unfolding crl_move_assign_def by (rule delivers_bind[OF d]) simp
  then show ?thesis unfolding exec_op.simps
    by (rule effect_ok) (use e o in \<open>auto simp: env_ok_def map_wf_assign\<close>)
qed

lemma crl_destroy_ok:
  assumes e: "env_ok e L"
  shows "ok_after (exec_op (Crl_Destroy v) e) L"
proof -
  note b = env_okD[OF e]
  have "balanced (env_heap e) (owns Crl (pointer_of v (crls e)) + (owners (e\<lparr>crls := erase v (crls e)\<rparr>) + L))"
    using b(1) pointer_split[OF b(5), of Crl v, symmetric] by (simp add: owners_def ac_simps)
  from crl_free_delivers[OF this] show ?thesis
    unfolding exec_op.simps by (rule effect_ok) (use e in \<open>auto simp: env_ok_def owners_def map_wf_erase\<close>)
qed

text \<open>Any operation of a program, from any state that is accounted for.\<close>

lemma op_ok:
  assumes e: "env_ok e L" and d: "declared op e"
  shows "ok_after (exec_op op e) (L + lost op e)"
proof (cases op)
  case (X509_Move v w)
  then have "v \<noteq> w" using d by auto
  then show ?thesis using moves_ok(1)[OF e] d X509_Move by simp
next
  case (Stack_Of_Text s infos)
  then show ?thesis using stack_constructors_ok(3)[OF e] d by simp
next
  case (Stack_Assign s t)
  then show ?thesis using stack_assign_ok[OF e] by simp
next
  case (Get_Pubkey k w)
  then show ?thesis using get_pubkey_ok[OF e] d by simp
qed (use e d in \<open>simp_all del: exec_op.simps add: x509_constructors_ok assignments_ok moves_ok(2) destructors_ok
  pkey_constructors_ok pkey_move_ok stack_constructors_ok(1,2) pushes_ok
  crl_constructors_ok crl_assign_ok crl_move_assign_ok crl_destroy_ok\<close>)

lemma ssl_run_ok: "ssl_run e L \<Longrightarrow> env_ok e L"
proof (induction rule: ssl_run.induct)
  case start
  show ?case
    by (simp add: empty_env_def env_ok_def owners_def balanced_def heap_wf_def fresh_ok_def held_def map_wf_def)
next
  case (operate e L op e' r)
  then show ?case using op_ok[OF operate.IH operate.hyps(2)] by (simp add: ok_after_def)
qed

end
