(* ===== verification/SslValues.thy ===== *)
theory SslValues
  imports OwnershipRuns
begin

text \<open>
  The wrappers of \<open>openssl.hpp\<close> around objects that the library copies instead of counting references:
  strings, times, names, general names, extensions, revocations.  An object has parts, such as the issuer
  name of a certificate, which are freed with it; a wrapper owns an object, or it borrows one
  (\<open>make_unique_nodelete\<close>).  A stack owns its elements.
\<close>

section \<open>Objects and their parts\<close>

datatype place = Whole nat | Inside nat

record value_heap =
  live :: "nat list"
  parts_freed :: "nat list"
  next_value :: nat

definition place_live :: "value_heap \<Rightarrow> place \<Rightarrow> bool" where
  "place_live h p = (case p of Whole n \<Rightarrow> n \<in> set (live h)
     | Inside n \<Rightarrow> n \<in> set (live h) \<and> n \<notin> set (parts_freed h))"

definition new_value :: "value_heap \<Rightarrow> value_heap \<times> place" where
  "new_value h = (h\<lparr>live := next_value h # live h, next_value := Suc (next_value h)\<rparr>, Whole (next_value h))"

text \<open>Freeing an object frees its part too, unless somebody else has done so.\<close>

definition value_free :: "place option \<Rightarrow> value_heap \<Rightarrow> value_heap result" where
  "value_free p h = (case p of
       None \<Rightarrow> Inr h
     | Some (Whole n) \<Rightarrow> throw_if (n \<notin> set (live h) \<or> n \<in> set (parts_freed h)) freed_access
         (Inr (h\<lparr>live := remove1 n (live h)\<rparr>))
     | Some (Inside n) \<Rightarrow> throw_if (\<not> place_live h (Inside n)) freed_access
         (Inr (h\<lparr>parts_freed := n # parts_freed h\<rparr>)))"

text \<open>\<open>ASN1_STRING_dup\<close>, \<open>X509_NAME_dup\<close> and the like: null for null, otherwise a new object.\<close>

definition value_dup :: "place option \<Rightarrow> value_heap \<Rightarrow> (value_heap \<times> place option) result" where
  "value_dup p h = (case p of
       None \<Rightarrow> Inr (h, None)
     | Some q \<Rightarrow> throw_if (\<not> place_live h q) freed_access (let (h, n) = new_value h in Inr (h, Some n)))"

section \<open>Wrappers\<close>

text \<open>A wrapper of one object, with a deleter that frees or one that does nothing; and a stack.\<close>

datatype value_var = V_Object "place option" bool | V_Stack "place option list"

text \<open>The copy constructors, and those that take a pointer by reference, copy the object.\<close>

definition value_copy :: "place option \<Rightarrow> value_heap \<Rightarrow> (value_heap \<times> value_var) result" where
  "value_copy x h = andthen (value_dup x h) (\<lambda>(h, d).
     throw_if (d = None) openssl_error (Inr (h, V_Object d True)))"

text \<open>The inherited constructor for a temporary pointer takes it over.\<close>

definition value_take :: "place option \<Rightarrow> value_var result" where
  "value_take x = throw_if (x = None) openssl_error (Inr (V_Object x True))"

text \<open>The part of an object that a getter of the library returns, which reads the object.\<close>

definition part_of :: "place option \<Rightarrow> value_heap \<Rightarrow> place option result" where
  "part_of p h = (case p of None \<Rightarrow> Inl null_deref
     | Some q \<Rightarrow> throw_if (\<not> place_live h q) freed_access
         (Inr (Some (Inside (case q of Whole n \<Rightarrow> n | Inside n \<Rightarrow> n)))))"

definition get_subject_name :: "place option \<Rightarrow> value_heap \<Rightarrow> value_var result" where
  "get_subject_name x h = andthen (part_of x h) (\<lambda>p. Inr (V_Object p False))"

text \<open>\<open>UqX509_NAME(X509_get_issuer_name(*this))\<close>: the pointer is a temporary.\<close>

definition get_issuer_name :: "place option \<Rightarrow> value_heap \<Rightarrow> value_var result" where
  "get_issuer_name x h = andthen (part_of x h) value_take"

text \<open>\<open>sk_pop_free\<close>, which skips null elements.\<close>

fun free_all :: "place option list \<Rightarrow> value_heap \<Rightarrow> value_heap result" where
  "free_all [] h = Inr h"
| "free_all (p # ps) h = andthen (value_free p h) (free_all ps)"

fun value_destroy :: "value_var \<Rightarrow> value_heap \<Rightarrow> value_heap result" where
  "value_destroy (V_Object p owning) h = (if owning then value_free p h else Inr h)"
| "value_destroy (V_Stack ps) h = free_all ps h"

text \<open>
  \<open>UqStackOf(const UqStackOf&)\<close> and its assignment, for the stacks whose \<open>_sk_dup\<close> is the shallow copy of
  the library (all but that of certificates); the assignment frees the old stack without its elements.
\<close>

definition value_stack_dup :: "place option list \<Rightarrow> value_var" where
  "value_stack_dup other = V_Stack other"

definition value_stack_at :: "place option list \<Rightarrow> nat \<Rightarrow> value_heap \<Rightarrow> (value_heap \<times> value_var) result" where
  "value_stack_at st i h = andthen (stack_at st i) (\<lambda>v.
     throw_if (v = None) (Runtime_Error ''no such value'') (value_copy v h))"

text \<open>\<open>push(T&&)\<close> pushes the pointer and releases the wrapper, whatever its deleter is.\<close>

definition value_push :: "place option list \<Rightarrow> place option \<Rightarrow> value_var \<times> value_var" where
  "value_push st x = (V_Stack (st @ [x]), V_Object None True)"

section \<open>Programs\<close>

record value_env =
  values_of :: value_heap
  vars :: "(nat, value_var) std_map"

datatype value_op =
    Value_New nat
  | Value_Copy nat nat
  | Value_Move nat nat
  | Subject_Name nat nat
  | Issuer_Name nat nat
  | Value_Stack_New nat
  | Value_Stack_Copy nat nat
  | Value_Stack_Assign nat nat
  | Value_Stack_At nat nat nat
  | Value_Push nat nat
  | Value_Destroy nat

definition var_of :: "value_env \<Rightarrow> nat \<Rightarrow> value_var" where
  "var_of e v = (case map_find v (vars e) of None \<Rightarrow> V_Stack [] | Some x \<Rightarrow> x)"

fun pointer :: "value_var \<Rightarrow> place option" where
  "pointer (V_Object p owning) = p"
| "pointer (V_Stack ps) = None"

fun elements :: "value_var \<Rightarrow> place option list" where
  "elements (V_Stack ps) = ps"
| "elements (V_Object p owning) = []"

fun is_owning :: "value_var \<Rightarrow> bool" where
  "is_owning (V_Object p owning) = owning"
| "is_owning (V_Stack ps) = True"

definition set_var :: "value_env \<Rightarrow> nat \<Rightarrow> (value_heap \<times> value_var) result \<Rightarrow> value_env result" where
  "set_var e v r = andthen r (\<lambda>(h, x). Inr (e\<lparr>values_of := h, vars := assign v x (vars e)\<rparr>))"

fun value_exec :: "value_op \<Rightarrow> value_env \<Rightarrow> value_env result" where
  "value_exec (Value_New v) e = (let (h, p) = new_value (values_of e) in set_var e v (Inr (h, V_Object (Some p) True)))"
| "value_exec (Value_Copy v w) e = set_var e v (value_copy (pointer (var_of e w)) (values_of e))"
| "value_exec (Value_Move v w) e = Inr (e\<lparr>vars := assign v (var_of e w) (assign w (V_Object None True) (vars e))\<rparr>)"
| "value_exec (Subject_Name v w) e =
     set_var e v (andthen (get_subject_name (pointer (var_of e w)) (values_of e)) (\<lambda>x. Inr (values_of e, x)))"
| "value_exec (Issuer_Name v w) e =
     set_var e v (andthen (get_issuer_name (pointer (var_of e w)) (values_of e)) (\<lambda>x. Inr (values_of e, x)))"
| "value_exec (Value_Stack_New s) e = set_var e s (Inr (values_of e, V_Stack []))"
| "value_exec (Value_Stack_Copy s t) e = set_var e s (Inr (values_of e, value_stack_dup (elements (var_of e t))))"
| "value_exec (Value_Stack_Assign s t) e = set_var e s (Inr (values_of e, value_stack_dup (elements (var_of e t))))"
| "value_exec (Value_Stack_At v s i) e = set_var e v (value_stack_at (elements (var_of e s)) i (values_of e))"
| "value_exec (Value_Push s w) e =
     (let (st, x) = value_push (elements (var_of e s)) (pointer (var_of e w))
      in Inr (e\<lparr>vars := assign s st (assign w x (vars e))\<rparr>))"
| "value_exec (Value_Destroy v) e = andthen (value_destroy (var_of e v) (values_of e))
     (\<lambda>h. Inr (e\<lparr>values_of := h, vars := erase v (vars e)\<rparr>))"

section \<open>Which programs are safe\<close>

text \<open>What the compiler guarantees: a new variable, and operands of the right type.\<close>

fun is_object :: "value_var option \<Rightarrow> bool" where
  "is_object (Some (V_Object p owning)) = True"
| "is_object _ = False"

fun is_stack :: "value_var option \<Rightarrow> bool" where
  "is_stack (Some (V_Stack ps)) = True"
| "is_stack _ = False"

fun value_declared :: "value_op \<Rightarrow> value_env \<Rightarrow> bool" where
  "value_declared (Value_New v) e = (map_find v (vars e) = None)"
| "value_declared (Value_Copy v w) e = (map_find v (vars e) = None \<and> is_object (map_find w (vars e)))"
| "value_declared (Value_Move v w) e = (map_find v (vars e) = None \<and> is_object (map_find w (vars e)))"
| "value_declared (Subject_Name v w) e = (map_find v (vars e) = None \<and> is_object (map_find w (vars e)))"
| "value_declared (Issuer_Name v w) e = (map_find v (vars e) = None \<and> is_object (map_find w (vars e)))"
| "value_declared (Value_Stack_New s) e = (map_find s (vars e) = None)"
| "value_declared (Value_Stack_Copy s t) e = (map_find s (vars e) = None \<and> is_stack (map_find t (vars e)))"
| "value_declared (Value_Stack_Assign s t) e = (is_stack (map_find s (vars e)) \<and> is_stack (map_find t (vars e)))"
| "value_declared (Value_Stack_At v s i) e = (map_find v (vars e) = None \<and> is_stack (map_find s (vars e)))"
| "value_declared (Value_Push s w) e = (is_stack (map_find s (vars e)) \<and> is_object (map_find w (vars e)))"
| "value_declared (Value_Destroy v) e = (map_find v (vars e) \<noteq> None)"

text \<open>
  What the wrappers leave to their user: not to take an issuer name, not to copy a stack of copied
  objects, and not to read through or push a wrapper that only borrows.
\<close>

fun value_safe :: "value_op \<Rightarrow> value_env \<Rightarrow> bool" where
  "value_safe (Issuer_Name v w) e = False"
| "value_safe (Value_Stack_Copy s t) e = False"
| "value_safe (Value_Stack_Assign s t) e = False"
| "value_safe (Value_Copy v w) e = is_owning (var_of e w)"
| "value_safe (Subject_Name v w) e = is_owning (var_of e w)"
| "value_safe (Value_Push s w) e = is_owning (var_of e w)"
| "value_safe _ e = True"

definition empty_value_env :: value_env where
  "empty_value_env = \<lparr>values_of = \<lparr>live = [], parts_freed = [], next_value = 0\<rparr>, vars = []\<rparr>"

inductive value_run :: "value_env \<Rightarrow> bool" where
  value_start: "value_run empty_value_env"
| value_step: "value_run e \<Longrightarrow> value_declared op e \<Longrightarrow> value_safe op e \<Longrightarrow> value_exec op e = Inr e' \<Longrightarrow> value_run e'"

section \<open>Who owns an object\<close>

definition place_owner :: "place option \<Rightarrow> place multiset" where
  "place_owner p = (case p of None \<Rightarrow> {#} | Some q \<Rightarrow> {#q#})"

fun var_owns :: "value_var \<Rightarrow> place multiset" where
  "var_owns (V_Object p owning) = (if owning then place_owner p else {#})"
| "var_owns (V_Stack ps) = sum_list (map place_owner ps)"

definition value_owners :: "value_env \<Rightarrow> place multiset" where
  "value_owners e = map_owns var_owns (vars e)"

text \<open>The live objects are exactly those with an owner, which is one.\<close>

definition heap_owned :: "value_heap \<Rightarrow> place multiset \<Rightarrow> bool" where
  "heap_owned h M \<longleftrightarrow> distinct (live h) \<and> (\<forall>n \<in> set (live h). n < next_value h) \<and> parts_freed h = []
     \<and> image_mset Whole (mset (live h)) = M"

definition value_ok :: "value_env \<Rightarrow> bool" where
  "value_ok e \<longleftrightarrow> map_wf (vars e) \<and> heap_owned (values_of e) (value_owners e)"

lemma place_owner_simps [simp]: "place_owner None = {#}" "place_owner (Some q) = {#q#}"
  by (simp_all add: place_owner_def)

lemma heap_owned_live: "heap_owned h M \<Longrightarrow> q \<in># M \<Longrightarrow> place_live h q \<and> (\<exists>n. q = Whole n)"
  by (auto simp: heap_owned_def place_live_def)

lemma new_value_owned:
  "heap_owned h M \<Longrightarrow> new_value h = (h', q) \<Longrightarrow> heap_owned h' (add_mset q M)"
  by (auto simp: heap_owned_def new_value_def less_SucI)

lemma value_free_owned:
  assumes "heap_owned h (place_owner p + M)"
  shows "\<exists>h'. value_free p h = Inr h' \<and> heap_owned h' M"
proof (cases p)
  case None
  with assms show ?thesis by (simp add: value_free_def)
next
  case (Some q)
  with assms have "q \<in># image_mset Whole (mset (live h))" by (simp add: heap_owned_def)
  then obtain n where n: "q = Whole n" "n \<in> set (live h)" by auto
  then have "image_mset Whole (mset (remove1 n (live h))) = image_mset Whole (mset (live h)) - {#q#}"
    by (simp add: image_mset_Diff)
  with assms Some n show ?thesis
    by (auto simp: value_free_def heap_owned_def distinct_remove1 dest: notin_set_remove1)
qed

lemma free_all_owned:
  "heap_owned h (sum_list (map place_owner ps) + M) \<Longrightarrow> \<exists>h'. free_all ps h = Inr h' \<and> heap_owned h' M"
proof (induction ps arbitrary: h)
  case (Cons p ps)
  then have "heap_owned h (place_owner p + (sum_list (map place_owner ps) + M))" by (simp add: add.assoc)
  from value_free_owned[OF this] Cons.IH show ?case by auto
qed simp

lemma value_destroy_owned:
  "heap_owned h (var_owns x + M) \<Longrightarrow> \<exists>h'. value_destroy x h = Inr h' \<and> heap_owned h' M"
  by (cases x) (auto intro: value_free_owned free_all_owned)

lemma value_copy_owned:
  assumes "heap_owned h M" and "\<And>q. p = Some q \<Longrightarrow> q \<in># M"
  shows "delivers (value_copy p h) (\<lambda>(h', x). heap_owned h' (var_owns x + M))"
proof (cases p)
  case None
  then show ?thesis by (simp add: value_copy_def value_dup_def)
next
  case (Some q)
  obtain h' n where n: "new_value h = (h', n)" by fastforce
  have "place_live h q" using heap_owned_live[OF assms(1) assms(2)[OF Some]] by simp
  with Some n new_value_owned[OF assms(1) n] show ?thesis by (simp add: value_copy_def value_dup_def)
qed

section \<open>Every safe operation keeps the account\<close>

lemma owners_var: "map_wf (vars e) \<Longrightarrow> value_owners e = var_owns (var_of e v) + map_owns var_owns (erase v (vars e))"
  unfolding value_owners_def using map_owns_erase[of "vars e" var_owns v]
  by (simp add: var_of_def split: option.splits)

lemma owners_set:
  "map_wf (vars e) \<Longrightarrow> value_owners (e\<lparr>values_of := h, vars := assign v x (vars e)\<rparr>) =
     var_owns x + map_owns var_owns (erase v (vars e))"
  by (simp add: value_owners_def map_owns_assign)

lemma var_of_new: "map_find v (vars e) = None \<Longrightarrow> var_owns (var_of e v) = {#}"
  by (simp add: var_of_def)

lemma in_owners:
  "value_ok e \<Longrightarrow> q \<in># var_owns (var_of e w) \<Longrightarrow> q \<in># value_owners e"
  using owners_var[of e w] by (auto simp: value_ok_def)

lemma owning_pointer: "is_owning x \<Longrightarrow> pointer x = Some q \<Longrightarrow> q \<in># var_owns x"
  by (cases x) auto

lemma element_owned: "Some q \<in> set (elements x) \<Longrightarrow> q \<in># var_owns x"
proof (cases x)
  case (V_Stack ps)
  have "Some q \<in> set ps \<Longrightarrow> q \<in># sum_list (map place_owner ps)" by (induction ps) auto
  then show "Some q \<in> set (elements x) \<Longrightarrow> q \<in># var_owns x" using V_Stack by simp
qed simp

definition value_fine :: "value_env result \<Rightarrow> bool" where
  "value_fine r \<longleftrightarrow> delivers r value_ok"

lemma set_new_var:
  assumes "value_ok e" and "map_find v (vars e) = None"
    and "delivers r (\<lambda>(h, x). heap_owned h (var_owns x + value_owners e))"
  shows "value_fine (set_var e v r)"
proof -
  have w: "map_wf (vars e)" using assms(1) by (simp add: value_ok_def)
  have o: "value_owners e = map_owns var_owns (erase v (vars e))"
    using owners_var[OF w, of v] var_of_new[OF assms(2)] by simp
  show ?thesis unfolding value_fine_def set_var_def
    by (rule delivers_bind2[OF assms(3)]) (simp add: value_ok_def owners_set[OF w] map_wf_assign[OF w] o[symmetric])
qed

lemma value_op_fine:
  assumes e: "value_ok e" and d: "value_declared op e" and s: "value_safe op e"
  shows "value_fine (value_exec op e)"
proof -
  have w: "map_wf (vars e)" and h: "heap_owned (values_of e) (value_owners e)"
    using e by (simp_all add: value_ok_def)
  show ?thesis
  proof (cases op)
    case (Value_New v)
    obtain h' q where n: "new_value (values_of e) = (h', q)" by fastforce
    have "value_fine (set_var e v (Inr (h', V_Object (Some q) True)))"
      using d new_value_owned[OF h n] Value_New by (intro set_new_var[OF e]) simp_all
    with n show ?thesis by (simp add: Value_New)
  next
    case (Value_Copy v u)
    have "delivers (value_copy (pointer (var_of e u)) (values_of e))
        (\<lambda>(h', x). heap_owned h' (var_owns x + value_owners e))"
      using s Value_Copy owning_pointer in_owners[OF e] by (intro value_copy_owned[OF h]) auto
    with d show ?thesis by (simp add: Value_Copy set_new_var[OF e])
  next
    case (Value_Move v u)
    then have vu: "v \<noteq> u" and new: "map_find v (vars e) = None" using d by (auto elim!: is_object.elims)
    have wu: "map_wf (assign u (V_Object None True) (vars e))" by (rule map_wf_assign[OF w])
    have "value_owners (e\<lparr>vars := assign v (var_of e u) (assign u (V_Object None True) (vars e))\<rparr>)
        = var_owns (var_of e u) + map_owns var_owns (erase v (assign u (V_Object None True) (vars e)))"
      by (simp add: value_owners_def map_owns_assign[OF wu])
    also have "\<dots> = var_owns (var_of e u) + map_owns var_owns (erase u (erase v (vars e)))"
      using vu by (simp add: erase_assign map_owns_assign[OF map_wf_erase[OF w]])
    also have "erase v (vars e) = vars e"
      using new by (simp add: erase_not_in map_find_keys)
    finally show ?thesis
      using h owners_var[OF w, of u] map_wf_assign[OF wu]
      by (simp add: Value_Move value_fine_def value_ok_def)
  next
    case (Subject_Name v u)
    have "delivers (andthen (get_subject_name (pointer (var_of e u)) (values_of e)) (\<lambda>x. Inr (values_of e, x)))
        (\<lambda>(h', x). heap_owned h' (var_owns x + value_owners e))"
    proof (cases "pointer (var_of e u)")
      case None
      then show ?thesis by (simp add: get_subject_name_def part_of_def)
    next
      case (Some q)
      have "q \<in># value_owners e"
        by (rule in_owners[OF e, of q u], rule owning_pointer) (use s Subject_Name Some in simp_all)
      with Some heap_owned_live[OF h] h show ?thesis by (simp add: get_subject_name_def part_of_def)
    qed
    with d show ?thesis by (simp add: Subject_Name set_new_var[OF e])
  next
    case (Value_Stack_New t)
    with d h show ?thesis by (simp add: set_new_var[OF e])
  next
    case (Value_Stack_At v t i)
    have "delivers (value_stack_at (elements (var_of e t)) i (values_of e))
        (\<lambda>(h', x). heap_owned h' (var_owns x + value_owners e))"
      unfolding value_stack_at_def
    proof (rule delivers_bind)
      show "delivers (stack_at (elements (var_of e t)) i) (\<lambda>p. p \<in> set (elements (var_of e t)))"
        by (auto simp: stack_at_def throw_if_def)
      fix p assume "p \<in> set (elements (var_of e t))"
      then show "delivers (throw_if (p = None) (Runtime_Error ''no such value'') (value_copy p (values_of e)))
          (\<lambda>(h', x). heap_owned h' (var_owns x + value_owners e))"
        using value_copy_owned[OF h, of p] element_owned in_owners[OF e] by auto
    qed
    with d show ?thesis by (simp add: Value_Stack_At set_new_var[OF e])
  next
    case (Value_Push t u)
    then have st: "is_stack (map_find t (vars e))" and ob: "is_object (map_find u (vars e))"
      and own: "is_owning (var_of e u)" using d s by simp_all
    from st obtain ps where ps: "map_find t (vars e) = Some (V_Stack ps)" by (auto elim!: is_stack.elims)
    from ob own obtain p where p: "map_find u (vars e) = Some (V_Object p True)"
      by (auto elim!: is_object.elims simp: var_of_def)
    then have tu: "t \<noteq> u" using ps by auto
    have wu: "map_wf (assign u (V_Object None True) (vars e))" by (rule map_wf_assign[OF w])
    have "value_owners (e\<lparr>vars := assign t (V_Stack (ps @ [p])) (assign u (V_Object None True) (vars e))\<rparr>)
        = sum_list (map place_owner ps) + place_owner p + map_owns var_owns (erase u (erase t (vars e)))"
      using tu by (simp add: value_owners_def map_owns_assign[OF wu] erase_assign map_owns_assign[OF map_wf_erase[OF w]])
    also have "\<dots> = value_owners e"
    proof -
      have "map_owns var_owns (erase t (vars e)) = place_owner p + map_owns var_owns (erase u (erase t (vars e)))"
        using map_owns_erase[OF map_wf_erase[OF w], of var_owns t u] p tu by (simp add: map_find_erase)
      then show ?thesis using owners_var[OF w, of t] ps by (simp add: var_of_def add.assoc)
    qed
    finally show ?thesis
      using h map_wf_assign[OF wu] ps p
      by (simp add: Value_Push value_fine_def value_ok_def value_push_def var_of_def)
  next
    case (Value_Destroy v)
    have "heap_owned (values_of e) (var_owns (var_of e v) + map_owns var_owns (erase v (vars e)))"
      using h owners_var[OF w, of v] by simp
    from value_destroy_owned[OF this] obtain h' where
      "value_destroy (var_of e v) (values_of e) = Inr h'" "heap_owned h' (map_owns var_owns (erase v (vars e)))"
      by blast
    then show ?thesis
      by (simp add: Value_Destroy value_fine_def value_ok_def value_owners_def map_wf_erase[OF w])
  qed (use s in simp_all)
qed

lemma value_run_ok: "value_run e \<Longrightarrow> value_ok e"
proof (induction rule: value_run.induct)
  case value_start
  then show ?case by (simp add: value_ok_def empty_value_env_def heap_owned_def value_owners_def map_wf_def keys_def)
next
  case (value_step e op e')
  with value_op_fine[of e op] show ?case by (simp add: value_fine_def)
qed

end
