(* ===== verification/LoadCertificates.thy ===== *)
theory LoadCertificates
  imports Crypto
begin

text \<open>
  \<open>load_certificates\<close> of \<open>crypto.h\<close>.  It compares wrappers as pointers: a certificate is paired with its
  number in the order of construction, 0 being the empty certificate that \<open>UqX509 leaf\<close> makes, whose
  pointer is not null.  Copying a wrapper into \<open>leaf\<close> and moving it into the stack keep the pointer.
\<close>

fun load_loop ::
  "'h openssl \<Rightarrow> string list \<Rightarrow> nat \<Rightarrow> nat option \<Rightarrow> (nat \<times> 'h) list \<Rightarrow> (nat option \<times> (nat \<times> 'h) list) result" where
  "load_loop ssl [] n leaf r = Inr (leaf, r)"
| "load_loop ssl (cert # certs) n leaf r =
     andthen (x509_of ssl (bytes_of cert) True) (\<lambda>x.
       if \<not> is_ca ssl x
       then throw_if (leaf \<noteq> None) (Runtime_Error ''multiple leaves in certificate set'')
              (load_loop ssl certs (Suc n) (Some n) (r @ [(n, x)]))
       else load_loop ssl certs (Suc n) leaf (r @ [(n, x)]))"

definition appears_as_ca :: "'h openssl \<Rightarrow> (nat \<times> 'h) list \<Rightarrow> nat \<Rightarrow> bytes \<Rightarrow> bool" where
  "appears_as_ca ssl r ii subj_key_id =
     list_ex (\<lambda>ji. ji \<noteq> ii \<and> x509_authority_key_id ssl (snd (r ! ji)) = Some subj_key_id) [0..<length r]"

fun leaf_search :: "'h openssl \<Rightarrow> (nat \<times> 'h) list \<Rightarrow> nat list \<Rightarrow> nat option \<Rightarrow> nat option result" where
  "leaf_search ssl r [] leaf = Inr leaf"
| "leaf_search ssl r (ii # is) leaf =
     andthen (subject_key_id ssl (snd (r ! ii))) (\<lambda>k.
       if \<not> appears_as_ca ssl r ii k
       then throw_if (leaf \<noteq> None) (Runtime_Error ''multiple leaves in certificate set'')
              (leaf_search ssl r is (Some (fst (r ! ii))))
       else leaf_search ssl r is leaf)"

definition load_certificates :: "'h openssl \<Rightarrow> string list \<Rightarrow> (nat \<times> 'h) list result" where
  "load_certificates ssl certs =
     andthen (load_loop ssl certs 1 (Some 0) []) (\<lambda>(leaf, r).
     andthen (if leaf = None then leaf_search ssl r [0..<length r] leaf else Inr leaf) (\<lambda>leaf.
     throw_if (leaf = None) (Runtime_Error ''no leaf certificate found'')
    (andthen (stack_at r 0) (\<lambda>front.
     throw_if (Some (fst front) \<noteq> leaf)
       (Runtime_Error ''leaf certificate not at the front of the certificate chain'') (Inr r)))))"

lemma load_loop_leaf:
  "load_loop ssl certs n (Some 0) r = Inr (leaf, s) \<Longrightarrow> 0 < n \<Longrightarrow> \<forall>p\<in>set r. fst p \<noteq> 0
     \<Longrightarrow> leaf = Some 0 \<and> (\<forall>p\<in>set s. fst p \<noteq> 0)"
proof (induction certs arbitrary: n r)
  case (Cons cert certs)
  from Cons.prems(1) obtain x where "load_loop ssl certs (Suc n) (Some 0) (r @ [(n, x)]) = Inr (leaf, s)"
    by (auto simp: andthen_Inr split: if_splits)
  from Cons.IH[OF this] Cons.prems(2,3) show ?case by auto
qed auto

text \<open>The initial \<open>leaf\<close> is not null, so that no input is accepted.\<close>

theorem load_certificates_never_returns: "load_certificates ssl certs \<noteq> Inr r"
proof
  assume "load_certificates ssl certs = Inr r"
  then obtain leaf s x where l: "load_loop ssl certs 1 (Some 0) [] = Inr (leaf, s)"
    and f: "leaf \<noteq> None \<Longrightarrow> stack_at s 0 = Inr x \<and> Some (fst x) = leaf"
    by (auto simp: load_certificates_def andthen_Inr throw_if_Inr split: if_splits)
  from load_loop_leaf[OF l] have "leaf = Some 0" "\<forall>p\<in>set s. fst p \<noteq> 0" by auto
  moreover from this f have "s ! 0 \<in> set s" "fst (s ! 0) = 0"
    by (auto simp: stack_at_Inr)
  ultimately show False by auto
qed

end
