(* ===== verification/OwnershipProps.thy ===== *)
theory OwnershipProps
  imports SslValues LoadCertificates
begin

text \<open>The properties of the wrappers of OpenSSL objects.\<close>

section \<open>A program\<close>

fun run_ops :: "ssl_op list \<Rightarrow> ssl_env \<Rightarrow> obj multiset \<Rightarrow> (ssl_env \<times> obj multiset) option" where
  "run_ops [] e L = Some (e, L)"
| "run_ops (op # ops) e L =
     (let (e', r) = exec_op op e
      in if declared op e \<and> \<not> undefined_behaviour r then run_ops ops e' (L + lost op e) else None)"

text \<open>A chain is read, its certificate and the key of that are taken; then everything is destroyed.\<close>

definition sample_ops :: "ssl_op list" where
  "sample_ops = [Stack_Of_Text 0 [Some True], Stack_Element 0 0 0, Pkey_Of_Cert 0 0]"

definition sample_end :: "ssl_op list" where
  "sample_end = [Stack_Destroy 0, X509_Destroy 0, Pkey_Destroy 0]"

definition sample_env :: ssl_env where
  "sample_env = \<lparr>env_heap = \<lparr>refs = (\<lambda>_. 0)(Cert 0 := 2, Key 0 := 2), holds_key = [0], next_obj = 1\<rparr>,
     x509s = [(0, Some 0)], pkeys = [(0, Some 0)], stacks = [(0, [Some 0])], crls = []\<rparr>"

definition sample_end_env :: ssl_env where
  "sample_end_env = \<lparr>env_heap = \<lparr>refs = (\<lambda>_. 0)(Cert 0 := 0, Key 0 := 0), holds_key = [], next_obj = 1\<rparr>,
     x509s = [], pkeys = [], stacks = [], crls = []\<rparr>"

lemma run_ops_sound: "run_ops ops e L = Some (e', L') \<Longrightarrow> ssl_run e L \<Longrightarrow> ssl_run e' L'"
  by (induction ops arbitrary: e L) (auto simp: Let_def split: prod.splits if_splits intro: operate)

lemmas wrapper_defs = effect_def stack_of_text_def new_cert_def up_ref_def x509_free_def pkey_free_def drop_ref_def
  stack_element_def stack_at_def stack_of_def x509_of_pointer_def take_over_def pointer_of_def pkey_of_cert_def
  get_pubkey_def X509_get_pubkey_def

lemma sample_run: "ssl_run sample_env {#}"
  by (rule run_ops_sound[OF _ start, of sample_ops])
    (simp add: sample_ops_def sample_env_def empty_env_def wrapper_defs fun_upd_twist numeral_2_eq_2)

lemma sample_end_run: "ssl_run sample_end_env {#}"
  by (rule run_ops_sound[OF _ sample_run, of sample_end])
    (simp add: sample_end_def sample_end_env_def sample_env_def wrapper_defs fun_upd_twist)

text \<open>
  C28.  In every state a program over the wrappers can reach, an object has as many references as it has
  owners, counting the certificate that holds its key and the references lost so far; and no operation,
  constructor or destructor that the program may apply next touches an object that has been freed.
\<close>

theorem wrappers_account:
  assumes "ssl_run e L" and "declared op e"
  shows "refs (env_heap e) x = count (owners e + L + held (env_heap e)) x
     \<and> snd (exec_op op e) \<noteq> Inl freed_access"
  using ssl_run_ok[OF assms(1)] op_ok[OF ssl_run_ok[OF assms(1)] assms(2)]
  by (simp add: env_ok_def balanced_def ok_after_def)

theorem wrappers_account_witness:
  "owners sample_env = {#Cert 0, Cert 0, Key 0#} \<and> refs (env_heap sample_env) (Key 0) = 2
     \<and> snd (exec_op (Stack_Destroy 0) sample_env) \<noteq> Inl freed_access"
proof -
  have d: "declared (Stack_Destroy 0) sample_env" by (simp add: sample_env_def)
  have o: "owners sample_env = {#Cert 0, Cert 0, Key 0#}" by (simp add: owners_def sample_env_def)
  moreover have "held (env_heap sample_env) = {#Key 0#}" by (simp add: held_def sample_env_def)
  ultimately show ?thesis using wrappers_account[OF sample_run d, of "Key 0"] by simp
qed

text \<open>
  C29.  A program that has destroyed all its variables, and lost no reference on the way, has freed
  every object.
\<close>

theorem wrappers_free_everything:
  assumes "ssl_run e {#}" and "x509s e = []" and "pkeys e = []" and "stacks e = []"
    and "crls e = []"
  shows "refs (env_heap e) x = 0"
proof -
  have b: "balanced (env_heap e) {#}"
    using ssl_run_ok[OF assms(1)] assms(2-5) by (simp add: env_ok_def owners_def)
  then have "holds_key (env_heap e) = []"
    using balancedD(2,4)[OF b] by (cases "holds_key (env_heap e)") auto
  then show ?thesis using balancedD(4-6)[OF b] by (cases x) auto
qed

theorem wrappers_free_everything_witness:
  "next_obj (env_heap sample_end_env) = 1 \<and> refs (env_heap sample_end_env) (Key 0) = 0"
proof
  show "next_obj (env_heap sample_end_env) = 1" by (simp add: sample_end_env_def)
  show "refs (env_heap sample_end_env) (Key 0) = 0"
    by (rule wrappers_free_everything[OF sample_end_run]) (simp_all add: sample_end_env_def)
qed

text \<open>
  The second reference that \<open>get_pubkey\<close> takes is the one the constructor of \<open>UqEVP_PKEY\<close> from a
  certificate needs, since two wrappers own the same pointer while it runs.  A direct call keeps it for
  ever.
\<close>

theorem get_pubkey_takes_two:
  assumes "refs h (Cert c) \<noteq> 0" and "c \<in> set (holds_key h)" and "refs h (Key c) \<noteq> 0"
  shows "get_pubkey (Some c) h = Inr (h\<lparr>refs := (refs h)(Key c := refs h (Key c) + 2)\<rparr>, Some c)"
    and "pkey_of_cert (Some c) h = Inr (h\<lparr>refs := (refs h)(Key c := refs h (Key c) + 1)\<rparr>, Some c)"
proof -
  show g: "get_pubkey (Some c) h = Inr (h\<lparr>refs := (refs h)(Key c := refs h (Key c) + 2)\<rparr>, Some c)"
    using assms by (simp add: get_pubkey_def X509_get_pubkey_def up_ref_def take_over_def)
  show "pkey_of_cert (Some c) h = Inr (h\<lparr>refs := (refs h)(Key c := refs h (Key c) + 1)\<rparr>, Some c)"
    by (simp add: pkey_of_cert_def g take_over_def pkey_free_def drop_ref_def)
qed

section \<open>Objects that are copied\<close>

text \<open>A name is taken from a certificate, copied, and pushed on a stack.\<close>

definition sample_values :: value_env where
  "sample_values = \<lparr>values_of = \<lparr>live = [1, 0], parts_freed = [], next_value = 2\<rparr>,
     vars = [(0, V_Object (Some (Whole 0)) True), (1, V_Object (Some (Inside 0)) False),
             (2, V_Object (Some (Whole 1)) True)]\<rparr>"

lemma sample_values_run: "value_run sample_values"
proof -
  let ?e1 = "\<lparr>values_of = \<lparr>live = [0], parts_freed = [], next_value = 1\<rparr>,
     vars = [(0, V_Object (Some (Whole 0)) True)]\<rparr>"
  let ?e2 = "?e1\<lparr>vars := [(0, V_Object (Some (Whole 0)) True), (1, V_Object (Some (Inside 0)) False)]\<rparr>"
  have "value_run ?e1"
    by (rule value_step[OF value_start, of "Value_New 0"])
      (simp_all add: empty_value_env_def new_value_def set_var_def)
  then have "value_run ?e2"
    by (rule value_step[of _ "Subject_Name 1 0"])
      (simp_all add: var_of_def set_var_def get_subject_name_def part_of_def place_live_def)
  then show ?thesis
    by (rule value_step[of _ "Value_Copy 2 0"])
      (simp_all add: sample_values_def var_of_def set_var_def value_copy_def value_dup_def place_live_def new_value_def)
qed

text \<open>
  C30.  A program that does not take issuer names, copy stacks of copied objects, or read through or push
  wrappers that only borrow, keeps every object with exactly one owner while it lives and none
  afterwards, and no operation or destructor it applies touches a freed object.
\<close>

theorem values_have_one_owner:
  assumes "value_run e" and "value_declared op e" and "value_safe op e"
  shows "count (value_owners e) (Whole n) = (if n \<in> set (live (values_of e)) then 1 else 0)
     \<and> value_exec op e \<noteq> Inl freed_access"
proof -
  have ok: "value_ok e" by (rule value_run_ok[OF assms(1)])
  have "count (image_mset Whole (mset xs)) (Whole n) = count (mset xs) n" for xs
    by (induction xs) auto
  moreover have "value_owners e = image_mset Whole (mset (live (values_of e)))" "distinct (live (values_of e))"
    using ok by (simp_all add: value_ok_def heap_owned_def)
  ultimately have "count (value_owners e) (Whole n) = (if n \<in> set (live (values_of e)) then 1 else 0)"
    by (simp add: distinct_count_atmost_1)
  then show ?thesis using value_op_fine[OF ok assms(2,3)] by (auto simp: value_fine_def)
qed

theorem values_have_one_owner_witness:
  "count (value_owners sample_values) (Whole 1) = 1 \<and> value_exec (Value_Destroy 0) sample_values \<noteq> Inl freed_access"
  using values_have_one_owner[OF sample_values_run, of "Value_Destroy 0" 1] by (simp add: sample_values_def)

text \<open>
  A wrapper that \<open>get_issuer_name\<close> returns owns a part of the certificate: whichever of the two is
  destroyed first, the destructor of the other frees what has been freed.
\<close>

theorem issuer_name_freed_twice:
  assumes "value_run e" and "map_find w (vars e) = Some (V_Object (Some (Whole n)) True)"
    and "map_find v (vars e) = None"
  shows "\<exists>e1 e2 e3. value_exec (Issuer_Name v w) e = Inr e1
     \<and> value_exec (Value_Destroy v) e1 = Inr e2 \<and> value_exec (Value_Destroy w) e2 = Inl freed_access
     \<and> value_exec (Value_Destroy w) e1 = Inr e3 \<and> value_exec (Value_Destroy v) e3 = Inl freed_access"
proof -
  have ok: "value_ok e" by (rule value_run_ok[OF assms(1)])
  then have wf: "map_wf (vars e)" and h: "heap_owned (values_of e) (value_owners e)" by (simp_all add: value_ok_def)
  have vw: "v \<noteq> w" using assms(2,3) by auto
  have "Whole n \<in># value_owners e"
    by (rule in_owners[OF ok, of _ w]) (simp add: var_of_def assms(2))
  with heap_owned_live[OF h] h have l: "n \<in> set (live (values_of e))" and p: "parts_freed (values_of e) = []"
    and d: "distinct (live (values_of e))"
    by (fastforce simp: place_live_def heap_owned_def)+
  let ?e1 = "e\<lparr>vars := assign v (V_Object (Some (Inside n)) True) (vars e)\<rparr>"
  have e1: "value_exec (Issuer_Name v w) e = Inr ?e1"
    using l p by (simp add: set_var_def get_issuer_name_def part_of_def value_take_def place_live_def var_of_def assms(2))
  have x: "var_of ?e1 v = V_Object (Some (Inside n)) True" "var_of ?e1 w = V_Object (Some (Whole n)) True"
    using vw assms(2) by (simp_all add: var_of_def map_find_assign)
  let ?e2 = "?e1\<lparr>values_of := (values_of e)\<lparr>parts_freed := [n]\<rparr>, vars := erase v (vars ?e1)\<rparr>"
  let ?e3 = "?e1\<lparr>values_of := (values_of e)\<lparr>live := remove1 n (live (values_of e))\<rparr>, vars := erase w (vars ?e1)\<rparr>"
  have "value_exec (Value_Destroy v) ?e1 = Inr ?e2" "value_exec (Value_Destroy w) ?e1 = Inr ?e3"
    using l p x by (simp_all add: value_free_def place_live_def)
  moreover have "value_exec (Value_Destroy w) ?e2 = Inl freed_access"
    using vw x by (simp add: value_free_def var_of_def map_find_assign map_find_erase assms(2))
  moreover have "value_exec (Value_Destroy v) ?e3 = Inl freed_access"
    using vw d by (simp add: value_free_def place_live_def var_of_def map_find_assign map_find_erase)
  ultimately show ?thesis using e1 by blast
qed

theorem issuer_name_freed_twice_witness:
  "\<exists>e1 e2. value_exec (Issuer_Name 3 0) sample_values = Inr e1 \<and> value_exec (Value_Destroy 3) e1 = Inr e2
     \<and> value_exec (Value_Destroy 0) e2 = Inl freed_access"
  using issuer_name_freed_twice[OF sample_values_run, of 0 0 3] by (auto simp: sample_values_def)

text \<open>A stack and its copy share their elements.\<close>

lemma stack_copy_freed_twice:
  assumes "map_find t (vars e) = Some (V_Stack [Some (Whole n)])" and "map_find s (vars e) = None"
    and "n \<in> set (live (values_of e))" and "distinct (live (values_of e))" and "parts_freed (values_of e) = []"
  shows "\<exists>e1 e2. value_exec (Value_Stack_Copy s t) e = Inr e1 \<and> value_exec (Value_Destroy s) e1 = Inr e2
     \<and> value_exec (Value_Destroy t) e2 = Inl freed_access"
proof -
  have st: "s \<noteq> t" using assms(1,2) by auto
  then show ?thesis
    using assms by (simp add: set_var_def value_stack_dup_def var_of_def map_find_assign map_find_erase value_free_def)
qed

end
