(* ===== verification/VerbosityProps.thy ===== *)
theory VerbosityProps
  imports BaseProps
begin

text \<open>
  The option \<open>verbosity\<close>: what a verifier prints never makes it accept more, and it makes it refuse more
  only where a report cannot be printed.
\<close>

section \<open>Refusing more\<close>

definition accepts_at_most :: "'a result \<Rightarrow> 'a result \<Rightarrow> bool" where
  "accepts_at_most m n \<longleftrightarrow> (\<forall>y. m = Inr y \<longrightarrow> n = Inr y)"

named_theorems at_most_intros

lemma at_most_refl [at_most_intros]: "accepts_at_most m m"
  by (simp add: accepts_at_most_def)

lemma at_most_andthen [at_most_intros]:
  "accepts_at_most m n \<Longrightarrow> (\<And>x. accepts_at_most (f x) (g x)) \<Longrightarrow> accepts_at_most (andthen m f) (andthen n g)"
  unfolding accepts_at_most_def andthen_Inr by blast

lemma at_most_pair [at_most_intros]:
  "(\<And>a b. accepts_at_most (f a b) (g a b)) \<Longrightarrow> accepts_at_most (case p of (a, b) \<Rightarrow> f a b) (case p of (a, b) \<Rightarrow> g a b)"
  by (cases p) simp

lemma at_most_throw_if [at_most_intros]:
  "accepts_at_most m n \<Longrightarrow> accepts_at_most (throw_if c e m) (throw_if c e n)"
  by (simp add: accepts_at_most_def throw_if_Inr)

lemma at_most_logged [at_most_intros]:
  "accepts_at_most m n \<Longrightarrow> accepts_at_most (logged b txt m) (logged False txt' n)"
  by (simp add: accepts_at_most_def logged_Inr)

lemma at_most_chain [at_most_intros]:
  "accepts_at_most (verify_certificate_chain ssl stack store opts tr v i) (verify_certificate_chain ssl stack store opts tr 0 j)"
  "accepts_at_most (verify_certificate_chain_pem ssl pem store opts tr v i) (verify_certificate_chain_pem ssl pem store opts tr 0 j)"
  by (auto simp: accepts_at_most_def verify_certificate_chain_quiet[of _ _ _ _ _ v i _ j]
      dest: verify_certificate_chain_pem_quiet)

section \<open>At a verbosity\<close>

definition at_verbosity :: "byte \<Rightarrow> options \<Rightarrow> options" where
  "at_verbosity v opts = opts\<lparr>verbosity := v\<rparr>"

lemma at_verbosity_simps [simp]:
  "verbosity (at_verbosity v opts) = v"
  "certificate_verification (at_verbosity v opts) = certificate_verification opts"
  "partial_verification (at_verbosity v opts) = partial_verification opts"
  "check_root_certificate_manufacturer_key (at_verbosity v opts) = check_root_certificate_manufacturer_key opts"
  "historical (at_verbosity v opts) = historical opts"
  "fresh_endorsements (at_verbosity v opts) = fresh_endorsements opts"
  "fresh_root_ca_certificate (at_verbosity v opts) = fresh_root_ca_certificate opts"
  "root_ca_certificate (at_verbosity v opts) = root_ca_certificate opts"
  "sgx_endorsement_cache_url_template (at_verbosity v opts) = sgx_endorsement_cache_url_template opts"
  "sev_snp_endorsement_cache_url_template (at_verbosity v opts) = sev_snp_endorsement_cache_url_template opts"
  by (simp_all add: at_verbosity_def)

lemma at_verbosity_others [simp]:
  "check_pck_chain ssl ch (at_verbosity v opts) = check_pck_chain ssl ch opts"
  "gather_collateral en (at_verbosity v opts) rs = gather_collateral en opts rs"
  "check_vcek_chain ssl ch (at_verbosity v opts) = check_vcek_chain ssl ch opts"
  "qe_id_checks parse strptime s rb (at_verbosity v opts) = qe_id_checks parse strptime s rb opts"
  "parse_url_responses ssl (at_verbosity v opts) = parse_url_responses ssl opts"
  by (simp_all add: check_pck_chain_def gather_collateral_def consume_url_responses_def consume_root_def
      consume_fresh_def expected_responses_def check_vcek_chain_def qe_id_checks_def parse_url_responses_def
      fun_eq_iff cong: option.case_cong list.case_cong)

lemma at_verbosity_gather [simp]:
  "snp_gather_endorsements ssl en (at_verbosity v opts) rs = snp_gather_endorsements ssl en opts rs"
  by (simp add: snp_gather_endorsements_def cong: option.case_cong)

lemma at_most_issuer [at_most_intros]:
  "accepts_at_most (verify_issuer ssl ch store (at_verbosity v opts) what)
     (verify_issuer ssl ch store (at_verbosity 0 opts) what)"
  unfolding verify_issuer_def at_verbosity_simps by (intro at_most_intros)

lemma at_most_sgx:
  "accepts_at_most (verify ssl parse strptime ev en (at_verbosity v opts) rs)
     (verify ssl parse strptime ev en (at_verbosity 0 opts) rs)"
proof (cases "partial_verification opts")
  case True
  then show ?thesis
    unfolding verify_def partial_verify_def at_verbosity_simps at_verbosity_others
    by (simp only: if_True) (intro at_most_intros)
next
  case False
  then show ?thesis
    unfolding verify_def verify_tcb_def verify_qe_id_def at_verbosity_simps at_verbosity_others
    by (simp only: if_False less_irrefl) (intro at_most_intros)
qed

lemma at_most_snp:
  "accepts_at_most (snp_verify ssl ev en (at_verbosity v opts) rs)
     (snp_verify ssl ev en (at_verbosity 0 opts) rs)"
  unfolding snp_verify_def at_verbosity_simps at_verbosity_others at_verbosity_gather
  by (simp only: less_irrefl) (intro at_most_intros)

lemma at_most_oe:
  "accepts_at_most (oe_any_verify E a (at_verbosity v opts) rs) (oe_any_verify E a (at_verbosity 0 opts) rs)"
proof -
  note s = at_most_sgx[of "env_ssl E" "env_json_parse E" "env_strptime E" _ _ v opts rs]
  have r: "accepts_at_most (oe_run_verify (env_ssl E) (env_json_parse E) (env_strptime E) a' (at_verbosity v opts) rs)
      (oe_run_verify (env_ssl E) (env_json_parse E) (env_strptime E) a' (at_verbosity 0 opts) rs)" for a'
    unfolding oe_run_verify_def by (auto intro!: at_most_intros s split: option.split)
  have "accepts_at_most (snd (oe_verify (env_ssl E) (env_json_parse E) (env_strptime E) a (at_verbosity v opts) rs))
      (snd (oe_verify (env_ssl E) (env_json_parse E) (env_strptime E) a (at_verbosity 0 opts) rs))"
    unfolding oe_verify_def by (auto intro!: at_most_intros r split: option.split sum.split)
  then show ?thesis unfolding oe_any_verify_def by (rule at_most_andthen) (rule at_most_refl)
qed

text \<open>
  C22.  Whatever an attestation is and wherever it comes from: if it is accepted while the verifier prints
  its reports, it is accepted in silence too, with the same claims.
\<close>

theorem verbosity_only_refuses:
  assumes "any_verify E a (opts\<lparr>verbosity := v\<rparr>) rs = Inr claims"
  shows "any_verify E a (opts\<lparr>verbosity := 0\<rparr>) rs = Inr claims"
proof -
  have "accepts_at_most (any_verify E a (at_verbosity v opts) rs) (any_verify E a (at_verbosity 0 opts) rs)"
    unfolding any_verify_def
    by (cases a) (auto simp: aci_verify_def intro!: at_most_andthen at_most_refl at_most_sgx at_most_snp at_most_oe)
  then show ?thesis using assms by (simp add: accepts_at_most_def at_verbosity_def)
qed

section \<open>When nothing more is refused\<close>

text \<open>The revocation lists hold no NUL byte, so the reports and the store read the same text.\<close>

definition nul_free_crls :: "collateral \<Rightarrow> bool" where
  "nul_free_crls c \<longleftrightarrow> c_str (root_ca_crl c) = root_ca_crl c \<and> c_str (pck_crl c) = pck_crl c"

lemma prepare_store_reads:
  assumes "prepare_store ssl c = Inr (store, tr)" and "nul_free_crls c"
  shows "is_ok (crl_of ssl (bytes_of (root_ca_crl c)) True)" "is_ok (crl_of ssl (bytes_of (pck_crl c)) True)"
    and "\<not> tr \<Longrightarrow> is_ok (x509_of ssl (bytes_of (root_ca c)) True)"
  using assms unfolding prepare_store_def nul_free_crls_def
  by (auto simp: andthen_Inr store_add_crl_pem_def store_add_pem_def split: if_splits)

lemma chain_pem_reads:
  "verify_certificate_chain_pem ssl pem store opts tr v i = Inr r \<Longrightarrow> is_ok (stack_of_pem ssl pem)"
  by (auto simp: verify_certificate_chain_pem_def andthen_Inr)

lemma chain_pem_nonempty:
  "verify_certificate_chain_pem ssl pem store opts tr v i = Inr (store', chain) \<Longrightarrow> chain \<noteq> []"
  using verify_certificate_chain_Inr(1) unfolding verify_certificate_chain_pem_def andthen_Inr by fastforce

lemma issuer_reads:
  "verify_issuer ssl pem store opts what = Inr key \<Longrightarrow> is_ok (stack_of_pem ssl (bytes_of pem))"
  by (auto dest!: verify_issuer_Inr intro: chain_pem_reads)

lemma issuer_prints:
  "prints ssl \<Longrightarrow> verify_issuer ssl pem store (at_verbosity v opts) what = verify_issuer ssl pem store (at_verbosity 0 opts) what"
  unfolding verify_issuer_def at_verbosity_simps
  by (simp only: verify_certificate_chain_pem_prints[of ssl _ _ _ _ v 6 6])

lemma snp_report_prints: "prints ssl \<Longrightarrow> is_ok (snp_endorsements_to_string ssl e v indent)"
  unfolding snp_endorsements_to_string_def Let_def
  by (auto intro!: is_ok_andthen stack_short_prints crl_short_prints split: option.split)

lemma snp_prints:
  assumes "prints ssl"
  shows "snp_verify ssl ev en (at_verbosity v opts) rs = snp_verify ssl ev en (at_verbosity 0 opts) rs"
proof -
  have l: "logged b (snp_endorsements_to_string ssl e v i) k = k" for b e i and k :: "'b result"
    using snp_report_prints[OF assms, of e v i] by (auto simp: logged_def is_ok_iff)
  show ?thesis
    unfolding snp_verify_def at_verbosity_simps at_verbosity_others at_verbosity_gather
    by (simp only: less_irrefl l logged_off verify_certificate_chain_prints[OF assms, of _ _ _ _ v 4 4])
qed

lemma sgx_prints:
  assumes p: "prints ssl" and nul: "\<And>c. gather_collateral en opts rs = Inr c \<Longrightarrow> nul_free_crls c"
    and v0: "verify ssl parse strptime ev en (at_verbosity 0 opts) rs = Inr claims"
  shows "verify ssl parse strptime ev en (at_verbosity v opts) rs = Inr claims"
proof (cases "partial_verification opts")
  case True
  with v0 show ?thesis
    by (simp add: verify_def partial_verify_def verify_certificate_chain_pem_prints[OF p, of _ _ _ _ v 4 4])
next
  case False
  note chain = verify_certificate_chain_pem_prints[OF p, of _ _ _ _ v 4 4] and iss = issuer_prints[OF p, of _ _ v]
  from v0 False obtain c q sd store tr store1 crl_chain store2 pck_chain leaf ext level b where
    g: "gather_collateral en opts rs = Inr c" and q: "parse_quote ev = Inr q" "new_signature_data ssl q ev = Inr sd"
    and s: "prepare_store ssl c = Inr (store, tr)"
    and c1: "verify_certificate_chain_pem ssl (bytes_of (pck_crl_issuer_chain c)) store
       (certificate_verification opts) tr 0 4 = Inr (store1, crl_chain)"
    and c2: "verify_certificate_chain_pem ssl (sd_certification_data sd) store1
       (certificate_verification opts) False 0 4 = Inr (store2, pck_chain)"
    and k: "check_pck_chain ssl pck_chain opts = Inr leaf" "check_quote ssl ev q sd leaf = Inr ()"
      "new_certificate_extension ssl leaf = Inr ext"
    and t: "verify_tcb ssl parse strptime (tcb_info_issuer_chain c) (tcb_info c) ext store2 (at_verbosity 0 opts) = Inr level"
    and i: "verify_qe_id ssl parse strptime (qe_identity_issuer_chain c) (qe_identity c)
       (span_bytes (sd_report sd) ev) store2 (at_verbosity 0 opts) = Inr b"
    and m: "make_claims_with_endorsements ev sd c = Inr claims"
    unfolding verify_def by (auto simp: andthen_Inr)
  have tcb: "verify_tcb ssl parse strptime (tcb_info_issuer_chain c) (tcb_info c) ext store2 (at_verbosity v opts) = Inr level"
    using t by (simp add: verify_tcb_def iss)
  have qe: "verify_qe_id ssl parse strptime (qe_identity_issuer_chain c) (qe_identity c)
       (span_bytes (sd_report sd) ev) store2 (at_verbosity v opts) = Inr b"
    using i by (simp add: verify_qe_id_def iss)
  have r1: "is_ok (collateral_to_string ssl c v 2)"
  proof (rule collateral_to_string_prints[OF p prepare_store_reads(1,2)[OF s nul[OF g]] chain_pem_reads[OF c1]])
    show "is_ok (stack_of_pem ssl (bytes_of (tcb_info_issuer_chain c)))"
      using t unfolding verify_tcb_def andthen_Inr by (auto dest: issuer_reads)
    show "is_ok (stack_of_pem ssl (bytes_of (qe_identity_issuer_chain c)))"
      using i unfolding verify_qe_id_def andthen_Inr by (auto dest: issuer_reads)
  qed
  have r2: "is_ok (root_report ssl c tr crl_chain v 0)"
    by (rule root_report_prints[OF p chain_pem_nonempty[OF c1] prepare_store_reads(3)[OF s nul[OF g]]])
  have l: "logged on r k' = k'" if "is_ok r" for on r and k' :: "sgx_claims result"
    using that by (auto simp: logged_def is_ok_iff)
  show ?thesis
    using False by (simp add: verify_def g q s l[OF r1] l[OF r2] chain c1 c2 k tcb qe m)
qed

text \<open>
  C23.  When the library can print the dates and issuers of what it has read, the SEV-SNP verifier gives
  the same result at every verbosity, errors included, and the SGX verifier accepts the same evidence
  with the same claims, provided that the revocation lists of the collateral hold no NUL byte.
\<close>

theorem verbosity_harmless:
  assumes "prints ssl"
    and "\<And>c. gather_collateral en opts rs = Inr c \<Longrightarrow> nul_free_crls c"
  shows "snp_verify ssl ev' en' (opts\<lparr>verbosity := v\<rparr>) rs' = snp_verify ssl ev' en' (opts\<lparr>verbosity := 0\<rparr>) rs'
   \<and> (verify ssl parse strptime ev en (opts\<lparr>verbosity := v\<rparr>) rs = Inr claims \<longleftrightarrow>
      verify ssl parse strptime ev en (opts\<lparr>verbosity := 0\<rparr>) rs = Inr claims)"
proof (intro conjI iffI)
  show "snp_verify ssl ev' en' (opts\<lparr>verbosity := v\<rparr>) rs' = snp_verify ssl ev' en' (opts\<lparr>verbosity := 0\<rparr>) rs'"
    using snp_prints[OF assms(1)] by (simp add: at_verbosity_def)
  show "verify ssl parse strptime ev en (opts\<lparr>verbosity := v\<rparr>) rs = Inr claims"
    if "verify ssl parse strptime ev en (opts\<lparr>verbosity := 0\<rparr>) rs = Inr claims"
    using sgx_prints[OF assms(1) _ that[folded at_verbosity_def]] assms(2) by (simp add: at_verbosity_def)
  show "verify ssl parse strptime ev en (opts\<lparr>verbosity := 0\<rparr>) rs = Inr claims"
    if "verify ssl parse strptime ev en (opts\<lparr>verbosity := v\<rparr>) rs = Inr claims"
    using at_most_sgx[of ssl parse strptime ev en v opts rs] that by (simp add: at_verbosity_def accepts_at_most_def)
qed

lemma ex_crls_nul_free: "gather_collateral ex_endorsements default_options None = Inr c \<Longrightarrow> nul_free_crls c"
  by (simp add: ex_gather nul_free_crls_def) (auto simp: ex_collateral_def c_str_def)

lemma quiet_default: "default_options\<lparr>verbosity := 0\<rparr> = default_options"
  by (simp add: default_options_def)

lemma verbosity_harmless_witness:
  "is_ok (verify ex_ssl ex_parse ex_strptime ex_evidence ex_endorsements (default_options\<lparr>verbosity := 2\<rparr>) None)"
proof -
  obtain claims where "verify ex_ssl ex_parse ex_strptime ex_evidence ex_endorsements default_options None = Inr claims"
    using ex_verifies by (auto simp: is_ok_iff)
  then have "verify ex_ssl ex_parse ex_strptime ex_evidence ex_endorsements (default_options\<lparr>verbosity := 2\<rparr>) None = Inr claims"
    using verbosity_harmless[of ex_ssl ex_endorsements default_options None, OF ex_prints ex_crls_nul_free]
    unfolding quiet_default by blast
  then show ?thesis by simp
qed

lemma verbosity_only_refuses_witness:
  "is_ok (any_verify ex_env ex_sgx (default_options\<lparr>verbosity := 0\<rparr>) None)"
proof -
  obtain claims where "verify ex_ssl ex_parse ex_strptime ex_evidence ex_endorsements default_options None = Inr claims"
    using ex_verifies by (auto simp: is_ok_iff)
  then have "verify ex_ssl ex_parse ex_strptime ex_evidence ex_endorsements (at_verbosity 2 default_options) None = Inr claims"
    using sgx_prints[of ex_ssl ex_endorsements default_options None, OF ex_prints ex_crls_nul_free]
    unfolding at_verbosity_def quiet_default by blast
  then have "any_verify ex_env ex_sgx (default_options\<lparr>verbosity := 2\<rparr>) None = Inr (Sgx_Claims claims)"
    by (simp add: any_verify_def ex_sgx_def ex_env_def at_verbosity_def)
  from verbosity_only_refuses[OF this] show ?thesis by simp
qed

section \<open>A report that cannot be printed\<close>

text \<open>
  C35.  A revocation list need not name the time of its next update, but the report prints that time: at
  any verbosity above 0 the SEV-SNP verifier then dereferences a null pointer, whatever the evidence is,
  before it has verified anything.
\<close>

theorem missing_next_update_undefined:
  assumes "snp_gather_endorsements ssl en opts rs = Inr e" and "ee_vcek_issuer_chain_crl e = Some crl"
    and "crl_next_update_text ssl crl = None"
    and "is_ok (stack_to_string_short ssl (ee_vcek_certificate_chain e) 4)"
    and "crl_issuer_text ssl crl \<noteq> None" and "crl_last_update_text ssl crl \<noteq> None" and "0 < v"
  shows "snp_verify ssl ev en (opts\<lparr>verbosity := v\<rparr>) rs = Inl (Undefined_Behaviour ''ASN1_TIME_print of a null pointer'')"
proof -
  obtain st where st: "stack_to_string_short ssl (ee_vcek_certificate_chain e) 4 = Inr st"
    using assms(4) by (auto simp: is_ok_iff)
  obtain nm lu where t: "crl_issuer_text ssl crl = Some nm" "crl_last_update_text ssl crl = Some lu"
    using assms(5,6) by auto
  have "snp_endorsements_to_string ssl e v 0 = Inl (Undefined_Behaviour ''ASN1_TIME_print of a null pointer'')"
    by (simp add: snp_endorsements_to_string_def st assms(2,3) t crl_to_string_short_def crl_issuer_def
        crl_next_update_def indented_eq)
  then have "snp_verify ssl ev en (at_verbosity v opts) rs = Inl (Undefined_Behaviour ''ASN1_TIME_print of a null pointer'')"
    using assms(7) by (simp add: snp_verify_def assms(1) logged_def)
  then show ?thesis by (simp add: at_verbosity_def)
qed


text \<open>The library of the SEV-SNP example, with revocation lists that name no next update.\<close>

definition ex_no_next_update :: "nat openssl" where
  "ex_no_next_update = ex_snp_ssl\<lparr>crl_next_update_text := (\<lambda>_. None)\<rparr>"

lemma missing_next_update_undefined_witness:
  "snp_verify ex_no_next_update ex_snp_report [] (default_options\<lparr>verbosity := 1\<rparr>)
     (Some (replicate 3 (empty_response\<lparr>status := 200, body := ''pem-or-der''\<rparr>))) =
   Inl (Undefined_Behaviour ''ASN1_TIME_print of a null pointer'')"
proof (rule missing_next_update_undefined[where crl = 3])
  show "snp_gather_endorsements ex_no_next_update [] default_options
      (Some (replicate 3 (empty_response\<lparr>status := 200, body := ''pem-or-der''\<rparr>))) =
    Inr \<lparr>ee_root_ca_certificate = Some 6, ee_vcek_certificate_chain = [5, 5, 6], ee_vcek_issuer_chain_crl = Some 3\<rparr>"
    by code_simp
  show "is_ok (stack_to_string_short ex_no_next_update (ee_vcek_certificate_chain
      \<lparr>ee_root_ca_certificate = Some 6, ee_vcek_certificate_chain = [5, 5, 6], ee_vcek_issuer_chain_crl = Some 3\<rparr>) 4)"
    by code_simp
qed (simp_all add: ex_no_next_update_def ex_snp_ssl_def ex_ssl_def)

end
