(* ===== verification/ClientSetup.thy ===== *)
theory ClientSetup
  imports Tracker FetchHttp
begin

text \<open>
  The settings of the HTTP clients and what they make of a request: the constructors of
  \<open>http_client.h\<close>, \<open>http_client.cpp\<close>, \<open>http_client_curl.cpp\<close> and \<open>wasm/http_client_fetch.cpp\<close>, the
  options of a transfer of curl and the attributes of a fetch, and the settings with which the two drivers
  of \<open>ravl_impl.h\<close> make their client.
\<close>

section \<open>Settings\<close>

record client_settings =
  request_timeout :: u64
  max_attempts :: u64
  verbose_transfers :: bool

text \<open>The default arguments of \<open>HTTPClient\<close> and of the clients derived from it.\<close>

definition default_settings :: client_settings where
  "default_settings = \<lparr>request_timeout = 0, max_attempts = 5, verbose_transfers = False\<rparr>"

definition http_client_settings :: "u64 \<Rightarrow> u64 \<Rightarrow> bool \<Rightarrow> client_settings" where
  "http_client_settings timeout attempts v =
     \<lparr>request_timeout = timeout, max_attempts = attempts, verbose_transfers = v\<rparr>"

definition sync_client_settings :: "u64 \<Rightarrow> u64 \<Rightarrow> bool \<Rightarrow> client_settings" where
  "sync_client_settings timeout attempts v = http_client_settings timeout attempts v"

definition curl_client_settings :: "u64 \<Rightarrow> u64 \<Rightarrow> bool \<Rightarrow> client_settings" where
  "curl_client_settings timeout attempts v = http_client_settings timeout attempts v"

text \<open>
  \<open>FetchTracker\<close> gives its second argument, a flag, to the parameter for the number of attempts, and
  nothing to the flag.
\<close>

definition fetch_tracker_settings :: "u64 \<Rightarrow> bool \<Rightarrow> client_settings" where
  "fetch_tracker_settings timeout v = http_client_settings timeout (of_bool v) False"

text \<open>\<open>AsynchronousHTTPClient\<close> in the two builds.\<close>

definition async_curl_settings :: "u64 \<Rightarrow> u64 \<Rightarrow> bool \<Rightarrow> client_settings" where
  "async_curl_settings timeout attempts v = curl_client_settings timeout attempts v"

definition async_fetch_settings :: "u64 \<Rightarrow> u64 \<Rightarrow> bool \<Rightarrow> client_settings" where
  "async_fetch_settings timeout attempts v = fetch_tracker_settings timeout v"

lemma async_fetch_settings_attempts: "max_attempts (async_fetch_settings timeout attempts v) \<le> 1"
  by (simp add: async_fetch_settings_def fetch_tracker_settings_def http_client_settings_def)

section \<open>Transfers\<close>

text \<open>
  The options of a handle of curl.  The functions that receive body and headers, and their argument, are
  those of \<open>Http\<close>.  Texts are given as pointers, so they end at their first NUL.
\<close>

record easy_handle =
  opt_url :: "string option"
  opt_timeout :: "u64 option"
  opt_nosignal :: bool
  opt_verbose :: bool
  opt_postfields :: "string option"

definition easy_init :: easy_handle where
  "easy_init = \<lparr>opt_url = None, opt_timeout = None, opt_nosignal = False, opt_verbose = False, opt_postfields = None\<rparr>"

definition easy_setup :: "easy_handle \<Rightarrow> string \<Rightarrow> string \<Rightarrow> u64 \<Rightarrow> bool \<Rightarrow> easy_handle" where
  "easy_setup curl u b timeout v =
     (let curl = curl\<lparr>opt_url := Some (c_str u)\<rparr>;
          curl = (if timeout \<noteq> 0 then curl\<lparr>opt_timeout := Some timeout, opt_nosignal := True\<rparr> else curl);
          curl = (if v then curl\<lparr>opt_verbose := True\<rparr> else curl)
      in if b \<noteq> [] then curl\<lparr>opt_postfields := Some (c_str b)\<rparr> else curl)"

text \<open>The loop of \<open>execute_synchronous\<close> sets the options of its handle again before every attempt.\<close>

lemma easy_setup_again: "easy_setup (easy_setup curl u b timeout v) u b timeout v = easy_setup curl u b timeout v"
  by (simp add: easy_setup_def Let_def)

text \<open>The headers of a request are not among the options.\<close>

lemma easy_setup_headers:
  "easy_setup curl (url (q\<lparr>req_headers := h\<rparr>)) (req_body (q\<lparr>req_headers := h\<rparr>)) timeout v =
     easy_setup curl (url q) (req_body q) timeout v"
  by simp

text \<open>
  \<open>curl k handle r\<close>: what the transfer does on the k-th attempt, with the response as the callbacks leave
  it.
\<close>

type_synonym transfer = "nat \<Rightarrow> easy_handle \<Rightarrow> HTTPResponse \<Rightarrow> nat + HTTPResponse"

definition settings_perform :: "transfer \<Rightarrow> client_settings \<Rightarrow> curl_perform" where
  "settings_perform curl st k q r =
     curl k (easy_setup easy_init (url q) (req_body q) (request_timeout st) (verbose_transfers st)) r"

definition settings_exec ::
  "(string \<Rightarrow> int) \<Rightarrow> transfer \<Rightarrow> client_settings \<Rightarrow> HTTPRequest \<Rightarrow> HTTPResponse result" where
  "settings_exec atol curl st q =
     execute_synchronous atol (settings_perform curl st) q (unat (max_attempts st))"

section \<open>Fetches\<close>

text \<open>
  The attributes of a fetch; \<open>size_t\<close> has 32 bits in the WebAssembly build.  The data for the callbacks
  are the set and the index of the request.
\<close>

record fetch_attributes =
  fa_method :: string
  fa_load_to_memory :: bool
  fa_timeout_msecs :: u32
  fa_user_data :: "nat \<times> nat"
  fa_url :: string

definition make_fetch :: "string \<Rightarrow> nat \<Rightarrow> nat \<Rightarrow> string \<Rightarrow> u32 \<Rightarrow> fetch_attributes" where
  "make_fetch method sid i u timeout =
     \<lparr>fa_method = c_str method, fa_load_to_memory = True, fa_timeout_msecs = timeout * 1000,
      fa_user_data = (sid, i), fa_url = c_str u\<rparr>"

text \<open>The fetches that \<open>FetchTracker::submit\<close> starts.\<close>

fun submit_fetches :: "nat \<Rightarrow> nat \<Rightarrow> HTTPRequest list \<Rightarrow> u32 \<Rightarrow> fetch_attributes list" where
  "submit_fetches sid i [] timeout = []"
| "submit_fetches sid i (q # qs) timeout = make_fetch ''GET'' sid i (url q) timeout # submit_fetches sid (Suc i) qs timeout"

text \<open>One fetch for each request in its order, which depends on the address alone.\<close>

lemma submit_fetches_eq:
  "submit_fetches sid i qs timeout =
     map (\<lambda>(j, u). make_fetch ''GET'' sid j u timeout) (zip [i..<i + length qs] (map url qs))"
  by (induction qs arbitrary: i) (simp_all add: upt_conv_Cons del: upt_Suc)

section \<open>The clients of the drivers\<close>

text \<open>\<open>verify_synchronous\<close> takes the settings from its options.\<close>

definition options_settings :: "options \<Rightarrow> client_settings" where
  "options_settings opts = sync_client_settings (http_timeout opts) (http_max_attempts opts) (0 < verbosity opts)"

definition verify_synchronous_with_options ::
  "(string \<Rightarrow> int) \<Rightarrow> transfer \<Rightarrow> 'a attestation \<Rightarrow> options \<Rightarrow> 'a result" where
  "verify_synchronous_with_options atol curl a opts =
     verify_synchronous (sync_submit (settings_exec atol curl (options_settings opts))) a opts new_sync_client"

text \<open>\<open>verify_synchronized\<close> without a client makes one with the default arguments.\<close>

definition verify_synchronized_without_client ::
  "(string \<Rightarrow> int) \<Rightarrow> transfer \<Rightarrow> 'a attestation \<Rightarrow> options \<Rightarrow> 'a result" where
  "verify_synchronized_without_client atol curl a opts =
     snd (verify_synchronized (sync_submit (settings_exec atol curl default_settings)) sync_erase (Some a)
       opts new_sync_client)"

end
