(* ===== verification/ClientProps.thy ===== *)
theory ClientProps
  imports ClientSetup TrackerProps
begin

text \<open>The settings of the HTTP client that the drivers make.\<close>

section \<open>The verifiers do not look at the HTTP options\<close>

definition at_http :: "u64 \<Rightarrow> u64 \<Rightarrow> options \<Rightarrow> options" where
  "at_http t n opts = opts\<lparr>http_timeout := t, http_max_attempts := n\<rparr>"

lemma at_http_simps [simp]:
  "certificate_verification (at_http t n opts) = certificate_verification opts"
  "partial_verification (at_http t n opts) = partial_verification opts"
  "check_root_certificate_manufacturer_key (at_http t n opts) = check_root_certificate_manufacturer_key opts"
  "verbosity (at_http t n opts) = verbosity opts"
  "historical (at_http t n opts) = historical opts"
  "fresh_endorsements (at_http t n opts) = fresh_endorsements opts"
  "fresh_root_ca_certificate (at_http t n opts) = fresh_root_ca_certificate opts"
  "root_ca_certificate (at_http t n opts) = root_ca_certificate opts"
  "sgx_endorsement_cache_url_template (at_http t n opts) = sgx_endorsement_cache_url_template opts"
  "sev_snp_endorsement_cache_url_template (at_http t n opts) = sev_snp_endorsement_cache_url_template opts"
  "http_timeout (at_http t n opts) = t" "http_max_attempts (at_http t n opts) = n"
  by (simp_all add: at_http_def)

lemma sgx_at_http:
  "verify ssl parse strptime ev en (at_http t n opts) rs = verify ssl parse strptime ev en opts rs"
proof -
  have i: "verify_issuer ssl ch store (at_http t n opts) what = verify_issuer ssl ch store opts what" for ch store what
    by (simp add: verify_issuer_def)
  have p: "check_pck_chain ssl ch (at_http t n opts) = check_pck_chain ssl ch opts" for ch
    by (simp add: check_pck_chain_def)
  have g: "gather_collateral en (at_http t n opts) rs = gather_collateral en opts rs"
    by (simp add: gather_collateral_def consume_url_responses_def consume_root_def consume_fresh_def expected_responses_def
        cong: option.case_cong list.case_cong)
  show ?thesis
    by (simp add: verify_def partial_verify_def p g verify_tcb_def verify_qe_id_def qe_id_checks_def i)
qed

lemma snp_at_http: "snp_verify ssl ev en (at_http t n opts) rs = snp_verify ssl ev en opts rs"
proof -
  have k: "check_vcek_chain ssl ch (at_http t n opts) = check_vcek_chain ssl ch opts" for ch
    by (simp add: check_vcek_chain_def)
  have "parse_url_responses ssl (at_http t n opts) = parse_url_responses ssl opts"
    by (rule ext) (simp add: parse_url_responses_def)
  then have "snp_gather_endorsements ssl en (at_http t n opts) rs = snp_gather_endorsements ssl en opts rs"
    by (simp add: snp_gather_endorsements_def split: option.split)
  then show ?thesis by (simp add: snp_verify_def k)
qed

lemma download_at_http:
  "download_collateral vf ca fm (at_http t n opts) qve = download_collateral vf ca fm opts qve"
  "download_endorsements vf product chip tcb (at_http t n opts) = download_endorsements vf product chip tcb opts"
  unfolding download_collateral_def download_endorsements_def at_http_simps by (rule refl)+

lemma prepare_at_http:
  "prepare_endorsements ssl vf ev en (at_http t n opts) = prepare_endorsements ssl vf ev en opts"
  "snp_prepare_endorsements vf ev en (at_http t n opts) = snp_prepare_endorsements vf ev en opts"
  unfolding prepare_endorsements_def snp_prepare_endorsements_def at_http_simps download_at_http by (rule refl)+

lemma oe_at_http:
  "oe_prepare_endorsements ssl vf a (at_http t n opts) = oe_prepare_endorsements ssl vf a opts"
  unfolding oe_prepare_endorsements_def at_http_simps prepare_at_http by (rule refl)

lemma oe_verify_at_http:
  "oe_verify ssl parse strptime a (at_http t n opts) rs = oe_verify ssl parse strptime a opts rs"
  unfolding oe_verify_def oe_run_verify_def at_http_simps sgx_at_http by (rule refl)

lemma any_at_http:
  "att_prepare (attestation_of E a) (at_http t n opts) = att_prepare (attestation_of E a) opts"
  "att_verify (attestation_of E a) (at_http t n opts) = att_verify (attestation_of E a) opts"
  by (cases a; simp add: fun_eq_iff attestation_of_def any_verify_prepared_def oe_any_verify_def
      aci_verify_def prepare_at_http oe_at_http oe_verify_at_http sgx_at_http snp_at_http)+

section \<open>The options that count\<close>

text \<open>What curl prints does not change what it transfers.\<close>

definition verbosity_prints_only :: "transfer \<Rightarrow> bool" where
  "verbosity_prints_only curl \<longleftrightarrow> (\<forall>k h r v. curl k (h\<lparr>opt_verbose := v\<rparr>) r = curl k h r)"

lemma settings_exec_verbosity:
  assumes "verbosity_prints_only curl"
  shows "settings_exec atol curl (st\<lparr>verbose_transfers := v\<rparr>) = settings_exec atol curl st"
proof -
  have s: "\<exists>x. easy_setup h u b t v = (easy_setup h u b t w)\<lparr>opt_verbose := x\<rparr>" for h u b t w
    by (rule exI[of _ "opt_verbose (easy_setup h u b t v)"]) (simp add: easy_setup_def Let_def)
  have "curl k (easy_setup h u b t v) r = curl k (easy_setup h u b t w) r" for k h u b t w r
    using s[of h u b t w] assms unfolding verbosity_prints_only_def by metis
  then have "settings_perform curl (st\<lparr>verbose_transfers := v\<rparr>) = settings_perform curl st"
    by (intro ext) (simp add: settings_perform_def)
  moreover have "max_attempts (st\<lparr>verbose_transfers := v\<rparr>) = max_attempts st" by simp
  ultimately show ?thesis by (intro ext) (simp only: settings_exec_def)
qed

text \<open>
  C12.  \<open>verify_synchronized\<close> without a client ignores the options for HTTP: it does what
  \<open>verify_synchronous\<close> does with no timeout and five attempts, and it hides the reason of a failure.
\<close>

theorem http_options_ignored:
  assumes "verbosity_prints_only curl"
  shows "verify_synchronized_without_client atol curl (attestation_of E a) opts =
     (case verify_synchronous_with_options atol curl (attestation_of E a)
         (opts\<lparr>http_timeout := 0, http_max_attempts := 5\<rparr>) of
        Inr cl \<Rightarrow> Inr cl
      | Inl e \<Rightarrow> Inl (if is_std_exception e then Runtime_Error ''error'' else e))"
proof -
  have s: "options_settings (at_http 0 5 opts) = default_settings\<lparr>verbose_transfers := 0 < verbosity opts\<rparr>"
    by (simp add: options_settings_def sync_client_settings_def http_client_settings_def default_settings_def)
  have "verify_synchronous_with_options atol curl (attestation_of E a) (at_http 0 5 opts) =
      verify_synchronous (sync_submit (settings_exec atol curl default_settings)) (attestation_of E a) opts new_sync_client"
    unfolding verify_synchronous_with_options_def s settings_exec_verbosity[OF assms] verify_synchronous_def any_at_http
    by (rule refl)
  then show ?thesis
    by (simp add: verify_synchronized_without_client_def attestation_law_of[OF ex_sync(1)] at_http_def)
qed

lemma http_options_ignored_witness:
  "is_ok (verify_synchronized_without_client (\<lambda>_. 0) (\<lambda>_ _ _. Inl 28) (attestation_of ex_env ex_sgx)
     (default_options\<lparr>http_timeout := 1, http_max_attempts := 0\<rparr>))"
proof -
  have "verbosity_prints_only (\<lambda>_ _ _. Inl 28)" by (simp add: verbosity_prints_only_def)
  from http_options_ignored[OF this, of "\<lambda>_. 0" ex_env ex_sgx "at_http 1 0 default_options"]
  show ?thesis
    using ex_sgx_verify ex_sgx_prepare any_at_http[of ex_env ex_sgx 0 5 default_options]
    by (auto simp: at_http_def verify_synchronous_with_options_def verify_synchronous_fetched[OF ex_sync(1)]
        verify_fetched_def is_ok_iff)
qed

end
