(* ===== verification/Cli.thy ===== *)
theory Cli
  imports CApi Tracker
begin

text \<open>
  The command line \<open>src/cli.cpp\<close>: it verifies the attestations in the files it is given, one after the
  other.  The argument parser CLI11 and the file system are parameters; what \<open>main\<close> writes to the standard
  output is a list of lines.
\<close>

section \<open>Arguments\<close>

text \<open>
  What the parser found: an option that was not given leaves its variable as it is.  The other arguments
  are the files.
\<close>

record cli_values =
  arg_v :: "byte option"
  arg_f :: "bool option"
  arg_r :: "bool option"
  arg_e :: "bool option"

definition keep :: "'a option \<Rightarrow> 'a \<Rightarrow> 'a" where
  "keep new old = (case new of None \<Rightarrow> old | Some x \<Rightarrow> x)"

definition cli_options :: "cli_values \<Rightarrow> options" where
  "cli_options a =
     (let o' = default_options\<lparr>verbosity := 1\<rparr>; cv = certificate_verification o'
      in o'\<lparr>verbosity := keep (arg_v a) (verbosity o'),
            fresh_endorsements := keep (arg_f a) (fresh_endorsements o'),
            fresh_root_ca_certificate := keep (arg_r a) (fresh_root_ca_certificate o'),
            certificate_verification := cv\<lparr>ignore_time := keep (arg_e a) (ignore_time cv)\<rparr>\<rparr>)"

text \<open>
  \<open>app.parse\<close>: the values and the files, or a \<open>CLI::ParseError\<close> with the text and the exit code that
  \<open>app.exit\<close> gives it.
\<close>

type_synonym cli_parser = "string list \<Rightarrow> (string list \<times> int) + (cli_values \<times> string list)"

section \<open>\<open>main\<close>\<close>

definition skip_warning :: "string \<Rightarrow> string" where
  "skip_warning f = ''Warning: error opening '' @ [CHR 0x27] @ f @ [CHR 0x27] @ '', skipping.''"

definition error_line :: "failure \<Rightarrow> string" where
  "error_line e = ''Error: '' @ what_of e"

text \<open>
  The loop over the files.  A file that cannot be opened is skipped; the parsing of an attestation is
  outside the inner \<open>try\<close>, its verification inside.
\<close>

fun cli_files ::
  "(string \<Rightarrow> string option) \<Rightarrow> (string \<Rightarrow> 'a result) \<Rightarrow> ('a \<Rightarrow> 'c result) \<Rightarrow> string list \<Rightarrow> string list \<Rightarrow>
   string list \<times> unit result" where
  "cli_files file parse verify_one [] out = (out, Inr ())"
| "cli_files file parse verify_one (f # fs) out = (case file f of
       None \<Rightarrow> cli_files file parse verify_one fs (out @ [skip_warning f])
     | Some s \<Rightarrow> (case parse s of
           Inl e \<Rightarrow> (out, Inl e)
         | Inr attestation \<Rightarrow> (case verify_one attestation of
               Inr claims \<Rightarrow> cli_files file parse verify_one fs out
             | Inl e \<Rightarrow> if is_std_exception e then cli_files file parse verify_one fs (out @ [error_line e])
                       else (out, Inl e))))"

text \<open>
  \<open>main\<close> with its handlers: the lines and the exit code.  What no handler intercepts stays an \<open>Inl\<close>.
\<close>

definition cli_main ::
  "cli_parser \<Rightarrow> (string \<Rightarrow> string option) \<Rightarrow> (string \<Rightarrow> 'a result) \<Rightarrow> (options \<Rightarrow> 'a \<Rightarrow> 'c result) \<Rightarrow>
   string list \<Rightarrow> string list \<times> int result" where
  "cli_main parser file parse verify_with argv = (case parser argv of
       Inl (out, code) \<Rightarrow> (out, Inr code)
     | Inr (args, files) \<Rightarrow> (case cli_files file parse (verify_with (cli_options args)) files [] of
           (out, Inr _) \<Rightarrow> (out, Inr 0)
         | (out, Inl e) \<Rightarrow>
             if is_std_exception e then (out @ [''Exception: '' @ what_of e], Inr 2)
             else if catchable e then (out @ [''Caught unknown exception''], Inr 2)
             else (out, Inl e)))"

text \<open>
  The program over the library: \<open>verify_synchronized\<close> without a client makes a synchronous one with its
  default settings, a new one for every attestation.
\<close>

definition cli_verify ::
  "(HTTPRequest \<Rightarrow> HTTPResponse result) \<Rightarrow> 'h environment \<Rightarrow> options \<Rightarrow> any_attestation \<Rightarrow> any_claims result" where
  "cli_verify exec E opts a =
     snd (verify_synchronized (sync_submit exec) sync_erase (Some (attestation_of E a)) opts new_sync_client)"

definition ravl_cli ::
  "(HTTPRequest \<Rightarrow> HTTPResponse result) \<Rightarrow> 'h environment \<Rightarrow> cli_parser \<Rightarrow> (string \<Rightarrow> string option) \<Rightarrow>
   string list \<Rightarrow> string list \<times> int result" where
  "ravl_cli exec E parser file argv =
     cli_main parser file (parse_attestation E) (cli_verify exec E) argv"

section \<open>Every file on its own\<close>

text \<open>What the loop does with one file: the lines it adds, or the exception that ends it.\<close>

definition cli_file ::
  "(string \<Rightarrow> string option) \<Rightarrow> (string \<Rightarrow> 'a result) \<Rightarrow> ('a \<Rightarrow> 'c result) \<Rightarrow> string \<Rightarrow> string list result" where
  "cli_file file parse verify_one f = (case file f of
       None \<Rightarrow> Inr [skip_warning f]
     | Some s \<Rightarrow> andthen (parse s) (\<lambda>a. case verify_one a of
           Inr _ \<Rightarrow> Inr []
         | Inl e \<Rightarrow> if is_std_exception e then Inr [error_line e] else Inl e))"

lemma cli_files_Cons:
  "cli_files file parse ver (f # fs) out = (case cli_file file parse ver f of
     Inl e \<Rightarrow> (out, Inl e) | Inr l \<Rightarrow> cli_files file parse ver fs (out @ l))"
proof (cases "file f")
  case (Some s)
  then show ?thesis
    by (cases "parse s") (auto simp: cli_file_def split: sum.split)
qed (simp add: cli_file_def)

lemma cli_files_append:
  assumes "\<And>f. f \<in> set fs \<Longrightarrow> cli_file file parse ver f = Inr (line f)"
  shows "cli_files file parse ver (fs @ gs) out = cli_files file parse ver gs (out @ concat (map line fs))"
  using assms by (induction fs arbitrary: out) (simp_all add: cli_files_Cons del: cli_files.simps(2))

end
