(* ===== verification/CliProps.thy ===== *)
theory CliProps
  imports Cli TrackerProps
begin

text \<open>The properties of the command line.\<close>

lemma cli_verify_eq:
  "cli_verify exec E opts a = (case verify_synchronous (sync_submit exec) (attestation_of E a) opts new_sync_client of
     Inr cl \<Rightarrow> Inr cl | Inl e \<Rightarrow> Inl (if is_std_exception e then Runtime_Error ''error'' else e))"
  unfolding cli_verify_def by (rule attestation_law_of[OF ex_sync(1)])

text \<open>What is printed for a file, in terms of the direct driver: the reason of a failure is not.\<close>

definition cli_report ::
  "(HTTPRequest \<Rightarrow> HTTPResponse result) \<Rightarrow> 'h environment \<Rightarrow> options \<Rightarrow> (string \<Rightarrow> string option) \<Rightarrow> string \<Rightarrow> string list" where
  "cli_report exec E opts file f = (case file f of
       None \<Rightarrow> [skip_warning f]
     | Some s \<Rightarrow> (case andthen (parse_attestation E s) (\<lambda>a.
           verify_synchronous (sync_submit exec) (attestation_of E a) opts new_sync_client) of
         Inr _ \<Rightarrow> [] | Inl _ \<Rightarrow> [''Error: error'']))"

text \<open>
  The exception with which a file ends the loop: it holds no attestation, or its verification throws
  something that is no \<open>std::exception\<close>.
\<close>

definition cli_failure ::
  "(HTTPRequest \<Rightarrow> HTTPResponse result) \<Rightarrow> 'h environment \<Rightarrow> options \<Rightarrow> (string \<Rightarrow> string option) \<Rightarrow> string \<Rightarrow> failure option" where
  "cli_failure exec E opts file f = (case file f of
       None \<Rightarrow> None
     | Some s \<Rightarrow> (case parse_attestation E s of
           Inl e \<Rightarrow> Some e
         | Inr a \<Rightarrow> (case verify_synchronous (sync_submit exec) (attestation_of E a) opts new_sync_client of
               Inr _ \<Rightarrow> None | Inl e \<Rightarrow> if is_std_exception e then None else Some e)))"

lemma cli_file_report:
  "cli_file file (parse_attestation E) (cli_verify exec E opts) f = (case cli_failure exec E opts file f of
     None \<Rightarrow> Inr (cli_report exec E opts file f) | Some e \<Rightarrow> Inl e)"
  by (auto simp: cli_failure_def cli_report_def cli_file_def cli_verify_eq error_line_def
      split: option.splits sum.splits)

lemma cli_files_report:
  "cli_files file (parse_attestation E) (cli_verify exec E opts) files out =
     (let goes_on = (\<lambda>f. cli_failure exec E opts file f = None);
          lines = out @ concat (map (cli_report exec E opts file) (takeWhile goes_on files))
      in case dropWhile goes_on files of
           [] \<Rightarrow> (lines, Inr ())
         | f # _ \<Rightarrow> (lines, Inl (the (cli_failure exec E opts file f))))"
proof (induction files arbitrary: out)
  case (Cons f files)
  then show ?case
    by (cases "cli_failure exec E opts file f")
      (simp_all add: cli_files_Cons cli_file_report Let_def del: cli_files.simps(2) dropWhile_eq_Nil_conv split: list.split)
qed simp

text \<open>
  C20.  The program reports on the files in their order, as the direct driver decides: a warning for one that
  cannot be opened, nothing for claims, and the same line for every failure of a verification.  Failures
  do not change the exit code, which is 0 when all files are dealt with.  The first file that holds no
  attestation, or whose verification throws what is no \<open>std::exception\<close>, ends the program: the exit code
  is 2, and the files after it are not looked at.
\<close>

theorem cli_reports_every_file:
  assumes "parser argv = Inr (args, files)"
  shows "ravl_cli exec E parser file argv =
     (let opts = cli_options args; goes_on = (\<lambda>f. cli_failure exec E opts file f = None);
          lines = concat (map (cli_report exec E opts file) (takeWhile goes_on files))
      in case dropWhile goes_on files of
           [] \<Rightarrow> (lines, Inr 0)
         | f # _ \<Rightarrow> (let e = the (cli_failure exec E opts file f)
              in if is_std_exception e then (lines @ [''Exception: '' @ what_of e], Inr 2)
                 else if catchable e then (lines @ [''Caught unknown exception''], Inr 2)
                 else (lines, Inl e)))"
  by (cases "dropWhile (\<lambda>f. cli_failure exec E (cli_options args) file f = None) files")
    (simp_all add: ravl_cli_def cli_main_def assms cli_files_report Let_def del: dropWhile_eq_Nil_conv)

section \<open>Examples\<close>

text \<open>Three files: one that is missing, one with an attestation that is refused, one with no attestation.\<close>

definition ex_cli_env :: "nat environment" where
  "ex_cli_env = ex_env\<lparr>env_json_parse := (\<lambda>s. if s = ''sgx''
     then Inr (J_Object [(''evidence'', J_String (replicate 436 CHR ''A'')), (''source'', J_String ''sgx'')])
     else Inl (Json_Error ''parse error''))\<rparr>"

definition ex_cli_args :: cli_values where
  "ex_cli_args = \<lparr>arg_v = None, arg_f = None, arg_r = None, arg_e = None\<rparr>"

definition ex_cli_parser :: cli_parser where
  "ex_cli_parser argv = Inr (ex_cli_args, tl argv)"

definition ex_cli_file :: "string \<Rightarrow> string option" where
  "ex_cli_file f = (if f = ''a'' then Some ''sgx'' else if f = ''b'' then Some ''text'' else None)"

lemma ex_cli_parse:
  "parse_attestation ex_cli_env ''sgx'' = Inr (Sgx_Attestation (replicate 436 0x41) [])"
  "parse_attestation ex_cli_env ''text'' = Inl (Json_Error ''parse error'')"
proof -
  have b: "from_base64 ex_ssl (replicate 436 CHR ''A'') = Inr (replicate 436 0x41)"
    by (simp add: from_base64_def ex_ssl_def bytes_of_def byte_of_char_def bio_text_short int_size_short)
  have s: "source_from_json (J_String ''sgx'') = SRC_SGX"
    by (simp add: source_from_json_def source_names_def)
  show "parse_attestation ex_cli_env ''sgx'' = Inr (Sgx_Attestation (replicate 436 0x41) [])"
    by (simp add: parse_attestation_def ex_cli_env_def parse_attestation_value_def json_get_data_def
        json_get_optional_data_def json_contains_def json_get_string_def map_find_def s b ex_env_def)
  show "parse_attestation ex_cli_env ''text'' = Inl (Json_Error ''parse error'')"
    by (simp add: parse_attestation_def ex_cli_env_def)
qed

lemma ex_cli_run:
  "verify_synchronous (sync_submit exec) (attestation_of ex_cli_env (Sgx_Attestation (replicate 436 0x41) []))
     (cli_options ex_cli_args) new_sync_client = Inl too_small"
proof -
  have "sub 432 4 (replicate 436 (0x41 :: byte)) = [0x41, 0x41, 0x41, 0x41]"
    by (simp add: sub_def eval_nat_numeral)
  then have "parse_quote (replicate 436 0x41) = Inl too_small"
    by (simp add: parse_quote_def peek_le_if sgx_layout)
  then show ?thesis
    by (simp add: verify_synchronous_fetched[OF ex_sync(1)] verify_fetched_def attestation_of_def
        prepare_endorsements_def cli_options_def ex_cli_args_def default_options_def keep_def)
qed

lemma ex_cli_reports:
  "cli_report exec ex_cli_env (cli_options ex_cli_args) ex_cli_file ''a'' = [''Error: error'']"
  "cli_report exec ex_cli_env (cli_options ex_cli_args) ex_cli_file ''c'' = [skip_warning ''c'']"
  "cli_failure exec ex_cli_env (cli_options ex_cli_args) ex_cli_file ''a'' = None"
  "cli_failure exec ex_cli_env (cli_options ex_cli_args) ex_cli_file ''c'' = None"
  "cli_failure exec ex_cli_env (cli_options ex_cli_args) ex_cli_file ''b'' = Some (Json_Error ''parse error'')"
  by (simp_all add: cli_report_def cli_failure_def ex_cli_file_def ex_cli_parse ex_cli_run too_small_def)

lemma cli_reports_every_file_witness:
  "ravl_cli (\<lambda>_. Inl Bad_Alloc) ex_cli_env ex_cli_parser ex_cli_file [''ravl'', ''c'', ''a''] =
     ([skip_warning ''c'', ''Error: error''], Inr 0)
   \<and> ravl_cli (\<lambda>_. Inl Bad_Alloc) ex_cli_env ex_cli_parser ex_cli_file [''ravl'', ''a'', ''b'', ''a''] =
     ([''Error: error'', ''Exception: parse error''], Inr 2)"
proof -
  have p: "ex_cli_parser (''ravl'' # fs) = Inr (ex_cli_args, fs)" for fs by (simp add: ex_cli_parser_def)
  show ?thesis
    unfolding cli_reports_every_file[where parser = ex_cli_parser, OF p] by (simp add: ex_cli_reports Let_def)
qed

end
