(* ===== verification/SslDigest.thy ===== *)
theory SslDigest
  imports Sgx
begin

text \<open>
  \<open>UqEVP_MD_CTX\<close> of \<open>openssl.hpp\<close>: the context through which \<open>crypto.h\<close> and \<open>sgx_impl.h\<close> compute digests,
  one update after the other, and that it computes what \<open>Crypto\<close> and \<open>Sgx\<close> take for the digest of a whole
  message.
\<close>

section \<open>The context\<close>

text \<open>The functions of OpenSSL; None is a code other than 1 with an error in the queue.\<close>

record ('m, 'c) digest_library =
  EVP_MD_size :: "'m \<Rightarrow> int"
  EVP_DigestInit :: "'m \<Rightarrow> 'c option"
  EVP_DigestUpdate :: "'c \<Rightarrow> bytes \<Rightarrow> 'c option"
  EVP_DigestFinal :: "'c \<Rightarrow> bytes option"

record 'c md_ctx =
  md_state :: 'c
  md_size :: int

definition new_md_ctx :: "('m, 'c) digest_library \<Rightarrow> 'm \<Rightarrow> 'c md_ctx result" where
  "new_md_ctx D md = andthen (checknull (EVP_DigestInit D md)) (\<lambda>c.
     Inr \<lparr>md_state = c, md_size = EVP_MD_size D md\<rparr>)"

definition md_update :: "('m, 'c) digest_library \<Rightarrow> 'c md_ctx \<Rightarrow> bytes \<Rightarrow> 'c md_ctx result" where
  "md_update D ctx message = andthen (checknull (EVP_DigestUpdate D (md_state ctx) message)) (\<lambda>c.
     Inr (ctx\<lparr>md_state := c\<rparr>))"

text \<open>
  \<open>final\<close> makes a vector of \<open>md_size\<close> zeros, whose size is unsigned, and lets the library write the digest
  to its beginning.
\<close>

definition md_final :: "('m, 'c) digest_library \<Rightarrow> 'c md_ctx \<Rightarrow> bytes result" where
  "md_final D ctx =
     throw_if (md_size ctx < 0) (Logic_Error ''cannot create std::vector larger than max_size()'')
     (andthen (checknull (EVP_DigestFinal D (md_state ctx))) (\<lambda>d.
       throw_if (nat (md_size ctx) < length d) (Undefined_Behaviour ''write outside a buffer'')
         (Inr (d @ replicate (nat (md_size ctx) - length d) 0))))"

section \<open>Its uses\<close>

text \<open>\<open>sha256\<close>, \<open>sha384\<close> and \<open>sha512\<close> of \<open>crypto.h\<close>, which differ in the algorithm.\<close>

definition digest_of :: "('m, 'c) digest_library \<Rightarrow> 'm \<Rightarrow> bytes \<Rightarrow> bytes result" where
  "digest_of D md message = andthen (new_md_ctx D md) (\<lambda>ctx.
     andthen (md_update D ctx message) (md_final D))"

text \<open>The loops of \<open>verify_hash_match\<close>: over the inputs, and over the bytes of the two hashes.\<close>

fun hash_inputs :: "('m, 'c) digest_library \<Rightarrow> bytes list \<Rightarrow> 'c md_ctx \<Rightarrow> 'c md_ctx result" where
  "hash_inputs D [] ctx = Inr ctx"
| "hash_inputs D (input # inputs) ctx =
     (if length input > 0 then andthen (md_update D ctx input) (hash_inputs D inputs)
      else hash_inputs D inputs ctx)"

fun same_bytes :: "bytes \<Rightarrow> bytes \<Rightarrow> bool" where
  "same_bytes (h # hash) (e # expected) = (if h \<noteq> e then False else same_bytes hash expected)"
| "same_bytes _ _ = True"

definition hash_match :: "('m, 'c) digest_library \<Rightarrow> 'm \<Rightarrow> bytes list \<Rightarrow> bytes \<Rightarrow> bool result" where
  "hash_match D md inputs expected = andthen (new_md_ctx D md) (\<lambda>ctx.
     andthen (hash_inputs D inputs ctx) (\<lambda>ctx.
     andthen (md_final D ctx) (\<lambda>hash.
       Inr (if length hash \<noteq> length expected then False else same_bytes hash expected))))"

section \<open>What the library promises\<close>

text \<open>
  The documented behaviour: the state after some updates stands for the algorithm and the bytes it was
  given, and the digest is a function of them that has the size of the algorithm.
\<close>

definition digest_law ::
  "('m, 'c) digest_library \<Rightarrow> ('m \<Rightarrow> bytes \<Rightarrow> bytes) \<Rightarrow> ('m \<Rightarrow> bytes \<Rightarrow> 'c) \<Rightarrow> bool" where
  "digest_law D hash st \<longleftrightarrow>
     (\<forall>m. EVP_DigestInit D m = Some (st m [])) \<and>
     (\<forall>m b x. EVP_DigestUpdate D (st m b) x = Some (st m (b @ x))) \<and>
     (\<forall>m b. EVP_DigestFinal D (st m b) = Some (hash m b)) \<and>
     (\<forall>m b. EVP_MD_size D m = int (length (hash m b)))"

definition absorbed :: "('m, 'c) digest_library \<Rightarrow> ('m \<Rightarrow> bytes \<Rightarrow> 'c) \<Rightarrow> 'm \<Rightarrow> bytes \<Rightarrow> 'c md_ctx" where
  "absorbed D st m b = \<lparr>md_state = st m b, md_size = EVP_MD_size D m\<rparr>"

lemma md_ctx_law:
  assumes "digest_law D hash st"
  shows "new_md_ctx D m = Inr (absorbed D st m [])"
    and "md_update D (absorbed D st m b) x = Inr (absorbed D st m (b @ x))"
    and "md_final D (absorbed D st m b) = Inr (hash m b)"
proof -
  have s: "EVP_MD_size D m = int (length (hash m b))"
    and u: "EVP_DigestInit D m = Some (st m [])" "EVP_DigestUpdate D (st m b) x = Some (st m (b @ x))"
      "EVP_DigestFinal D (st m b) = Some (hash m b)"
    using assms unfolding digest_law_def by blast+
  show "new_md_ctx D m = Inr (absorbed D st m [])" "md_update D (absorbed D st m b) x = Inr (absorbed D st m (b @ x))"
    by (simp_all add: new_md_ctx_def md_update_def absorbed_def u)
  show "md_final D (absorbed D st m b) = Inr (hash m b)"
    by (simp add: md_final_def absorbed_def u s)
qed

lemma digest_of_law: "digest_law D hash st \<Longrightarrow> digest_of D m message = Inr (hash m message)"
  by (simp add: digest_of_def md_ctx_law)

lemma hash_inputs_law:
  "digest_law D hash st \<Longrightarrow> hash_inputs D inputs (absorbed D st m b) = Inr (absorbed D st m (b @ concat inputs))"
  by (induction inputs arbitrary: b) (simp_all add: md_ctx_law)

lemma same_bytes_eq: "length hash = length expected \<Longrightarrow> same_bytes hash expected \<longleftrightarrow> hash = expected"
  by (induction hash expected rule: same_bytes.induct) auto

lemma hash_match_law:
  "digest_law D hash st \<Longrightarrow> hash_match D m inputs expected = Inr (hash m (concat inputs) = expected)"
  by (auto simp: hash_match_def md_ctx_law hash_inputs_law same_bytes_eq)

end
