(* ===== verification/SslObjects.thy ===== *)
theory SslObjects
  imports Crypto
begin

text \<open>
  Parts of \<open>include/ravl/openssl.hpp\<close> that applications may use beside the verifiers: names, general names
  with the alternative names of a request, validity ranges of chains, and the verification of requests.
  What OpenSSL decodes from an object is a parameter, as in \<open>Crypto\<close>.
\<close>

section \<open>Common names\<close>

text \<open>
  \<open>UqX509_NAME::get_common_name\<close> over the data of the common names of the name, each read as a C string.
\<close>

fun common_name_loop :: "string list \<Rightarrow> string \<Rightarrow> string" where
  "common_name_loop [] r = r"
| "common_name_loop (cn # cns) r =
     common_name_loop cns (r @ (if length r = 0 then [] else '' '') @ c_str cn)"

definition get_common_name :: "string list \<Rightarrow> string" where
  "get_common_name cns = common_name_loop cns []"

text \<open>The names separated by blanks, without the empty ones at the start.\<close>

lemma common_name_loop_append:
  "r \<noteq> [] \<Longrightarrow> common_name_loop cns r = r @ concat (map (\<lambda>cn. CHR '' '' # c_str cn) cns)"
  by (induction cns arbitrary: r) simp_all

lemma get_common_name_eq:
  "get_common_name cns = (case dropWhile (\<lambda>cn. c_str cn = []) cns of
     [] \<Rightarrow> [] | cn # rest \<Rightarrow> c_str cn @ concat (map (\<lambda>cn. CHR '' '' # c_str cn) rest))"
  unfolding get_common_name_def
  by (induction cns) (simp_all add: common_name_loop_append)

section \<open>General names\<close>

datatype general_name_type = OtherName | EMail | DNS | X400 | DirName | EDIParty | URI | IPADD | RID

text \<open>
  The value of a general name is one of several structures; \<open>ASN1_String\<close> stands for those that share the
  layout of an \<open>ASN1_STRING\<close>.
\<close>

datatype general_name_value = ASN1_String bytes | Other_Structure

definition gen_type_number :: "general_name_type \<Rightarrow> int" where
  "gen_type_number t = (case t of OtherName \<Rightarrow> 0 | EMail \<Rightarrow> 1 | DNS \<Rightarrow> 2 | X400 \<Rightarrow> 3 | DirName \<Rightarrow> 4
     | EDIParty \<Rightarrow> 5 | URI \<Rightarrow> 6 | IPADD \<Rightarrow> 7 | RID \<Rightarrow> 8)"

record general_name =
  gn_type :: general_name_type
  gn_value :: general_name_value

text \<open>The union of \<open>GENERAL_NAME\<close> as the library fills it.\<close>

definition general_name_ok :: "general_name \<Rightarrow> bool" where
  "general_name_ok g \<longleftrightarrow> ((\<exists>b. gn_value g = ASN1_String b) \<longleftrightarrow> gn_type g \<in> {EMail, DNS, URI, IPADD})"

definition is_dns :: "general_name \<Rightarrow> bool" where
  "is_dns g = (gn_type g = DNS)"

text \<open>
  \<open>UqGENERAL_NAME::string\<close>: the value is cast to a string for the types 1, 2, 4, 6, 7 and 8; the result
  here is what is read through the string that it returns.
\<close>

definition general_name_string :: "general_name \<Rightarrow> bytes result" where
  "general_name_string g =
     (let r = gen_type_number (gn_type g)
      in if r = 1 \<or> r = 2 \<or> r = 4 \<or> r = 6 \<or> r = 7 \<or> r = 8
         then (case gn_value g of ASN1_String b \<Rightarrow> Inr b
                | Other_Structure \<Rightarrow> Inl (Undefined_Behaviour ''a structure is read as an ASN1_STRING''))
         else Inl (Runtime_Error ''non-string GENERAL_NAME''))"

lemma general_name_string_decides:
  assumes "general_name_ok g"
  shows "is_ok (general_name_string g) \<longleftrightarrow> gn_type g \<in> {EMail, DNS, URI, IPADD}"
    and "undefined_behaviour (general_name_string g) \<longleftrightarrow> gn_type g \<in> {DirName, RID}"
  using assms
  by (cases "gn_type g"; cases "gn_value g";
      auto simp: general_name_ok_def general_name_string_def gen_type_number_def)+

section \<open>The alternative names of a request\<close>

text \<open>An extension with the number of its object and its data.\<close>

record extension =
  ext_nid :: int
  ext_data :: bytes

definition NID_subject_alt_name :: int where "NID_subject_alt_name = 85"

text \<open>
  \<open>UqX509_REQ::get_subject_alternative_names\<close>: \<open>d2i\<close> is \<open>d2i_GENERAL_NAMES\<close>, with None for null, of which
  \<open>sk_GENERAL_NAME_num\<close> is -1.  Each name is copied into the result.
\<close>

fun push_names :: "'g list \<Rightarrow> 'g list \<Rightarrow> 'g list" where
  "push_names [] r = r"
| "push_names (n # ns) r = push_names ns (r @ [n])"

fun alternative_names_loop :: "(bytes \<Rightarrow> 'g list option) \<Rightarrow> extension list \<Rightarrow> 'g list \<Rightarrow> 'g list" where
  "alternative_names_loop d2i [] r = r"
| "alternative_names_loop d2i (ext # exts) r =
     (if ext_nid ext = NID_subject_alt_name
      then (case d2i (ext_data ext) of
          None \<Rightarrow> alternative_names_loop d2i exts r
        | Some names \<Rightarrow> alternative_names_loop d2i exts (push_names names r))
      else alternative_names_loop d2i exts r)"

definition get_subject_alternative_names :: "(bytes \<Rightarrow> 'g list option) \<Rightarrow> extension list \<Rightarrow> 'g list" where
  "get_subject_alternative_names d2i exts = alternative_names_loop d2i exts []"

lemma push_names_eq: "push_names ns r = r @ ns"
  by (induction ns arbitrary: r) simp_all

lemma get_subject_alternative_names_eq:
  "get_subject_alternative_names d2i exts = concat (List.map_filter (d2i \<circ> ext_data)
     (filter (\<lambda>e. ext_nid e = NID_subject_alt_name) exts))"
proof -
  have "alternative_names_loop d2i exts r = r @ concat (List.map_filter (d2i \<circ> ext_data)
     (filter (\<lambda>e. ext_nid e = NID_subject_alt_name) exts))" for r
    by (induction exts arbitrary: r)
      (auto simp: map_filter_simps push_names_eq split: option.split)
  then show ?thesis by (simp add: get_subject_alternative_names_def)
qed

text \<open>\<open>UqX509_REQ::verify\<close> returns the code of \<open>X509_REQ_verify\<close>, negative for an error, as \<open>bool\<close>.\<close>

definition req_verify :: "int \<Rightarrow> bool" where
  "req_verify rc = (rc \<noteq> 0)"

section \<open>Validity ranges\<close>

text \<open>\<open>ASN1_TIME_compare\<close> (-1, 0, 1, and -2 for an error) and the times of a certificate.\<close>

record ('h, 't) time_api =
  time_compare :: "'t \<Rightarrow> 't \<Rightarrow> int"
  not_before :: "'h \<Rightarrow> 't"
  not_after :: "'h \<Rightarrow> 't"

fun validity_loop ::
  "('h, 't) time_api \<Rightarrow> 'h list \<Rightarrow> 't option \<Rightarrow> 't option \<Rightarrow> 't option \<times> 't option" where
  "validity_loop A [] latest_from earliest_to = (latest_from, earliest_to)"
| "validity_loop A (c # cs) latest_from earliest_to =
     (let nb = not_before A c; na = not_after A c;
          lf = (case latest_from of None \<Rightarrow> Some nb
                | Some t \<Rightarrow> if time_compare A t nb = -1 then Some nb else Some t);
          et = (case earliest_to of None \<Rightarrow> Some na
                | Some t \<Rightarrow> if time_compare A t na = 1 then Some na else Some t)
      in validity_loop A cs lf et)"

definition get_validity_range :: "('h, 't) time_api \<Rightarrow> 'h list \<Rightarrow> ('t \<times> 't) result" where
  "get_validity_range A stack =
     throw_if (stack = []) (Runtime_Error ''no certificate change to compute validity ranges for'')
     (case validity_loop A stack None None of
        (Some from, Some to) \<Rightarrow> Inr (from, to)
      | _ \<Rightarrow> Inl (Undefined_Behaviour ''ASN1_TIME_to_tm of a null pointer''))"

text \<open>
  When the comparison follows an order of the times, given by \<open>key\<close>, the range begins at the latest
  beginning and ends at the earliest end of the certificates.
\<close>

definition time_order :: "('h, 't) time_api \<Rightarrow> ('t \<Rightarrow> int) \<Rightarrow> bool" where
  "time_order A key \<longleftrightarrow> (\<forall>s t. time_compare A s t = sgn (key s - key t))"

lemma validity_loop_Some:
  assumes "time_order A key"
  shows "\<exists>f' t'. validity_loop A cs (Some f) (Some t) = (Some f', Some t')
     \<and> f' \<in> insert f (not_before A ` set cs) \<and> (\<forall>x \<in> insert f (not_before A ` set cs). key x \<le> key f')
     \<and> t' \<in> insert t (not_after A ` set cs) \<and> (\<forall>x \<in> insert t (not_after A ` set cs). key t' \<le> key x)"
proof (induction cs arbitrary: f t)
  case (Cons c cs)
  have k: "time_compare A s u = -1 \<longleftrightarrow> key s < key u" "time_compare A s u = 1 \<longleftrightarrow> key u < key s" for s u
    using assms by (simp_all add: time_order_def sgn_if)
  let ?f = "if key f < key (not_before A c) then not_before A c else f"
  let ?t = "if key (not_after A c) < key t then not_after A c else t"
  obtain f' t' where v: "validity_loop A cs (Some ?f) (Some ?t) = (Some f', Some t')"
    and i: "f' \<in> insert ?f (not_before A ` set cs)" "\<forall>x \<in> insert ?f (not_before A ` set cs). key x \<le> key f'"
      "t' \<in> insert ?t (not_after A ` set cs)" "\<forall>x \<in> insert ?t (not_after A ` set cs). key t' \<le> key x"
    using Cons.IH[of ?f ?t] by blast
  have "validity_loop A (c # cs) (Some f) (Some t) = (Some f', Some t')"
    using v by (simp add: Let_def k if_distrib[of Some] cong: if_cong)
  moreover have "f' \<in> insert f (not_before A ` set (c # cs))" "t' \<in> insert t (not_after A ` set (c # cs))"
    using i(1,3) by (auto split: if_splits)
  moreover have "\<forall>x \<in> insert f (not_before A ` set (c # cs)). key x \<le> key f'"
    "\<forall>x \<in> insert t (not_after A ` set (c # cs)). key t' \<le> key x"
    using i(2,4) by (auto split: if_splits)
  ultimately show ?case by blast
qed simp

lemma get_validity_range_order:
  assumes "time_order A key" and "get_validity_range A stack = Inr (f, t)"
  shows "f \<in> not_before A ` set stack" "c \<in> set stack \<Longrightarrow> key (not_before A c) \<le> key f"
    and "t \<in> not_after A ` set stack" "c \<in> set stack \<Longrightarrow> key t \<le> key (not_after A c)"
proof -
  from assms(2) obtain c' cs where s: "stack = c' # cs"
    by (cases stack) (auto simp: get_validity_range_def)
  obtain f' t' where v: "validity_loop A cs (Some (not_before A c')) (Some (not_after A c')) = (Some f', Some t')"
    and i: "f' \<in> insert (not_before A c') (not_before A ` set cs)"
      "\<forall>x \<in> insert (not_before A c') (not_before A ` set cs). key x \<le> key f'"
      "t' \<in> insert (not_after A c') (not_after A ` set cs)"
      "\<forall>x \<in> insert (not_after A c') (not_after A ` set cs). key t' \<le> key x"
    using validity_loop_Some[OF assms(1), of cs "not_before A c'" "not_after A c'"] by blast
  have "f = f'" "t = t'" using assms(2) v by (simp_all add: get_validity_range_def s Let_def)
  with i show "f \<in> not_before A ` set stack" "c \<in> set stack \<Longrightarrow> key (not_before A c) \<le> key f"
    "t \<in> not_after A ` set stack" "c \<in> set stack \<Longrightarrow> key t \<le> key (not_after A c)"
    by (auto simp: s)
qed

lemma get_validity_range_total:
  "is_ok (get_validity_range A stack) \<longleftrightarrow> stack \<noteq> []"
proof -
  have v: "\<exists>f' t'. validity_loop A cs (Some f) (Some t) = (Some f', Some t')" for cs f t
    by (induction cs arbitrary: f t) (simp_all add: Let_def)
  show ?thesis
  proof (cases stack)
    case (Cons c cs)
    obtain f' t' where "validity_loop A cs (Some (not_before A c)) (Some (not_after A c)) = (Some f', Some t')"
      using v by blast
    then show ?thesis by (simp add: get_validity_range_def Cons Let_def)
  qed (simp add: get_validity_range_def)
qed

end
