(* ===== verification/SslErrors.thy ===== *)
theory SslErrors
  imports Util
begin

text \<open>
  Errors of OpenSSL as \<open>include/ravl/openssl.hpp\<close> reports them: the queue of error codes of the thread, the
  functions that take codes from it and the three checks that follow a call of the library.  Elsewhere in
  the model a failing call is one that leaves an error in the queue.
\<close>

section \<open>The queue\<close>

text \<open>\<open>ERR_get_error\<close> takes the oldest code and returns 0 when there is none.\<close>

type_synonym error_queue = "u64 list"

definition ERR_get_error :: "error_queue \<Rightarrow> u64 \<times> error_queue" where
  "ERR_get_error q = (case q of [] \<Rightarrow> (0, []) | ec # q \<Rightarrow> (ec, q))"

section \<open>Texts\<close>

text \<open>
  \<open>error_string(int)\<close>: the library writes at most 255 characters and a NUL into a buffer of 256; the
  buffer is cut at the first NUL.  A code passed as \<open>int\<close> is widened with its sign.
\<close>

definition error_string :: "(u64 \<Rightarrow> string) \<Rightarrow> 32 word \<Rightarrow> string" where
  "error_string err_text ec = (if ec \<noteq> 0 then c_str (take 255 (err_text (signed ec))) else ''unknown error'')"

text \<open>\<open>get_errors(int)\<close> empties the queue up to the first code whose lower half is 0.\<close>

fun get_errors_loop :: "(u64 \<Rightarrow> string) \<Rightarrow> 32 word \<Rightarrow> error_queue \<Rightarrow> string \<Rightarrow> string \<times> error_queue" where
  "get_errors_loop err_text ec [] r = (if ec = 0 then (r, []) else (r @ '' '' @ error_string err_text ec, []))"
| "get_errors_loop err_text ec (e # q) r =
     (if ec = 0 then (r, e # q)
      else get_errors_loop err_text (ucast e) q (r @ '' '' @ error_string err_text ec))"

definition get_errors :: "(u64 \<Rightarrow> string) \<Rightarrow> 32 word \<Rightarrow> error_queue \<Rightarrow> string \<times> error_queue" where
  "get_errors err_text ec q = get_errors_loop err_text ec q ''OpenSSL error(s):''"

section \<open>The checks\<close>

text \<open>Each check takes a code from the queue, whatever the call has returned.\<close>

definition CHECK1 :: "(u64 \<Rightarrow> string) \<Rightarrow> int \<Rightarrow> error_queue \<Rightarrow> error_queue \<times> unit result" where
  "CHECK1 err_text rc q = (let (ec, q) = ERR_get_error q in
     if rc \<noteq> 1 \<and> ec \<noteq> 0 then (let (s, q) = get_errors err_text (ucast ec) q in (q, Inl (Runtime_Error s)))
     else (q, Inr ()))"

definition CHECK0 :: "(u64 \<Rightarrow> string) \<Rightarrow> int \<Rightarrow> error_queue \<Rightarrow> error_queue \<times> unit result" where
  "CHECK0 err_text rc q = (let (ec, q) = ERR_get_error q in
     if rc = 0 \<and> ec \<noteq> 0 then (let (s, q) = get_errors err_text (ucast ec) q in (q, Inl (Runtime_Error s)))
     else (q, Inr ()))"

definition CHECKNULL :: "(u64 \<Rightarrow> string) \<Rightarrow> 'p option \<Rightarrow> error_queue \<Rightarrow> error_queue \<times> unit result" where
  "CHECKNULL err_text p q = (case p of
       Some _ \<Rightarrow> (q, Inr ())
     | None \<Rightarrow> (let (ec, q) = ERR_get_error q; (s, q) = get_errors err_text (ucast ec) q
         in (q, Inl (Runtime_Error (''OpenSSL object creation failed because of '' @ s)))))"

section \<open>What the checks decide\<close>

text \<open>Codes that fit the conversion to \<open>int\<close> without becoming 0, as all of the library's do.\<close>

definition proper_codes :: "error_queue \<Rightarrow> bool" where
  "proper_codes q \<longleftrightarrow> (\<forall>e \<in> set q. (ucast e :: 32 word) \<noteq> 0)"

lemma get_errors_loop_empties:
  "proper_codes q \<Longrightarrow> ec \<noteq> 0 \<Longrightarrow> get_errors_loop err_text ec q r =
     (r @ concat (map (\<lambda>e. '' '' @ error_string err_text e) (ec # map ucast q)), [])"
  by (induction err_text ec q r rule: get_errors_loop.induct) (simp_all add: proper_codes_def)

text \<open>
  A call that failed without an error in the queue passes the check; a call that succeeded removes an
  error that an earlier one has left.
\<close>

lemma CHECK1_decides:
  assumes "proper_codes q" and "0 \<notin> set q"
  shows "CHECK1 err_text rc q =
     (if rc \<noteq> 1 \<and> q \<noteq> []
      then ([], Inl (Runtime_Error (''OpenSSL error(s):'' @ concat (map (\<lambda>e. '' '' @ error_string err_text (ucast e)) q))))
      else (tl q, Inr ()))"
proof (cases q)
  case Nil
  then show ?thesis by (simp add: CHECK1_def ERR_get_error_def)
next
  case (Cons e es)
  with assms have "proper_codes es" "(ucast e :: 32 word) \<noteq> 0" "e \<noteq> 0" by (auto simp: proper_codes_def)
  then show ?thesis
    using get_errors_loop_empties[of es "ucast e" err_text "''OpenSSL error(s):''"]
    by (simp add: CHECK1_def ERR_get_error_def get_errors_def Cons comp_def)
qed

lemma CHECKNULL_decides: "snd (CHECKNULL err_text p q) = Inr () \<longleftrightarrow> p \<noteq> None"
  by (auto simp: CHECKNULL_def split: option.split prod.split)

end
