(* ===== verification/SslBuffers.thy ===== *)
theory SslBuffers
  imports Crypto
begin

text \<open>
  \<open>UqBIO\<close> of \<open>openssl.hpp\<close>: the memory buffers through which every object is decoded and printed.  The size
  of a text is given to OpenSSL as an \<open>int\<close>.
\<close>

section \<open>Reading from memory\<close>

text \<open>
  \<open>BIO_new_mem_buf\<close>: a null pointer is an error; a negative size means that the memory is a text that ends
  at its first zero.  \<open>mem\<close> is the readable memory from the pointer on.
\<close>

definition BIO_new_mem_buf :: "bytes option \<Rightarrow> 32 word \<Rightarrow> bytes option result" where
  "BIO_new_mem_buf buf len = (case buf of
       None \<Rightarrow> Inr None
     | Some mem \<Rightarrow>
         if sint len < 0
         then throw_if (0 \<notin> set mem) (Undefined_Behaviour ''read outside a buffer'')
                (Inr (Some (takeWhile (\<lambda>b. b \<noteq> 0) mem)))
         else throw_if (length mem < unat len) (Undefined_Behaviour ''read outside a buffer'')
                (Inr (Some (take (unat len) mem))))"

text \<open>\<open>UqBIO(const void*, int)\<close>, and what the object then holds.\<close>

definition bio_of_memory :: "bytes option \<Rightarrow> 32 word \<Rightarrow> bytes result" where
  "bio_of_memory buf len = andthen (BIO_new_mem_buf buf len) checknull"

text \<open>
  The constructors for a string, whose memory ends with a NUL, and for a vector or a span, which has no
  memory when it is empty.
\<close>

definition bio_of_string :: "string \<Rightarrow> bytes result" where
  "bio_of_string s = bio_of_memory (Some (bytes_of s @ [0])) (of_nat (length s))"

definition bio_of_vector :: "bytes \<Rightarrow> bytes result" where
  "bio_of_vector d = bio_of_memory (if d = [] then None else Some d) (of_nat (length d))"

section \<open>Writing to memory\<close>

text \<open>
  \<open>UqBIO()\<close> is empty; the conversions return all that was written.  A function that prints an object
  returns a code and what it wrote, and most methods check the code with \<open>CHECK1\<close> (here, as elsewhere, a
  call that fails leaves an error).
\<close>

definition bio_empty :: bytes where
  "bio_empty = []"

definition bio_write :: "bytes \<Rightarrow> bytes \<Rightarrow> bytes" where
  "bio_write bio d = bio @ d"

definition bio_to_string :: "bytes \<Rightarrow> string" where
  "bio_to_string bio = string_of bio"

definition bio_to_vector :: "bytes \<Rightarrow> bytes" where
  "bio_to_vector bio = bio"

definition checked_text :: "int \<times> bytes \<Rightarrow> string result" where
  "checked_text printed = (let (rc, d) = printed; bio = bio_write bio_empty d
     in throw_if (rc \<noteq> 1) openssl_error (Inr (bio_to_string bio)))"

definition unchecked_text :: "int \<times> bytes \<Rightarrow> string result" where
  "unchecked_text printed = (let (rc, d) = printed; bio = bio_write bio_empty d in Inr (bio_to_string bio))"

definition checked_bytes :: "int \<times> bytes \<Rightarrow> bytes result" where
  "checked_bytes printed = (let (rc, d) = printed; bio = bio_write bio_empty d
     in throw_if (rc \<noteq> 1) openssl_error (Inr (bio_to_vector bio)))"

section \<open>What is read\<close>

lemma sint_of_size:
  "sint (word_of_nat n :: 32 word) < 0 \<longleftrightarrow> 2 ^ 31 \<le> n mod 2 ^ 32"
proof -
  have "sint (word_of_nat n :: 32 word) < 0 \<longleftrightarrow> bit (int n) 31"
    by (simp add: signed_of_nat)
  also have "\<dots> \<longleftrightarrow> bit n 31" by (rule bit_of_nat_iff_bit)
  also have "\<dots> \<longleftrightarrow> odd (n div 2 ^ 31)" by (rule bit_iff_odd)
  also have "\<dots> \<longleftrightarrow> 2 ^ 31 \<le> n mod 2 ^ 32"
  proof -
    have "n mod (2 ^ 31 * 2) = 2 ^ 31 * (n div 2 ^ 31 mod 2) + n mod 2 ^ 31" by (rule mod_mult2_eq)
    moreover have "n mod 2 ^ 31 < 2 ^ 31" by simp
    ultimately show ?thesis by (cases "even (n div 2 ^ 31)") (simp_all add: odd_iff_mod_2_eq_one)
  qed
  finally show ?thesis .
qed

lemma unat_of_size: "unat (word_of_nat n :: 32 word) = n mod 2 ^ 32"
  by (simp add: unat_of_nat)

text \<open>
  A text of less than 2 GB is read as it is; of a longer one only the remainder of its size is read, or the
  part before its first NUL.
\<close>

lemma bio_of_string_reads: "bio_of_string s = Inr (bytes_of (bio_text s))"
proof (cases "length s mod 2 ^ 32 < 2 ^ 31")
  case True
  then have "\<not> sint (word_of_nat (length s) :: 32 word) < 0" by (simp only: sint_of_size not_le)
  moreover have "length s mod 2 ^ 32 \<le> length s" by (rule mod_less_eq_dividend)
  ultimately show ?thesis using True
    unfolding bio_of_string_def bio_of_memory_def BIO_new_mem_buf_def option.case unat_of_size
    by (simp add: throw_if_def bytes_of_def take_map bio_text_def)
next
  case False
  then have "sint (word_of_nat (length s) :: 32 word) < 0" by (simp only: sint_of_size not_less)
  moreover have "takeWhile (\<lambda>b. b \<noteq> 0) (bytes_of s @ [0]) = bytes_of (c_str s)"
  proof -
    have "byte_of_char c = 0 \<longleftrightarrow> c = CHR 0x00" for c
    proof
      assume "byte_of_char c = 0"
      then have "char_of_byte 0 = c" using char_of_byte_byte_of_char[of c] by simp
      then have "of_char c = (0 :: nat)" using of_char_of[of "0 :: nat"] by (simp add: char_of_byte_def)
      then show "c = CHR 0x00" by (cases c) (simp add: of_char_Char)
    qed (simp add: byte_of_char_def)
    then show ?thesis by (induction s) (simp_all add: bytes_of_def c_str_def)
  qed
  ultimately show ?thesis using False
    unfolding bio_of_string_def bio_of_memory_def BIO_new_mem_buf_def option.case
    by (simp add: throw_if_def bio_text_def)
qed

lemma bio_of_vector_reads:
  assumes "length d < 2 ^ 31"
  shows "bio_of_vector d = (if d = [] then Inl openssl_error else Inr d)"
proof -
  have m: "length d mod 2 ^ 32 = length d" using assms by simp
  then have "\<not> sint (word_of_nat (length d) :: 32 word) < 0" using assms by (simp only: sint_of_size not_le)
  then show ?thesis
    unfolding bio_of_vector_def bio_of_memory_def BIO_new_mem_buf_def unat_of_size m by simp
qed


text \<open>What a checked method has written as text is read back by the library's inverse function.\<close>

lemma text_read_back:
  assumes "\<forall>b. printed = (1, b) \<longrightarrow> read b = Some x" and "checked_text printed = Inr t"
    and "length t < 2 ^ 31"
  shows "andthen (bio_of_string t) (\<lambda>mem. checknull (read mem)) = Inr x"
proof -
  obtain b where b: "printed = (1, b)" "t = string_of b"
    using assms(2) by (auto simp: checked_text_def bio_write_def bio_empty_def bio_to_string_def throw_if_Inr
        split: prod.splits)
  have m: "length t mod 2 ^ 32 = length t" using assms(3) by simp
  have "bio_of_string t = Inr (bytes_of t)" unfolding bio_of_string_reads bio_text_def m using assms(3) by simp
  with assms(1) b show ?thesis by simp
qed

lemma bytes_read_back:
  assumes "\<forall>b. printed = (1, b) \<longrightarrow> read b = Some x" and "checked_bytes printed = Inr d"
    and "length d < 2 ^ 31" and "d \<noteq> []"
  shows "andthen (bio_of_vector d) (\<lambda>mem. checknull (read mem)) = Inr x"
proof -
  have "printed = (1, d)"
    using assms(2) by (auto simp: checked_bytes_def bio_write_def bio_empty_def bio_to_vector_def throw_if_Inr
        split: prod.splits)
  with assms(1) show ?thesis using bio_of_vector_reads[OF assms(3)] assms(4) by simp
qed

end
