(* ===== verification/SslRequests.thy ===== *)
theory SslRequests
  imports SslObjects SslErrors SslBuffers
begin

text \<open>
  Names, general names, extensions and certificate requests as \<open>openssl.hpp\<close> builds, signs, writes and reads
  them.  What OpenSSL does with an object is a parameter; None is a null pointer, or a code that \<open>CHECK1\<close>
  refuses together with an error in the queue, and both make the check throw.
\<close>

section \<open>Names\<close>

record name_entry =
  entry_nid :: int
  entry_data :: string

definition NID_commonName :: int where "NID_commonName = 13"

text \<open>
  \<open>UqX509_NAME(common_name, sans)\<close>; \<open>add\<close> is \<open>X509_NAME_add_entry_by_NID\<close> with the type \<open>MBSTRING_ASC\<close>, the
  location -1 and the set 0.  The alternative names become entries of the name, not an extension.
\<close>

type_synonym add_entry = "int \<Rightarrow> string \<Rightarrow> name_entry list \<Rightarrow> name_entry list option"

fun add_alternative_names :: "add_entry \<Rightarrow> string list \<Rightarrow> name_entry list \<Rightarrow> name_entry list result" where
  "add_alternative_names add [] n = Inr n"
| "add_alternative_names add (san # sans) n =
     andthen (checknull (add NID_subject_alt_name san n)) (add_alternative_names add sans)"

definition new_x509_name :: "add_entry \<Rightarrow> string \<Rightarrow> string list \<Rightarrow> name_entry list result" where
  "new_x509_name add common_name sans =
     andthen (checknull (add NID_commonName common_name [])) (add_alternative_names add sans)"

text \<open>The library appends the entry.\<close>

definition appends_entries :: "add_entry \<Rightarrow> bool" where
  "appends_entries add \<longleftrightarrow> (\<forall>nid t n n'. add nid t n = Some n' \<longrightarrow> n' = n @ [\<lparr>entry_nid = nid, entry_data = t\<rparr>])"

definition common_names :: "name_entry list \<Rightarrow> string list" where
  "common_names n = map entry_data (filter (\<lambda>e. entry_nid e = NID_commonName) n)"

lemma add_alternative_names_Inr:
  "appends_entries add \<Longrightarrow> add_alternative_names add sans n = Inr n' \<Longrightarrow>
     n' = n @ map (\<lambda>san. \<lparr>entry_nid = NID_subject_alt_name, entry_data = san\<rparr>) sans"
proof (induction sans arbitrary: n)
  case (Cons san sans)
  then obtain m where m: "add NID_subject_alt_name san n = Some m" "add_alternative_names add sans m = Inr n'"
    by (auto simp: andthen_Inr checknull_Inr)
  have "m = n @ [\<lparr>entry_nid = NID_subject_alt_name, entry_data = san\<rparr>]"
    using Cons.prems(1) m(1) unfolding appends_entries_def by blast
  then show ?case using Cons.IH[OF Cons.prems(1) m(2)] by simp
qed simp

lemma new_x509_name_Inr:
  assumes "appends_entries add" and "new_x509_name add cn sans = Inr n"
  shows "n = \<lparr>entry_nid = NID_commonName, entry_data = cn\<rparr>
      # map (\<lambda>san. \<lparr>entry_nid = NID_subject_alt_name, entry_data = san\<rparr>) sans"
proof -
  obtain m where m: "add NID_commonName cn [] = Some m" "add_alternative_names add sans m = Inr n"
    using assms(2) by (auto simp: new_x509_name_def andthen_Inr checknull_Inr)
  have "m = [] @ [\<lparr>entry_nid = NID_commonName, entry_data = cn\<rparr>]"
    using assms(1) m(1) unfolding appends_entries_def by blast
  then show ?thesis using add_alternative_names_Inr[OF assms(1) m(2)] by simp
qed

text \<open>The common name is read back up to its first NUL, whatever the alternative names are.\<close>

lemma new_x509_name_common_name:
  assumes "appends_entries add" and "new_x509_name add cn sans = Inr n"
  shows "get_common_name (common_names n) = c_str cn"
proof -
  have "filter (\<lambda>e. entry_nid e = NID_commonName)
      (map (\<lambda>san. \<lparr>entry_nid = NID_subject_alt_name, entry_data = san\<rparr>) sans) = []"
    by (simp add: filter_empty_conv NID_commonName_def NID_subject_alt_name_def)
  then have "common_names n = [cn]" by (simp add: new_x509_name_Inr[OF assms] common_names_def)
  then show ?thesis by (simp add: get_common_name_def)
qed

section \<open>General names\<close>

text \<open>
  \<open>UqGENERAL_NAME(type, value)\<close>: \<open>GENERAL_NAME_set0_value\<close> stores the pointer of the string for whatever type
  it is given.
\<close>

definition make_general_name :: "general_name_type \<Rightarrow> bytes \<Rightarrow> general_name" where
  "make_general_name t b = \<lparr>gn_type = t, gn_value = ASN1_String b\<rparr>"

lemma make_general_name_ok: "general_name_ok (make_general_name t b) \<longleftrightarrow> t \<in> {EMail, DNS, URI, IPADD}"
  by (simp add: general_name_ok_def make_general_name_def)

lemma make_general_name_string:
  "t \<in> {EMail, DNS, URI, IPADD} \<Longrightarrow> general_name_string (make_general_name t b) = Inr b"
  by (auto simp: general_name_string_def make_general_name_def gen_type_number_def)

text \<open>\<open>UqGENERAL_NAMES(name)\<close> pushes a copy on an empty stack.\<close>

definition general_names :: "'g \<Rightarrow> 'g list" where
  "general_names n = push_names [n] []"

section \<open>Extensions\<close>

text \<open>
  \<open>X509_EXTENSION_create_by_NID\<close> as \<open>create\<close>.  The constructor from data checks what it returns; the one from
  names does not, so that its object may hold a null pointer.  A size of -1 from \<open>i2d_GENERAL_NAMES\<close> (None)
  is the size of a string.
\<close>

type_synonym create_extension = "int \<Rightarrow> bool \<Rightarrow> bytes \<Rightarrow> extension option"

definition new_extension :: "create_extension \<Rightarrow> int \<Rightarrow> bool \<Rightarrow> bytes \<Rightarrow> extension result" where
  "new_extension create nid crit data = checknull (create nid crit data)"

definition names_extension ::
  "('g list \<Rightarrow> bytes option) \<Rightarrow> create_extension \<Rightarrow> int \<Rightarrow> bool \<Rightarrow> 'g list \<Rightarrow> extension option result" where
  "names_extension i2d create nid crit names = (case i2d names of
       None \<Rightarrow> Inl (Logic_Error ''basic_string::_M_create'')
     | Some tmp \<Rightarrow> Inr (create nid crit tmp))"

definition name_extension ::
  "('g list \<Rightarrow> bytes option) \<Rightarrow> create_extension \<Rightarrow> int \<Rightarrow> bool \<Rightarrow> 'g \<Rightarrow> extension option result" where
  "name_extension i2d create nid crit name = names_extension i2d create nid crit (general_names name)"

text \<open>
  The copy of an extension (the library copies null to null), and the stack of one extension.
\<close>

definition extension_copy :: "extension option \<Rightarrow> extension result" where
  "extension_copy ext = checknull ext"

definition extension_stack :: "extension option \<Rightarrow> extension list result" where
  "extension_stack ext = andthen (extension_copy ext) (\<lambda>e. Inr (push_names [e] []))"

section \<open>Requests\<close>

text \<open>What the library does with requests; a function that writes returns its code and what it wrote.\<close>

record 'r request_library =
  X509_REQ_new :: "'r option"
  X509_REQ_set_subject_name :: "name_entry list \<Rightarrow> 'r \<Rightarrow> 'r option"
  X509_REQ_add_extensions :: "extension list \<Rightarrow> 'r \<Rightarrow> 'r option"
  X509_REQ_get_extensions :: "'r \<Rightarrow> extension list option"
  PEM_read_bio_X509_REQ :: "bytes \<Rightarrow> 'r option"
  d2i_X509_REQ_bio :: "bytes \<Rightarrow> 'r option"
  PEM_write_bio_X509_REQ :: "'r \<Rightarrow> int \<times> bytes"
  i2d_X509_REQ_bio :: "'r \<Rightarrow> int \<times> bytes"

definition req_decode :: "'r request_library \<Rightarrow> bytes \<Rightarrow> bool \<Rightarrow> 'r result" where
  "req_decode A mem pem = checknull (if pem then PEM_read_bio_X509_REQ A mem else d2i_X509_REQ_bio A mem)"

definition req_of_vector :: "'r request_library \<Rightarrow> bytes \<Rightarrow> bool \<Rightarrow> 'r result" where
  "req_of_vector A data pem = andthen (bio_of_vector data) (\<lambda>mem. req_decode A mem pem)"

definition req_set_subject_name :: "'r request_library \<Rightarrow> name_entry list \<Rightarrow> 'r \<Rightarrow> 'r result" where
  "req_set_subject_name A name r = checknull (X509_REQ_set_subject_name A name r)"

definition req_of_name :: "'r request_library \<Rightarrow> name_entry list \<Rightarrow> 'r result" where
  "req_of_name A name = andthen (checknull (X509_REQ_new A)) (req_set_subject_name A name)"

definition req_add_stack :: "'r request_library \<Rightarrow> extension list \<Rightarrow> 'r \<Rightarrow> 'r result" where
  "req_add_stack A exts r = checknull (X509_REQ_add_extensions A exts r)"

definition req_add :: "'r request_library \<Rightarrow> extension option \<Rightarrow> 'r \<Rightarrow> 'r result" where
  "req_add A ext r = andthen (extension_stack ext) (\<lambda>exts. req_add_stack A exts r)"

text \<open>A null pointer makes a stack that has no elements.\<close>

definition req_get_extensions :: "'r request_library \<Rightarrow> 'r \<Rightarrow> extension list" where
  "req_get_extensions A r = (case X509_REQ_get_extensions A r of None \<Rightarrow> [] | Some exts \<Rightarrow> exts)"

definition req_alternative_names :: "'r request_library \<Rightarrow> (bytes \<Rightarrow> 'g list option) \<Rightarrow> 'r \<Rightarrow> 'g list" where
  "req_alternative_names A d2i r = get_subject_alternative_names d2i (req_get_extensions A r)"

definition req_pem :: "'r request_library \<Rightarrow> 'r \<Rightarrow> string result" where
  "req_pem A r = checked_text (PEM_write_bio_X509_REQ A r)"

definition req_der :: "'r request_library \<Rightarrow> 'r \<Rightarrow> bytes result" where
  "req_der A r = checked_bytes (i2d_X509_REQ_bio A r)"

section \<open>Signing\<close>

text \<open>
  \<open>UqX509_REQ::sign\<close> and \<open>UqX509::sign\<close>.  \<open>X509_REQ_sign\<close> and \<open>X509_sign\<close> return the size of the signature,
  and 0 for an error; the code goes to \<open>CHECK1\<close> nevertheless, so here the queue of errors is explicit.
\<close>

definition sign_object ::
  "(u64 \<Rightarrow> string) \<Rightarrow> ('r \<Rightarrow> 'r \<times> int \<times> error_queue) \<Rightarrow> 'r \<Rightarrow> error_queue \<Rightarrow> 'r \<times> error_queue \<times> unit result" where
  "sign_object err_text sign r q =
     (let (r, rc, errs) = sign r; (q, x) = CHECK1 err_text rc (q @ errs) in (r, q, x))"

text \<open>A signature that succeeded is refused exactly when an earlier error is still in the queue.\<close>

lemma sign_object_decides:
  assumes "sign r = (r', rc, [])" and "rc \<noteq> 1" and "proper_codes q" and "0 \<notin> set q"
  shows "sign_object err_text sign r q = (r', [],
     if q = [] then Inr () else Inl (Runtime_Error
       (''OpenSSL error(s):'' @ concat (map (\<lambda>e. '' '' @ error_string err_text (ucast e)) q))))"
  using CHECK1_decides[OF assms(3,4), of err_text rc] assms(1,2)
  by (simp add: sign_object_def)

section \<open>Key generation\<close>

text \<open>
  \<open>keygen\<close> checks the code and the pointer it was given.  \<open>set_ec_paramgen_curve_nid\<close> sets the curve of its
  argument, not of the context it is called on.
\<close>

definition keygen :: "('c \<Rightarrow> bool \<times> 'k option) \<Rightarrow> 'c \<Rightarrow> 'k result" where
  "keygen EVP_PKEY_keygen ctx = (let (ok, ppkey) = EVP_PKEY_keygen ctx
     in throw_if (\<not> ok) openssl_error (checknull ppkey))"

definition set_ec_paramgen_curve_nid ::
  "('c \<Rightarrow> int \<Rightarrow> 'c option) \<Rightarrow> 'c \<Rightarrow> 'c \<Rightarrow> int \<Rightarrow> ('c \<times> 'c) result" where
  "set_ec_paramgen_curve_nid set_curve this pkctx nid =
     andthen (checknull (set_curve pkctx nid)) (\<lambda>pkctx. Inr (this, pkctx))"

section \<open>Revoked certificates\<close>

text \<open>
  \<open>UqX509_CRL::revoked\<close> copies the list, and makes an empty one of a null pointer.  \<open>serialNumber\<close> makes a
  string of what \<open>i2s_ASN1_INTEGER\<close> returns, which is null when memory is short.
\<close>

definition revoked :: "'v list option \<Rightarrow> 'v list" where
  "revoked sk = (case sk of None \<Rightarrow> [] | Some copy \<Rightarrow> copy)"

definition serial_number :: "('v \<Rightarrow> string option) \<Rightarrow> 'v \<Rightarrow> string result" where
  "serial_number i2s x = (case i2s x of
       None \<Rightarrow> Inl (Undefined_Behaviour ''string from a null pointer'')
     | Some c \<Rightarrow> Inr (c_str c))"

section \<open>What a request keeps\<close>

text \<open>
  The documented behaviour: a decoder inverts its encoder, an extension has the object and the data it is
  made of, and the first extensions added to a request are its extensions.
\<close>

definition names_law :: "('g list \<Rightarrow> bytes option) \<Rightarrow> (bytes \<Rightarrow> 'g list option) \<Rightarrow> bool" where
  "names_law i2d d2i \<longleftrightarrow> (\<forall>ns b. i2d ns = Some b \<longrightarrow> d2i b = Some ns)"

definition create_law :: "create_extension \<Rightarrow> bool" where
  "create_law create \<longleftrightarrow> (\<forall>nid crit b e. create nid crit b = Some e \<longrightarrow> ext_nid e = nid \<and> ext_data e = b)"

definition request_law :: "'r request_library \<Rightarrow> bool" where
  "request_law A \<longleftrightarrow>
     (\<forall>r es r'. X509_REQ_get_extensions A r = None \<and> X509_REQ_add_extensions A es r = Some r'
        \<longrightarrow> X509_REQ_get_extensions A r' = Some es) \<and>
     (\<forall>r b. PEM_write_bio_X509_REQ A r = (1, b) \<longrightarrow> PEM_read_bio_X509_REQ A b = Some r) \<and>
     (\<forall>r b. i2d_X509_REQ_bio A r = (1, b) \<longrightarrow> d2i_X509_REQ_bio A b = Some r)"

lemma added_names:
  assumes "names_law i2d d2i" and "create_law create" and "request_law A"
    and "X509_REQ_get_extensions A r = None"
    and "names_extension i2d create NID_subject_alt_name crit names = Inr ext" and "req_add A ext r = Inr r'"
  shows "req_alternative_names A d2i r' = names"
proof -
  obtain b where b: "i2d names = Some b" "ext = create NID_subject_alt_name crit b"
    using assms(5) by (auto simp: names_extension_def split: option.splits)
  obtain e where e: "ext = Some e" "X509_REQ_add_extensions A [e] r = Some r'"
    using assms(6) by (auto simp: req_add_def extension_stack_def extension_copy_def req_add_stack_def
        andthen_Inr checknull_Inr)
  have "ext_nid e = NID_subject_alt_name" "ext_data e = b" "d2i b = Some names"
    using assms(1,2) b e(1) by (auto simp: names_law_def create_law_def)
  moreover have "X509_REQ_get_extensions A r' = Some [e]"
    using assms(3,4) e(2) unfolding request_law_def by blast
  ultimately show ?thesis
    by (simp add: req_alternative_names_def req_get_extensions_def get_subject_alternative_names_def push_names_eq)
qed

lemma pem_read_back:
  assumes "request_law A" and "req_pem A r = Inr text" and "length text < 2 ^ 31"
  shows "andthen (bio_of_string text) (\<lambda>mem. req_decode A mem True) = Inr r"
proof -
  have "\<forall>b. PEM_write_bio_X509_REQ A r = (1, b) \<longrightarrow> PEM_read_bio_X509_REQ A b = Some r"
    using assms(1) unfolding request_law_def by blast
  from text_read_back[OF this assms(2)[unfolded req_pem_def] assms(3)] show ?thesis
    by (simp add: req_decode_def)
qed

lemma der_read_back:
  assumes "request_law A" and "req_der A r = Inr data" and "length data < 2 ^ 31" and "data \<noteq> []"
  shows "req_of_vector A data False = Inr r"
proof -
  have "\<forall>b. i2d_X509_REQ_bio A r = (1, b) \<longrightarrow> d2i_X509_REQ_bio A b = Some r"
    using assms(1) unfolding request_law_def by blast
  from bytes_read_back[OF this assms(2)[unfolded req_der_def] assms(3,4)] show ?thesis
    by (simp add: req_of_vector_def req_decode_def)
qed

end
