(* ===== verification/SslCertificates.thy ===== *)
theory SslCertificates
  imports SslRequests
begin

text \<open>
  The methods of \<open>UqX509\<close>, \<open>UqEVP_PKEY\<close> and \<open>UqX509_CRL\<close> that write, read, change and compare objects, and
  what they do with the codes of OpenSSL: some are checked, some are dropped, some become a truth value.  The
  ownership of the objects is in \<open>Ownership\<close>.
\<close>

section \<open>The library\<close>

text \<open>A function that writes returns its code and what it wrote; None is a null pointer or an error.\<close>

record ('x, 'k) certificate_library =
  PEM_read_bio_X509 :: "bytes \<Rightarrow> 'x option"
  d2i_X509_bio :: "bytes \<Rightarrow> 'x option"
  PEM_write_bio_X509 :: "'x \<Rightarrow> int \<times> bytes"
  i2d_X509_bio :: "'x \<Rightarrow> int \<times> bytes"
  X509_print :: "'x \<Rightarrow> int \<times> bytes"
  X509_print_ex :: "'x \<Rightarrow> u64 \<Rightarrow> u64 \<Rightarrow> int \<times> bytes"
  X509_set_version :: "int \<Rightarrow> 'x \<Rightarrow> 'x option"
  X509_set_subject_name :: "name_entry list \<Rightarrow> 'x \<Rightarrow> 'x option"
  X509_set_issuer_name :: "name_entry list \<Rightarrow> 'x \<Rightarrow> 'x option"
  X509_set_pubkey :: "'k \<Rightarrow> 'x \<Rightarrow> 'x option"
  X509_add_ext :: "extension \<Rightarrow> int \<Rightarrow> 'x \<Rightarrow> 'x option"
  X509_get_pubkey :: "'x \<Rightarrow> 'k option"
  X509_verify :: "'x \<Rightarrow> 'k \<Rightarrow> int"
  PEM_read_bio_PUBKEY :: "bytes \<Rightarrow> 'k option"
  d2i_PUBKEY_bio :: "bytes \<Rightarrow> 'k option"
  PEM_write_bio_PUBKEY :: "'k \<Rightarrow> int \<times> bytes"
  i2d_PUBKEY_bio :: "'k \<Rightarrow> int \<times> bytes"
  EVP_PKEY_eq :: "'k \<Rightarrow> 'k \<Rightarrow> int"

section \<open>Certificates\<close>

text \<open>The constructors from a buffer and from a text; without the check the pointer may be null.\<close>

definition cert_read :: "('x, 'k) certificate_library \<Rightarrow> bytes \<Rightarrow> bool \<Rightarrow> bool \<Rightarrow> 'x option result" where
  "cert_read A mem pem check_null =
     (let x = (if pem then PEM_read_bio_X509 A mem else d2i_X509_bio A mem)
      in if check_null then andthen (checknull x) (\<lambda>x. Inr (Some x)) else Inr x)"

definition cert_of_text :: "('x, 'k) certificate_library \<Rightarrow> string \<Rightarrow> bool \<Rightarrow> 'x option result" where
  "cert_of_text A pem check_null = andthen (bio_of_string pem) (\<lambda>mem. cert_read A mem True check_null)"

definition cert_pem :: "('x, 'k) certificate_library \<Rightarrow> 'x \<Rightarrow> string result" where
  "cert_pem A x = checked_text (PEM_write_bio_X509 A x)"

definition cert_der :: "('x, 'k) certificate_library \<Rightarrow> 'x \<Rightarrow> bytes result" where
  "cert_der A x = checked_bytes (i2d_X509_bio A x)"

definition cert_text :: "('x, 'k) certificate_library \<Rightarrow> 'x \<Rightarrow> string result" where
  "cert_text A x = checked_text (X509_print A x)"

definition cert_to_string :: "('x, 'k) certificate_library \<Rightarrow> u64 \<Rightarrow> u64 \<Rightarrow> 'x \<Rightarrow> string result" where
  "cert_to_string A nameflags skipflags x = checked_text (X509_print_ex A x nameflags skipflags)"

text \<open>The code of the names' setters is dropped: when one fails, the certificate stays as it is.\<close>

definition cert_set_subject_name :: "('x, 'k) certificate_library \<Rightarrow> name_entry list \<Rightarrow> 'x \<Rightarrow> 'x" where
  "cert_set_subject_name A name x = (case X509_set_subject_name A name x of None \<Rightarrow> x | Some x' \<Rightarrow> x')"

definition cert_set_issuer_name :: "('x, 'k) certificate_library \<Rightarrow> name_entry list \<Rightarrow> 'x \<Rightarrow> 'x" where
  "cert_set_issuer_name A name x = (case X509_set_issuer_name A name x of None \<Rightarrow> x | Some x' \<Rightarrow> x')"

definition cert_set_version :: "('x, 'k) certificate_library \<Rightarrow> int \<Rightarrow> 'x \<Rightarrow> 'x result" where
  "cert_set_version A n x = checknull (X509_set_version A n x)"

definition cert_set_pubkey :: "('x, 'k) certificate_library \<Rightarrow> 'k \<Rightarrow> 'x \<Rightarrow> 'x result" where
  "cert_set_pubkey A key x = checknull (X509_set_pubkey A key x)"

definition cert_add_ext :: "('x, 'k) certificate_library \<Rightarrow> extension \<Rightarrow> int \<Rightarrow> 'x \<Rightarrow> 'x result" where
  "cert_add_ext A ex loc x = checknull (X509_add_ext A ex loc x)"

text \<open>Unlike \<open>UqX509_REQ::verify\<close>, this compares the code with 1.\<close>

definition cert_verify :: "('x, 'k) certificate_library \<Rightarrow> 'k \<Rightarrow> 'x \<Rightarrow> bool" where
  "cert_verify A key x = (X509_verify A x key = 1)"

section \<open>Public keys\<close>

definition key_read :: "('x, 'k) certificate_library \<Rightarrow> bytes \<Rightarrow> bool \<Rightarrow> 'k result" where
  "key_read A mem pem = checknull (if pem then PEM_read_bio_PUBKEY A mem else d2i_PUBKEY_bio A mem)"

definition key_pem :: "('x, 'k) certificate_library \<Rightarrow> 'k \<Rightarrow> string result" where
  "key_pem A key = checked_text (PEM_write_bio_PUBKEY A key)"

definition key_der :: "('x, 'k) certificate_library \<Rightarrow> 'k \<Rightarrow> bytes result" where
  "key_der A key = checked_bytes (i2d_PUBKEY_bio A key)"

text \<open>\<open>operator==\<close> and \<open>operator!=\<close>; keys that cannot be compared (a negative code) are different.\<close>

definition key_equal :: "('x, 'k) certificate_library \<Rightarrow> 'k \<Rightarrow> 'k \<Rightarrow> bool" where
  "key_equal A k k' = (EVP_PKEY_eq A k k' = 1)"

definition key_unequal :: "('x, 'k) certificate_library \<Rightarrow> 'k \<Rightarrow> 'k \<Rightarrow> bool" where
  "key_unequal A k k' = (\<not> key_equal A k k')"

definition cert_key :: "('x, 'k) certificate_library \<Rightarrow> 'x \<Rightarrow> 'k result" where
  "cert_key A x = (case X509_get_pubkey A x of
       None \<Rightarrow> Inl (Undefined_Behaviour ''EVP_PKEY_up_ref of a null pointer'')
     | Some pk \<Rightarrow> Inr pk)"

text \<open>\<open>has_public_key\<close> of a key, and of its text.\<close>

definition cert_has_key :: "('x, 'k) certificate_library \<Rightarrow> 'k \<Rightarrow> 'x \<Rightarrow> bool result" where
  "cert_has_key A target x = andthen (cert_key A x) (\<lambda>own. Inr (key_equal A own target))"

definition cert_has_key_text :: "('x, 'k) certificate_library \<Rightarrow> string \<Rightarrow> 'x \<Rightarrow> bool result" where
  "cert_has_key_text A target x = andthen (bio_of_string target) (\<lambda>bio.
     andthen (key_read A bio True) (\<lambda>key. cert_has_key A key x))"

section \<open>Other texts\<close>

text \<open>
  The texts of revocation lists and names are not checked, so that a failure gives what was written before
  it, even nothing; those of strings, times and general names are.  A number's text is freed with \<open>free\<close>.
\<close>

definition crl_pem_text :: "('r \<Rightarrow> int \<times> bytes) \<Rightarrow> 'r \<Rightarrow> string result" where
  "crl_pem_text PEM_write_bio_X509_CRL crl = unchecked_text (PEM_write_bio_X509_CRL crl)"

definition name_text :: "('n \<Rightarrow> int \<times> bytes) \<Rightarrow> ('n \<Rightarrow> u64 \<Rightarrow> int \<times> bytes) \<Rightarrow> u64 \<Rightarrow> 'n \<Rightarrow> string result" where
  "name_text X509_NAME_print X509_NAME_print_ex flags n =
     unchecked_text (if flags \<noteq> 0 then X509_NAME_print_ex n flags else X509_NAME_print n)"

definition printed_value :: "('v \<Rightarrow> int \<times> bytes) \<Rightarrow> 'v \<Rightarrow> string result" where
  "printed_value print_bio v = checked_text (print_bio v)"

section \<open>Certificates and keys are read back\<close>

definition certificate_law :: "('x, 'k) certificate_library \<Rightarrow> bool" where
  "certificate_law A \<longleftrightarrow>
     (\<forall>x b. PEM_write_bio_X509 A x = (1, b) \<longrightarrow> PEM_read_bio_X509 A b = Some x) \<and>
     (\<forall>k b. PEM_write_bio_PUBKEY A k = (1, b) \<longrightarrow> PEM_read_bio_PUBKEY A b = Some k) \<and>
     (\<forall>k. EVP_PKEY_eq A k k = 1)"

lemma cert_text_read_back:
  assumes "certificate_law A" and "cert_pem A x = Inr pem" and "length pem < 2 ^ 31"
  shows "cert_of_text A pem check = Inr (Some x)"
proof -
  have "\<forall>b. PEM_write_bio_X509 A x = (1, b) \<longrightarrow> PEM_read_bio_X509 A b = Some x"
    using assms(1) unfolding certificate_law_def by blast
  from text_read_back[OF this assms(2)[unfolded cert_pem_def] assms(3)] obtain mem where
    "bio_of_string pem = Inr mem" "PEM_read_bio_X509 A mem = Some x"
    by (auto simp: andthen_Inr checknull_Inr)
  then show ?thesis by (simp add: cert_of_text_def cert_read_def Let_def)
qed

text \<open>A certificate has the public key whose text was written from its own.\<close>

lemma cert_has_own_key_text:
  assumes "certificate_law A" and "X509_get_pubkey A x = Some k" and "key_pem A k = Inr pem"
    and "length pem < 2 ^ 31"
  shows "cert_has_key_text A pem x = Inr True"
proof -
  have w: "\<forall>b. PEM_write_bio_PUBKEY A k = (1, b) \<longrightarrow> PEM_read_bio_PUBKEY A b = Some k" and e: "EVP_PKEY_eq A k k = 1"
    using assms(1) unfolding certificate_law_def by blast+
  from text_read_back[OF w assms(3)[unfolded key_pem_def] assms(4)] obtain mem where
    "bio_of_string pem = Inr mem" "PEM_read_bio_PUBKEY A mem = Some k"
    by (auto simp: andthen_Inr checknull_Inr)
  then show ?thesis
    by (simp add: cert_has_key_text_def key_read_def cert_has_key_def cert_key_def key_equal_def assms(2) e)
qed

text \<open>An error of the library is a failed verification of a certificate, but a successful one of a request.\<close>

lemma verification_errors_differ: "X509_verify A x key < 0 \<Longrightarrow> \<not> cert_verify A key x \<and> req_verify (X509_verify A x key)"
  by (simp add: cert_verify_def req_verify_def)

end
