(* ===== verification/SslProps.thy ===== *)
theory SslProps
  imports SslDigest SslCertificates SgxExample
begin

text \<open>
  Properties of the wrappers of \<open>openssl.hpp\<close>: the digests the verifiers compute through them, and the
  requests, texts, signatures and validity ranges that applications use beside the verifiers.
\<close>

text \<open>
  The validity range of a chain that is not empty is the intersection of the validity ranges of its
  certificates: an instant lies in it exactly when it lies in each of them.
\<close>

theorem validity_range_is_intersection:
  assumes "time_order A key" and "stack \<noteq> []"
  shows "\<exists>f t. get_validity_range A stack = Inr (f, t)
     \<and> (\<forall>x. key f \<le> x \<and> x \<le> key t \<longleftrightarrow> (\<forall>c \<in> set stack. key (not_before A c) \<le> x \<and> x \<le> key (not_after A c)))"
proof -
  obtain f t where r: "get_validity_range A stack = Inr (f, t)"
    using get_validity_range_total[of A stack] assms(2) by (auto simp: is_ok_iff)
  note o = get_validity_range_order[OF assms(1) r]
  have "key f \<le> x \<and> x \<le> key t \<longleftrightarrow> (\<forall>c \<in> set stack. key (not_before A c) \<le> x \<and> x \<le> key (not_after A c))" for x
    using o(1,3) by (auto dest: o(2) o(4) intro: order_trans)
  with r show ?thesis by blast
qed

lemma validity_range_is_intersection_witness:
  "get_validity_range \<lparr>time_compare = \<lambda>s t. sgn (s - t), not_before = fst, not_after = snd\<rparr>
     [(1, 9), (3, 20), (2, 7 :: int)] = Inr (3, 7)"
proof -
  let ?A = "\<lparr>time_compare = \<lambda>s t. sgn (s - t), not_before = fst, not_after = snd\<rparr> :: (int \<times> int, int) time_api"
  have "time_order ?A id" by (simp add: time_order_def)
  from validity_range_is_intersection[OF this, of "[(1, 9), (3, 20), (2, 7)]"] show ?thesis
    by (simp add: get_validity_range_def Let_def)
qed

text \<open>
  C33. Over a library that computes digests piece by piece, the loop of verify_hash_match over its inputs and
  the loop over the bytes of the two hashes never fail, and decide whether the expected bytes are the digest
  of the concatenated inputs; the functions for a whole message return its digest.  So the verifiers, which
  take the digest of a message for one value, see what the code computes.
\<close>

theorem hash_match_refines:
  assumes "digest_law D hash st" and "md_sha256 ssl = hash sha"
  shows "hash_match D sha inputs expected = Inr (verify_hash_match ssl inputs expected)
    \<and> digest_of D sha message = Inr (sha256 ssl message)"
  by (simp add: hash_match_law[OF assms(1)] digest_of_law[OF assms(1)] verify_hash_match_iff sha256_def assms(2))

definition ex_digests :: "(unit, bytes) digest_library" where
  "ex_digests = \<lparr>EVP_MD_size = \<lambda>_. 1, EVP_DigestInit = \<lambda>_. Some [],
     EVP_DigestUpdate = \<lambda>s x. Some (s @ x), EVP_DigestFinal = \<lambda>s. Some [word_of_nat (length s)]\<rparr>"

lemma hash_match_refines_witness:
  "hash_match ex_digests () [[1, 2], [], [3]] [3] = Inr True
   \<and> hash_match ex_digests () [[1, 2], [], [3]] [2] = Inr False
   \<and> digest_of ex_digests () [7, 7] = Inr [2]"
proof -
  let ?hash = "\<lambda>(_ :: unit) b :: bytes. [word_of_nat (length b)] :: bytes"
  let ?ssl = "ex_ssl\<lparr>md_sha256 := ?hash ()\<rparr>"
  have l: "digest_law ex_digests ?hash (\<lambda>_ b. b)" by (simp add: digest_law_def ex_digests_def)
  have m: "md_sha256 ?ssl = ?hash ()" by simp
  from hash_match_refines[OF l m, where inputs = "[[1, 2], [], [3]]" and expected = "[3]" and message = "[7, 7]"]
    hash_match_refines[OF l m, where inputs = "[[1, 2], [], [3]]" and expected = "[2]" and message = "[7, 7]"]
  show ?thesis by (simp add: verify_hash_match_iff sha256_def)
qed

text \<open>
  Alternative names put in a request that had no extensions are found again after the request was written
  as PEM text, handed over as a string of less than 2 GB and decoded.
\<close>

theorem request_keeps_alternative_names:
  assumes "names_law i2d d2i" and "create_law create" and "request_law A"
    and "X509_REQ_get_extensions A r = None"
    and "names_extension i2d create NID_subject_alt_name crit names = Inr ext" and "req_add A ext r = Inr r'"
    and "req_pem A r' = Inr pem" and "length pem < 2 ^ 31"
  shows "andthen (andthen (bio_of_string pem) (\<lambda>mem. req_decode A mem True))
      (\<lambda>r''. Inr (req_alternative_names A d2i r'')) = Inr names"
  by (simp add: pem_read_back[OF assms(3,7,8)] added_names[OF assms(1-6)])

definition ex_requests :: "extension list option request_library" where
  "ex_requests = (let write = (\<lambda>r. case r of
         Some [e] \<Rightarrow> if ext_nid e = 85 then (1, ext_data e) else (0, [])
       | _ \<Rightarrow> (0, []));
       read = (\<lambda>b. Some (Some [\<lparr>ext_nid = 85, ext_data = b\<rparr>]))
     in \<lparr>X509_REQ_new = Some None, X509_REQ_set_subject_name = \<lambda>_ r. Some r,
       X509_REQ_add_extensions = \<lambda>es _. Some (Some es), X509_REQ_get_extensions = \<lambda>r. r,
       PEM_read_bio_X509_REQ = read, d2i_X509_REQ_bio = read,
       PEM_write_bio_X509_REQ = write, i2d_X509_REQ_bio = write\<rparr>)"

lemma ex_requests_law: "request_law ex_requests"
  by (auto simp: request_law_def ex_requests_def Let_def split: option.splits list.splits if_splits)

lemma request_keeps_alternative_names_witness:
  "andthen (andthen (bio_of_string ''ab'') (\<lambda>mem. req_decode ex_requests mem True))
     (\<lambda>r. Inr (req_alternative_names ex_requests Some r)) = Inr [97, 98]"
proof -
  let ?create = "\<lambda>nid crit b. Some \<lparr>ext_nid = nid, ext_data = b\<rparr>"
  let ?ext = "\<lparr>ext_nid = 85, ext_data = [97, 98]\<rparr>"
  have "names_law Some Some" "create_law ?create" by (simp_all add: names_law_def create_law_def)
  moreover have "names_extension Some ?create NID_subject_alt_name True [97, 98] = Inr (Some ?ext)"
    by (simp add: names_extension_def NID_subject_alt_name_def)
  moreover have "X509_REQ_get_extensions ex_requests None = None"
    and "req_add ex_requests (Some ?ext) None = Inr (Some [?ext])"
    and "req_pem ex_requests (Some [?ext]) = Inr ''ab''"
    by (simp_all add: ex_requests_def req_add_def extension_stack_def extension_copy_def req_add_stack_def
        push_names_eq req_pem_def checked_text_def bio_write_def bio_empty_def bio_to_string_def
        Let_def string_of_def char_of_byte_def char_of_def bit_numeral_rec bit_0)
  moreover have "length ''ab'' < 2 ^ 31" by simp
  ultimately show ?thesis
    using request_keeps_alternative_names[of Some Some ?create ex_requests None True "[97, 98]" "Some ?ext"
        "Some [?ext]" "''ab''"] ex_requests_law by blast
qed

end
