(* ===== verification/Spec2Isabelle.thy ===== *)
theory Spec2Isabelle
  imports SgxProps SevProps OeProps TrackerProps AsyncProps AttestationProps BaseProps
    OwnershipProps VerbosityProps ClientProps CliProps SslProps
begin

text \<open>
  A verification development of ravl, a library that verifies remote attestations of trusted execution
  environments: Intel SGX quotes, AMD SEV-SNP reports, Open Enclave evidence and Azure container
  instances.  File names below are those of the repository under \<open>src/\<close>.

  \<^bold>\<open>The program.\<close>  An attestation is a piece of evidence with optional endorsements.  Its class
  (\<open>include/ravl/sgx.h\<close>, \<open>sev_snp.h\<close>, \<open>oe.h\<close>, \<open>aci.h\<close>) has two virtual functions:
  \<open>prepare_endorsements\<close> lists the HTTP requests that fetch what is missing, and \<open>verify\<close> takes the
  responses and either returns claims or throws.  Three drivers put them together: \<open>verify_synchronous\<close>
  and \<open>verify_synchronized\<close> (\<open>ravl_impl.h\<close>), the request tracker (\<open>request_tracker_impl.h\<close>), a state
  machine per request that an HTTP client calls back, and the C interface (\<open>src/capi.cpp\<close>); a command
  line (\<open>src/cli.cpp\<close>) verifies the attestations in files.  The HTTP
  clients are a synchronous one over curl (\<open>src/http_client.cpp\<close>), an asynchronous one with a thread per
  set of requests (\<open>src/http_client_curl.cpp\<close>) and one over the fetch of a browser
  (\<open>wasm/http_client_fetch.cpp\<close>).  Below are wrappers of OpenSSL (\<open>openssl.hpp\<close>, \<open>crypto.h\<close>) and
  utilities (\<open>util.h\<close>).

  \<^bold>\<open>Theories.\<close>
    \<^item> \<open>Prelude\<close>: bytes, \<open>failure\<close> (one constructor per C++ exception class, and one for undefined
      behaviour), the result type with \<open>andthen\<close>, \<open>throw_if\<close> and \<open>rethrow_as\<close>, unsigned arithmetic at the
      width of \<open>size_t\<close>; the collections of simplification and safety rules.  \<open>StdMap\<close>: the maps of the
      standard library and the interface \<open>keyed_store\<close>.
    \<^item> \<open>Util\<close>, \<open>Codec\<close>, \<open>Hex\<close>: \<open>util.h\<close> in three parts (strings and dates; the bounds-checked readers and
      writers, interface \<open>codec\<close>; hexadecimal text).  \<open>Json\<close>: the values and accessors of
      \<open>json.h\<close>.  \<open>Options\<close>: \<open>options.h\<close> and \<open>crypto_options.h\<close>.  \<open>Format\<close>: the numbers and indents of
      printed reports.  \<open>Layout\<close>: packed and aligned structures with the offsets of their members.
    \<^item> \<open>Crypto\<close>: \<open>crypto.h\<close> over a record \<open>openssl\<close> of the functions of OpenSSL; \<open>Asn1\<close>: the sequence
      readers of \<open>openssl.hpp\<close>; \<open>Printing\<close>, \<open>CertChain\<close>: the short texts of certificates and revocation
      lists, and the verification of a chain with what it prints; \<open>Ownership\<close>, \<open>OwnershipRuns\<close>: who owns
      the certificates, keys, revocation lists and stacks of \<open>openssl.hpp\<close>, over a heap of reference counts, for one
      operation and for whole programs; \<open>SslValues\<close>: the same for objects that are copied;
      \<open>LoadCertificates\<close>: \<open>load_certificates\<close> of \<open>crypto.h\<close>; \<open>SslErrors\<close>: the error queue and the checks of
      return values; \<open>SslObjects\<close>: names, alternative names, validity ranges; \<open>SslDigest\<close>: the digest context;
      \<open>SslBuffers\<close>, \<open>SslRequests\<close>, \<open>SslCertificates\<close>: memory buffers, and how names, extensions, requests,
      certificates and keys are built, signed, written and read.
    \<^item> \<open>Http\<close>: responses, headers, URL decoding, the synchronous client.  \<open>AsyncHttp\<close>, \<open>AsyncSteps\<close>: the
      asynchronous client over curl and the states it reaches.  \<open>FetchHttp\<close>: the client in the browser.
      \<open>ClientSetup\<close>: the settings of the clients and what they make of a request.
    \<^item> \<open>SgxQuote\<close>, \<open>SgxTcb\<close>, \<open>SgxCollateral\<close>, \<open>Sgx\<close>: \<open>sgx_defs.h\<close> and \<open>sgx_impl.h\<close> (layout and parsing of
      quotes and compression; certificate extension, TCB info and QE identity; collateral, requests and
      responses; the verifier), \<open>SgxReports\<close> and \<open>SgxLayout\<close> (printed collateral; packed structures).
      \<open>SevSnp\<close>, \<open>SevLayout\<close>: \<open>sev_snp_impl.h\<close> and its packed structures.  \<open>OpenEnclave\<close>, \<open>OeCompress\<close>,
      \<open>OePlugin\<close>: \<open>oe_impl.h\<close>.  \<open>Uvm\<close>: container instances with their COSE statement,
      key and DID document (\<open>aci_impl.h\<close>, \<open>uvm_endorsements.h\<close>, \<open>cose_*.h\<close>, \<open>jwk.h\<close>, \<open>did.h\<close>).
    \<^item> \<open>Tracker\<close>, \<open>TrackerSteps\<close>: the request tracker, the drivers, and the tracker as a step relation: one
      step is a call of a user or a client with all the calls that client and callbacks make within it, for
      any client and any callbacks that keep to \<open>client_law\<close> and \<open>callback_law\<close>.
    \<^item> \<open>Attestation\<close>, \<open>ClaimsJson\<close>, \<open>ClaimsText\<close>, \<open>CApi\<close>: \<open>attestation.h\<close>, \<open>src/attestation.cpp\<close>, the JSON
      form of claims and its text, and \<open>src/capi.cpp\<close>.  \<open>Cli\<close>: \<open>src/cli.cpp\<close>.
    \<^item> \<open>SgxProps\<close>, \<open>SevProps\<close>, \<open>OeProps\<close>, \<open>TrackerProps\<close>, \<open>AsyncProps\<close>, \<open>AttestationProps\<close>, \<open>BaseProps\<close>,
      \<open>OwnershipProps\<close>, \<open>VerbosityProps\<close>, \<open>ClientProps\<close>, \<open>CliProps\<close>, \<open>SslProps\<close>: the properties.
      \<open>SgxExample\<close>, \<open>SevExample\<close>, \<open>EnvExample\<close>: concrete platforms on which every verifier accepts, the
      inputs of the witnesses.

  \<^bold>\<open>How the model reads.\<close>  A function that may throw returns \<open>failure + 'a\<close>; a read outside a buffer, or
  another undefined behaviour, is a value of \<open>failure\<close> that no handler catches.  Only the class of an
  exception is kept where the code looks at nothing else; messages are kept without their formatted
  arguments.  Integers have their C++ width where they may wrap.  Effects are state passing: the tracker
  is a record with the map of requests and the client as a component; a client of curl is a record with
  the maps of requests, responses and monitors.

  \<^bold>\<open>What is shown.\<close>
    \<^item> Soundness of the four verifiers: what each has established about certificates, signatures, hashes
      and fields when it returns claims (\<open>SgxProps.sgx_verify_sound\<close>, \<open>SevProps.snp_verify_sound\<close>,
      \<open>SevProps.aci_verify_sound\<close>; Open Enclave is reduced to SGX by \<open>OeProps.oe_verify_is_sgx\<close>), and
      that the claims are the fields of what was verified.
    \<^item> What is not bound: custom claims; the text of the TCB info; the claims of a SEV-SNP report that is
      shorter than 1016 bytes (\<open>SevProps.snp_claims_are_signed\<close>).
    \<^item> Parsers: every span lies inside the evidence, the certification data included; the inputs on which a
      reader leaves it; collateral and claims read back what is written, and attestations, too, in base64
      below 2 GB; compression keeps the quote and its certificates and shortens it, but truncates a quote
      whose chain is DER already; the offsets of the claims in quotes and reports follow from the sizes of
      the members of the packed structures.
    \<^item> Texts: claims are read back from their JSON form; which claims have a text, and accepted evidence
      whose claims have none.
    \<^item> Digests: the context with its updates and the loops over inputs and bytes compute the digest of the
      whole message (\<open>SslProps.hash_match_refines\<close>), which is what the verifiers are stated over.
    \<^item> Applications: requests and certificates are read back from their texts below 2 GB, with their
      alternative names; when a signature that succeeded is refused.
    \<^item> Printing: what is accepted while reports are printed is accepted in silence, and the other way round
      when the library can print what it has read; a missing date in a revocation list is a null pointer.
    \<^item> Tracker and drivers: the two drivers agree; in every reachable state, whatever callbacks and client do, a
      result comes from \<open>verify\<close> on the submitted attestation; requests only move forward; a submitted
      request is completed, with the synchronous client at once and with the asynchronous one when its
      monitor ends; a callback that throws makes a verified request a failed one.
    \<^item> Clients: the invariant of the maps, the number of attempts, the order of answers; a set whose transfers
      succeed is completed, one with a transfer that failed early or that the server keeps putting off is not.
    \<^item> Memory: no sequence of operations on the wrappers of OpenSSL objects touches a freed object, and what
      is never freed is known exactly; objects that are copied have one owner each, but for the operations
      that share a pointer.
    \<^item> The drivers over the verifiers: claims that \<open>verify_synchronized\<close> or the C interface returns come
      from a full verification on answers with status 200; which options the clients of the drivers ignore;
      what the command line prints for each file, and which files end it.

  \<^bold>\<open>Interfaces.\<close>  A \<open>locale\<close> states each contract a client relies on, and is interpreted on the model's
  definitions: \<open>keyed_store\<close> (the maps of the tracker and the clients), \<open>codec\<close> (integers of each width
  and length-prefixed blobs, which the collateral format chains), \<open>level_search\<close> (the loops over TCB
  levels, of the platform and of the quoting enclave), \<open>http_client\<close> with its callbacks,
  \<open>tracker_callbacks\<close> and \<open>tracker_env\<close> (what the tracker needs of the client it runs on),
  \<open>tracker_evolution\<close> (a relation that every operation of the tracker keeps, nested calls included; as
  \<open>verified\<close> for the claims and as \<open>forward\<close> for the states), and
  \<open>attestation_law\<close> (what every class of attestations promises to the drivers).

  \<^bold>\<open>Bounds and fuel.\<close>  \<open>advance\<close> of the tracker may be called again by the callbacks it runs and carries
  the depth of these calls: three are enough, since a submitted request is advanced once more by its
  answers, or by itself when there is nothing to fetch, and a finished one by its callback.  The step
  relation of the tracker ranges over every depth, and so do its invariants.  The loop of
  the synchronous client has at most \<open>max_attempts\<close> rounds.  A monitor thread reads a list of what curl
  reports; whether it ends is a theorem about that list.  \<open>replace_all\<close> is a partial function, since the
  loop does not end for an empty pattern.  Programs over the OpenSSL wrappers are runs of any length.

  \<^bold>\<open>Parameters.\<close>  OpenSSL (the record \<open>openssl\<close>), the JSON parser and printer of nlohmann, the CBOR decoder,
  t_cose and the resolver of DIDs (the record \<open>cose_library\<close>), curl and the browser (what they report,
  in any order), \<open>strptime\<close> and the formatting of text.  Laws about them are hypotheses of the properties
  that need them, and hold for the concrete libraries of \<open>SgxExample\<close> and \<open>SevExample\<close>: that reads
  consume their input (\<open>reads_consume\<close>), that certificates are read back from the DER and PEM forms they
  are written in (\<open>x509_io_laws\<close>, \<open>pem_io_law\<close>) and bytes from their base64 text (\<open>base64_law\<close>), that dates and
  issuers can be printed (\<open>prints\<close>).

  \<^bold>\<open>Not modelled.\<close>  Tests and third-party code; the wrappers of \<open>openssl.hpp\<close> that only pass their
  arguments to one function of OpenSSL and that nothing in the library calls (setters of numbers, groups and
  points of elliptic curves, contexts of X509V3), and the chains of BIOs; the branch of \<open>oe_impl.h\<close> for the
  Open Enclave verifier, which does not compile, as it uses a member that does not exist; the forwarding
  class \<open>AttestationRequestTracker\<close>, whose functions call those of its implementation; the serializers of
  \<open>json.h\<close>, which call those of nlohmann; the keys of \<open>jwk.h\<close> for elliptic curves, which are never read;
  the locks, which only order the steps
  (each operation is one step, and the interleavings of steps are what the step relations range over).
\<close>

end
